(* ===== verification/Prelude.thy ===== *)
theory Prelude
  imports Main
begin

section \<open>Prelude: effectful programs, their runs, and shared automation\<close>

text \<open>
  The operator is a set of handlers that call the Kubernetes API, the clock, the random
  source, the image registry and the event recorder, and compute with the answers.
  None of those services is part of the repository, so a handler is modelled as an
  \<^emph>\<open>interaction\<close>: a tree that is either a result or a request together with what the
  handler does for every possible answer. The environment that answers is a parameter
  of every statement:
  \<^item> \<open>runs m tr a\<close> says that \<open>m\<close> can finish with result \<open>a\<close> after the exchange \<open>tr\<close> of
  requests and answers, for \<^emph>\<open>some\<close> answers (so a theorem about all runs holds whatever the
  API server does, failures and concurrent writers included);
  \<^item> \<open>exec srv m w\<close> runs \<open>m\<close> against one given server, a function from a request and
  the state of the world to an answer and the next state.

  Go's \<^verbatim>\<open>error\<close> results are values of a sum type; \<open>chk\<close> is the idiom
  \<^verbatim>\<open>if err := f(); err != nil { return err }\<close>, \<open>chks\<close> a sequence of such calls and
  \<open>forE\<close> a loop whose body returns at the first error.
\<close>

named_theorems run_simps
named_theorems calls_intros

subsection \<open>Interaction trees\<close>

datatype ('q, 'r, 'a) prog = Ret 'a | Call 'q "'r \<Rightarrow> ('q, 'r, 'a) prog"

primrec bnd :: "('q, 'r, 'a) prog \<Rightarrow> ('a \<Rightarrow> ('q, 'r, 'b) prog) \<Rightarrow> ('q, 'r, 'b) prog" where
  "bnd (Ret a) f = f a"
| "bnd (Call q k) f = Call q (\<lambda>r. bnd (k r) f)"

lemma bnd_Ret_right [simp]: "bnd m Ret = m"
  by (induction m) auto

lemma bnd_assoc [simp]: "bnd (bnd m f) g = bnd m (\<lambda>x. bnd (f x) g)"
  by (induction m) auto

definition chk ::
  "('q, 'r, 'e + 'a) prog \<Rightarrow> ('a \<Rightarrow> ('q, 'r, 'e + 'b) prog) \<Rightarrow> ('q, 'r, 'e + 'b) prog" where
  "chk m f = bnd m (\<lambda>x. case x of Inl e \<Rightarrow> Ret (Inl e) | Inr a \<Rightarrow> f a)"

definition whenE :: "bool \<Rightarrow> ('q, 'r, 'e + unit) prog \<Rightarrow> ('q, 'r, 'e + unit) prog" where
  "whenE b m = (if b then m else Ret (Inr ()))"

fun chks :: "('q, 'r, 'e + unit) prog list \<Rightarrow> ('q, 'r, 'e + unit) prog" where
  "chks [] = Ret (Inr ())"
| "chks (m # ms) = chk m (\<lambda>_. chks ms)"

definition forE :: "'x list \<Rightarrow> ('x \<Rightarrow> ('q, 'r, 'e + unit) prog) \<Rightarrow> ('q, 'r, 'e + unit) prog" where
  "forE xs f = chks (map f xs)"

lemma chk_Ret [simp]:
  "chk (Ret (Inl e)) f = Ret (Inl e)" "chk (Ret (Inr a)) f = f a"
  by (simp_all add: chk_def)

lemma forE_simps [simp]:
  "forE [] f = Ret (Inr ())" "forE (x # xs) f = chk (f x) (\<lambda>_. forE xs f)"
  by (simp_all add: forE_def)

lemma whenE_simps [simp]: "whenE True m = m" "whenE False m = Ret (Inr ())"
  by (simp_all add: whenE_def)

subsection \<open>Runs: every exchange a program can have with its environment\<close>

inductive runs :: "('q, 'r, 'a) prog \<Rightarrow> ('q \<times> 'r) list \<Rightarrow> 'a \<Rightarrow> bool" where
  runs_Ret: "runs (Ret a) [] a"
| runs_Call: "runs (k r) tr a \<Longrightarrow> runs (Call q k) ((q, r) # tr) a"

inductive_simps runs_Ret_iff [simp, run_simps]: "runs (Ret a) tr b"
inductive_simps runs_Call_iff [run_simps]: "runs (Call q k) tr b"
inductive_cases runs_CallE: "runs (Call q k) tr b"

lemma runs_bnd [run_simps]:
  "runs (bnd m f) tr b \<longleftrightarrow> (\<exists>t1 a t2. tr = t1 @ t2 \<and> runs m t1 a \<and> runs (f a) t2 b)"
proof (induction m arbitrary: tr)
  case (Ret x)
  then show ?case by simp
next
  case (Call q k)
  show ?case
  proof
    assume "runs (bnd (Call q k) f) tr b"
    then obtain r tr' where tr: "tr = (q, r) # tr'" and "runs (bnd (k r) f) tr' b"
      by (auto simp: runs_Call_iff)
    then obtain t1 a t2 where "tr' = t1 @ t2" "runs (k r) t1 a" "runs (f a) t2 b"
      using Call.IH [of "k r" tr'] by auto
    with tr have "tr = ((q, r) # t1) @ t2 \<and> runs (Call q k) ((q, r) # t1) a \<and> runs (f a) t2 b"
      by (simp add: runs_Call)
    then show "\<exists>t1 a t2. tr = t1 @ t2 \<and> runs (Call q k) t1 a \<and> runs (f a) t2 b" by blast
  next
    assume "\<exists>t1 a t2. tr = t1 @ t2 \<and> runs (Call q k) t1 a \<and> runs (f a) t2 b"
    then obtain r t1 a t2 where "tr = ((q, r) # t1) @ t2" "runs (k r) t1 a" "runs (f a) t2 b"
      by (auto simp: runs_Call_iff)
    then show "runs (bnd (Call q k) f) tr b"
      using Call.IH [of "k r" "t1 @ t2"] by (auto intro: runs_Call)
  qed
qed

lemma runs_chk [run_simps]:
  "runs (chk m f) tr b \<longleftrightarrow>
     (\<exists>e. b = Inl e \<and> runs m tr (Inl e)) \<or>
     (\<exists>t1 a t2. tr = t1 @ t2 \<and> runs m t1 (Inr a) \<and> runs (f a) t2 b)"
proof
  assume "runs (chk m f) tr b"
  then obtain t1 x t2 where "tr = t1 @ t2" "runs m t1 x"
      "runs (case x of Inl e \<Rightarrow> Ret (Inl e) | Inr a \<Rightarrow> f a) t2 b"
    unfolding chk_def runs_bnd by blast
  then show "(\<exists>e. b = Inl e \<and> runs m tr (Inl e)) \<or>
      (\<exists>t1 a t2. tr = t1 @ t2 \<and> runs m t1 (Inr a) \<and> runs (f a) t2 b)"
    by (cases x) auto
next
  assume "(\<exists>e. b = Inl e \<and> runs m tr (Inl e)) \<or>
      (\<exists>t1 a t2. tr = t1 @ t2 \<and> runs m t1 (Inr a) \<and> runs (f a) t2 b)"
  then show "runs (chk m f) tr b"
    unfolding chk_def runs_bnd
  proof
    assume "\<exists>e. b = Inl e \<and> runs m tr (Inl e)"
    then obtain e where "b = Inl e" "runs m tr (Inl e)" by blast
    then show "\<exists>t1 x t2. tr = t1 @ t2 \<and> runs m t1 x \<and>
        runs (case x of Inl e \<Rightarrow> Ret (Inl e) | Inr a \<Rightarrow> f a) t2 b"
      by (intro exI [of _ tr] exI [of _ "Inl e"] exI [of _ "[]"]) simp
  next
    assume "\<exists>t1 a t2. tr = t1 @ t2 \<and> runs m t1 (Inr a) \<and> runs (f a) t2 b"
    then show "\<exists>t1 x t2. tr = t1 @ t2 \<and> runs m t1 x \<and>
        runs (case x of Inl e \<Rightarrow> Ret (Inl e) | Inr a \<Rightarrow> f a) t2 b"
      by force
  qed
qed

lemma runs_chkE:
  assumes "runs (chk m f) tr b"
  obtains (err) e where "b = Inl e" "runs m tr (Inl e)"
  | (ok) t1 a t2 where "tr = t1 @ t2" "runs m t1 (Inr a)" "runs (f a) t2 b"
  using assms unfolding runs_chk by blast

lemma runs_chk_Inr [run_simps]:
  "runs (chk m f) tr (Inr b) \<longleftrightarrow> (\<exists>t1 a t2. tr = t1 @ t2 \<and> runs m t1 (Inr a) \<and> runs (f a) t2 (Inr b))"
  by (auto simp: runs_chk)

lemma runs_whenE [run_simps]:
  "runs (whenE b m) tr x \<longleftrightarrow> (if b then runs m tr x else tr = [] \<and> x = Inr ())"
  by (auto simp: whenE_def)

text \<open>An exchange that the first part of a program never has belongs to the second part.\<close>

lemma runs_bnd_after:
  assumes "runs (bnd m f) tr b" "e \<in> set tr" "\<And>t a. runs m t a \<Longrightarrow> e \<notin> set t"
  obtains t1 a t2 where "tr = t1 @ t2" "runs m t1 a" "runs (f a) t2 b" "e \<in> set t2"
  using assms unfolding runs_bnd by (metis Un_iff set_append)

lemma runs_chk_after:
  assumes "runs (chk m f) tr b" "e \<in> set tr" "\<And>t a. runs m t a \<Longrightarrow> e \<notin> set t"
  obtains t1 a t2 where "tr = t1 @ t2" "runs m t1 (Inr a)" "runs (f a) t2 b" "e \<in> set t2"
  using assms unfolding runs_chk by (metis Un_iff set_append)

lemma runs_chk_before:
  assumes "runs (chk m f) tr b" "e \<in> set tr" "\<And>t a x. runs (f a) t x \<Longrightarrow> e \<notin> set t"
  obtains t a where "set t \<subseteq> set tr" "runs m t a" "e \<in> set t"
  using assms(1)
proof (cases rule: runs_chkE)
  case (err e')
  with assms(2) that show thesis by blast
next
  case (ok t1 a t2)
  with assms(2,3) have "e \<in> set t1" by auto
  with ok that [of t1 "Inr a"] show thesis by simp
qed

lemma runs_forE_each:
  assumes "runs (forE xs f) tr (Inr ())" "x \<in> set xs"
  obtains t where "runs (f x) t (Inr ())" "set t \<subseteq> set tr"
  using assms
proof (induction xs arbitrary: tr thesis)
  case (Cons a xs)
  from Cons.prems(2) obtain t1 t2 where tr: "tr = t1 @ t2" and a: "runs (f a) t1 (Inr ())"
    and xs: "runs (forE xs f) t2 (Inr ())" by (auto simp: runs_chk_Inr)
  show ?case
  proof (cases "x = a")
    case True
    with a tr Cons.prems(1) show ?thesis by auto
  next
    case False
    with Cons.prems(3) have "x \<in> set xs" by simp
    from Cons.IH [OF _ xs this] obtain t where "runs (f x) t (Inr ())" "set t \<subseteq> set t2" by blast
    with tr Cons.prems(1) show ?thesis by auto
  qed
qed simp

text \<open>Every program finishes: an interaction tree has no infinite path.\<close>

lemma runs_total: "\<exists>tr a. runs m tr a"
proof (induction m)
  case (Ret a)
  then show ?case by auto
next
  case (Call q k)
  then obtain tr a where "runs (k undefined) tr a" by blast
  then show ?case by (blast intro: runs_Call)
qed

subsection \<open>Which requests a program can make\<close>

primrec calls :: "('q \<Rightarrow> bool) \<Rightarrow> ('q, 'r, 'a) prog \<Rightarrow> bool" where
  "calls P (Ret a) = True"
| "calls P (Call q k) = (P q \<and> (\<forall>r. calls P (k r)))"

lemma calls_runs: "calls P m \<Longrightarrow> runs m tr a \<Longrightarrow> (q, r) \<in> set tr \<Longrightarrow> P q"
proof (induction m arbitrary: tr)
  case (Call q' k)
  then obtain r' tr' where tr: "tr = (q', r') # tr'" and run: "runs (k r') tr' a"
    by (auto simp: runs_Call_iff)
  show ?case
  proof (cases "(q, r) = (q', r')")
    case True
    with Call.prems show ?thesis by simp
  next
    case False
    with Call.prems tr have "(q, r) \<in> set tr'" by auto
    with Call.IH [of "k r'" tr'] Call.prems run show ?thesis by simp
  qed
qed simp

lemma calls_mono: "calls P m \<Longrightarrow> (\<And>q. P q \<Longrightarrow> Q q) \<Longrightarrow> calls Q m"
  by (induction m) auto

lemma calls_True [simp]: "calls (\<lambda>_. True) m"
  by (induction m) auto

lemma calls_bnd [calls_intros]: "calls P m \<Longrightarrow> (\<And>a. calls P (f a)) \<Longrightarrow> calls P (bnd m f)"
  by (induction m) auto

lemma calls_chk [calls_intros]: "calls P m \<Longrightarrow> (\<And>a. calls P (f a)) \<Longrightarrow> calls P (chk m f)"
  unfolding chk_def by (rule calls_bnd) (auto split: sum.splits)

lemma calls_whenE [calls_intros]: "(b \<Longrightarrow> calls P m) \<Longrightarrow> calls P (whenE b m)"
  by (simp add: whenE_def)

lemma calls_if [calls_intros]: "(b \<Longrightarrow> calls P m) \<Longrightarrow> (\<not> b \<Longrightarrow> calls P n) \<Longrightarrow> calls P (if b then m else n)"
  by simp

lemma calls_chks [calls_intros]: "(\<And>m. m \<in> set ms \<Longrightarrow> calls P m) \<Longrightarrow> calls P (chks ms)"
  by (induction ms) (auto intro!: calls_chk)

lemma calls_forE [calls_intros]: "(\<And>x. x \<in> set xs \<Longrightarrow> calls P (f x)) \<Longrightarrow> calls P (forE xs f)"
  unfolding forE_def by (rule calls_chks) auto

lemma calls_Ret [calls_intros]: "calls P (Ret a)"
  by simp

lemma calls_sum [calls_intros]:
  "(\<And>e. x = Inl e \<Longrightarrow> calls P (f e)) \<Longrightarrow> (\<And>a. x = Inr a \<Longrightarrow> calls P (g a)) \<Longrightarrow>
     calls P (case x of Inl e \<Rightarrow> f e | Inr a \<Rightarrow> g a)"
  by (cases x) auto

lemma calls_option [calls_intros]:
  "(x = None \<Longrightarrow> calls P f) \<Longrightarrow> (\<And>a. x = Some a \<Longrightarrow> calls P (g a)) \<Longrightarrow>
     calls P (case x of None \<Rightarrow> f | Some a \<Rightarrow> g a)"
  by (cases x) auto

text \<open>
  The continuation of a call only has to be looked at for the results the call can have.
\<close>

lemma calls_bnd_runs:
  "calls P m \<Longrightarrow> (\<And>t a. runs m t a \<Longrightarrow> calls P (f a)) \<Longrightarrow> calls P (bnd m f)"
proof (induction m)
  case (Call q k)
  have "calls P (bnd (k r) f)" for r
    using Call.prems by (intro Call.IH) (auto intro: runs_Call)
  with Call.prems show ?case by simp
qed (auto intro: runs_Ret)

lemma calls_chk_runs:
  "calls P m \<Longrightarrow> (\<And>t a. runs m t (Inr a) \<Longrightarrow> calls P (f a)) \<Longrightarrow> calls P (chk m f)"
  unfolding chk_def by (rule calls_bnd_runs) (auto split: sum.splits)

subsection \<open>Running against one server\<close>

type_synonym ('q, 'r, 'w) server = "'q \<Rightarrow> 'w \<Rightarrow> 'r \<times> 'w"

primrec exec :: "('q, 'r, 'w) server \<Rightarrow> ('q, 'r, 'a) prog \<Rightarrow> 'w \<Rightarrow> 'a \<times> 'w" where
  "exec srv (Ret a) w = (a, w)"
| "exec srv (Call q k) w = (case srv q w of (r, w') \<Rightarrow> exec srv (k r) w')"

primrec trace_of :: "('q, 'r, 'w) server \<Rightarrow> ('q, 'r, 'a) prog \<Rightarrow> 'w \<Rightarrow> ('q \<times> 'r) list" where
  "trace_of srv (Ret a) w = []"
| "trace_of srv (Call q k) w = (case srv q w of (r, w') \<Rightarrow> (q, r) # trace_of srv (k r) w')"

text \<open>What a server produces is one of the runs, so a fact about all runs holds for it.\<close>

lemma exec_runs: "runs m (trace_of srv m w) (fst (exec srv m w))"
  by (induction m arbitrary: w) (auto intro: runs_Call split: prod.splits)

lemma exec_bnd [simp]:
  "exec srv (bnd m f) w = (case exec srv m w of (a, w') \<Rightarrow> exec srv (f a) w')"
  by (induction m arbitrary: w) (auto split: prod.splits)

lemma exec_chk [simp]:
  "exec srv (chk m f) w =
     (case exec srv m w of (Inl e, w') \<Rightarrow> (Inl e, w') | (Inr a, w') \<Rightarrow> exec srv (f a) w')"
  by (auto simp: chk_def split: prod.splits sum.splits)

subsection \<open>Ordering of requests in a run\<close>

text \<open>
  \<open>gated W G tr\<close>: every exchange of \<open>tr\<close> that satisfies \<open>W\<close> comes after one that
  satisfies \<open>G\<close>. It is the shape of the operator's ordering guarantees (nothing is
  rolled out before a certain answer was seen).
\<close>

fun gated :: "('e \<Rightarrow> bool) \<Rightarrow> ('e \<Rightarrow> bool) \<Rightarrow> 'e list \<Rightarrow> bool" where
  "gated W G [] = True"
| "gated W G (e # es) = (\<not> W e \<and> (G e \<or> gated W G es))"

lemma gated_append:
  "gated W G (xs @ ys) \<longleftrightarrow> gated W G xs \<and> ((\<exists>e\<in>set xs. G e) \<or> gated W G ys)"
  by (induction xs) auto

lemma gated_none: "(\<And>e. e \<in> set xs \<Longrightarrow> \<not> W e) \<Longrightarrow> gated W G xs"
  by (induction xs) auto

lemma gated_iff:
  "gated W G tr \<longleftrightarrow> (\<forall>xs e ys. tr = xs @ e # ys \<longrightarrow> W e \<longrightarrow> (\<exists>g\<in>set xs. G g))"
proof (induction tr)
  case (Cons a tr)
  show ?case
  proof
    assume g: "gated W G (a # tr)"
    show "\<forall>xs e ys. a # tr = xs @ e # ys \<longrightarrow> W e \<longrightarrow> (\<exists>g\<in>set xs. G g)"
    proof (intro allI impI)
      fix xs e ys
      assume eq: "a # tr = xs @ e # ys" and w: "W e"
      from g w eq obtain xs' where "xs = a # xs'" "tr = xs' @ e # ys" by (cases xs) auto
      with g w Cons.IH show "\<exists>g\<in>set xs. G g" by auto
    qed
  next
    assume *: "\<forall>xs e ys. a # tr = xs @ e # ys \<longrightarrow> W e \<longrightarrow> (\<exists>g\<in>set xs. G g)"
    have na: "\<not> W a" using *[rule_format, of "[]" a tr] by auto
    have "G a \<or> gated W G tr"
    proof (rule disjCI)
      assume "\<not> gated W G tr"
      then obtain xs e ys where "tr = xs @ e # ys" "W e" "\<not> (\<exists>g\<in>set xs. G g)"
        unfolding Cons.IH by blast
      with *[rule_format, of "a # xs" e ys] show "G a" by auto
    qed
    with na show "gated W G (a # tr)" by simp
  qed
qed simp

text \<open>A step that shows \<open>G\<close> whenever it succeeds guards everything after it.\<close>

lemma gated_chk:
  assumes run: "runs (chk m f) tr b" and quiet: "\<And>t a e. runs m t a \<Longrightarrow> e \<in> set t \<Longrightarrow> \<not> W e"
    and shows_G: "\<And>t a. runs m t (Inr a) \<Longrightarrow> \<exists>e\<in>set t. G e"
  shows "gated W G tr"
  using run
proof (cases rule: runs_chkE)
  case (err e)
  with quiet show ?thesis by (intro gated_none) blast
next
  case (ok t1 a t2)
  then have "gated W G t1" using quiet by (intro gated_none) blast
  with shows_G [OF ok(2)] ok(1) show ?thesis by (simp add: gated_append)
qed

lemma gated_chk_rest:
  assumes run: "runs (chk m f) tr b" and quiet: "\<And>t a e. runs m t a \<Longrightarrow> e \<in> set t \<Longrightarrow> \<not> W e"
    and rest: "\<And>t1 a t2. runs m t1 (Inr a) \<Longrightarrow> runs (f a) t2 b \<Longrightarrow> gated W G t2"
  shows "gated W G tr"
  using run
proof (cases rule: runs_chkE)
  case (err e)
  with quiet show ?thesis by (intro gated_none) blast
next
  case (ok t1 a t2)
  then have "gated W G t1" using quiet by (intro gated_none) blast
  with rest [OF ok(2,3)] ok(1) show ?thesis by (simp add: gated_append)
qed

lemma gated_bnd_rest:
  assumes run: "runs (bnd m f) tr b" and quiet: "\<And>t a e. runs m t a \<Longrightarrow> e \<in> set t \<Longrightarrow> \<not> W e"
    and rest: "\<And>t1 a t2. runs m t1 a \<Longrightarrow> runs (f a) t2 b \<Longrightarrow> gated W G t2"
  shows "gated W G tr"
proof -
  obtain t1 a t2 where "tr = t1 @ t2" "runs m t1 a" "runs (f a) t2 b" using run unfolding runs_bnd by blast
  moreover from this have "gated W G t1" using quiet by (intro gated_none) blast
  ultimately show ?thesis using rest by (simp add: gated_append)
qed

lemma gated_quiet: "calls P m \<Longrightarrow> runs m tr a \<Longrightarrow> (\<And>q r. P q \<Longrightarrow> \<not> W (q, r)) \<Longrightarrow> gated W G tr"
  by (rule gated_none) (use calls_runs in fastforce)

text \<open>
  \<open>guarded W G m\<close>: in every run of \<open>m\<close> the exchanges \<open>W\<close> come after one that satisfies \<open>G\<close>.
  It is compositional: a program of guarded parts is guarded.
\<close>

named_theorems guarded_intros

definition guarded :: "('q \<times> 'r \<Rightarrow> bool) \<Rightarrow> ('q \<times> 'r \<Rightarrow> bool) \<Rightarrow> ('q, 'r, 'a) prog \<Rightarrow> bool" where
  "guarded W G m \<longleftrightarrow> (\<forall>tr a. runs m tr a \<longrightarrow> gated W G tr)"

lemma guardedD: "guarded W G m \<Longrightarrow> runs m tr a \<Longrightarrow> gated W G tr"
  unfolding guarded_def by blast

lemma guarded_quiet: "calls P m \<Longrightarrow> (\<And>q r. P q \<Longrightarrow> \<not> W (q, r)) \<Longrightarrow> guarded W G m"
  unfolding guarded_def by (intro allI impI gated_quiet)

lemma guarded_Ret [guarded_intros]: "guarded W G (Ret a)"
  by (simp add: guarded_def)

text \<open>The rest only has to be guarded for the results after which nothing has been seen.\<close>

lemma guarded_bnd_seen:
  assumes "guarded W G m" "\<And>t a. runs m t a \<Longrightarrow> (\<exists>e\<in>set t. G e) \<or> guarded W G (f a)"
  shows "guarded W G (bnd m f)"
  using assms unfolding guarded_def runs_bnd by (fastforce simp: gated_append)

lemma guarded_bnd [guarded_intros]:
  "guarded W G m \<Longrightarrow> (\<And>a. guarded W G (f a)) \<Longrightarrow> guarded W G (bnd m f)"
  using guarded_bnd_seen by blast

lemma guarded_sum [guarded_intros]:
  "(\<And>e. x = Inl e \<Longrightarrow> guarded W G (f e)) \<Longrightarrow> (\<And>a. x = Inr a \<Longrightarrow> guarded W G (g a)) \<Longrightarrow>
     guarded W G (case x of Inl e \<Rightarrow> f e | Inr a \<Rightarrow> g a)"
  by (cases x) auto

lemma guarded_option [guarded_intros]:
  "(x = None \<Longrightarrow> guarded W G f) \<Longrightarrow> (\<And>a. x = Some a \<Longrightarrow> guarded W G (g a)) \<Longrightarrow>
     guarded W G (case x of None \<Rightarrow> f | Some a \<Rightarrow> g a)"
  by (cases x) auto

lemma guarded_if [guarded_intros]:
  "(b \<Longrightarrow> guarded W G m) \<Longrightarrow> (\<not> b \<Longrightarrow> guarded W G n) \<Longrightarrow> guarded W G (if b then m else n)"
  by simp

lemma guarded_prod [guarded_intros]:
  "(\<And>a b. x = (a, b) \<Longrightarrow> guarded W G (f a b)) \<Longrightarrow> guarded W G (case x of (a, b) \<Rightarrow> f a b)"
  by (cases x) auto

lemma guarded_chk [guarded_intros]:
  "guarded W G m \<Longrightarrow> (\<And>a. guarded W G (f a)) \<Longrightarrow> guarded W G (chk m f)"
  unfolding chk_def by (intro guarded_intros)

lemma guarded_chk_seen:
  assumes "guarded W G m" "\<And>t a. runs m t (Inr a) \<Longrightarrow> (\<exists>e\<in>set t. G e) \<or> guarded W G (f a)"
  shows "guarded W G (chk m f)"
  unfolding chk_def
proof (rule guarded_bnd_seen [OF assms(1)])
  fix t x
  assume "runs m t x"
  then show "(\<exists>e\<in>set t. G e) \<or> guarded W G (case x of Inl e \<Rightarrow> Ret (Inl e) | Inr a \<Rightarrow> f a)"
    using assms(2) by (cases x) (auto intro: guarded_Ret)
qed

lemma guarded_chks [guarded_intros]: "(\<And>m. m \<in> set ms \<Longrightarrow> guarded W G m) \<Longrightarrow> guarded W G (chks ms)"
  by (induction ms) (auto intro!: guarded_chk guarded_Ret)

lemma guarded_forE [guarded_intros]: "(\<And>x. x \<in> set xs \<Longrightarrow> guarded W G (f x)) \<Longrightarrow> guarded W G (forE xs f)"
  unfolding forE_def by (rule guarded_chks) auto

lemma guarded_whenE [guarded_intros]: "(b \<Longrightarrow> guarded W G m) \<Longrightarrow> guarded W G (whenE b m)"
  by (simp add: whenE_def guarded_Ret)

end
