(* ===== verification/GoLib.thy ===== *)
theory GoLib
  imports Prelude "HOL-Library.Word" "HOL-Library.Char_ord" "HOL-Library.List_Lexorder"
begin

unbundle bit_operations_syntax

section \<open>The parts of Go and its standard library that the operator uses\<close>

text \<open>
  A Go string is a sequence of bytes, which is what a HOL \<open>string\<close> (a list of 8-bit
  characters) is. This theory holds the string functions of \<^verbatim>\<open>strings\<close>, \<^verbatim>\<open>strconv\<close>,
  \<^verbatim>\<open>unicode/utf8\<close>, \<^verbatim>\<open>encoding/hex\<close>, \<^verbatim>\<open>encoding/json\<close> (string encoding), the hashes
  \<^verbatim>\<open>crypto/sha256\<close> and \<^verbatim>\<open>hash/fnv\<close>, two's complement wrap-around, and \<^verbatim>\<open>time\<close>, as far
  as the sources use them, with the facts about them the components share.
\<close>

subsection \<open>Strings\<close>

definition hasPrefix :: "string \<Rightarrow> string \<Rightarrow> bool" where
  "hasPrefix s p \<longleftrightarrow> take (length p) s = p"

definition hasSuffix :: "string \<Rightarrow> string \<Rightarrow> bool" where
  "hasSuffix s p \<longleftrightarrow> length p \<le> length s \<and> drop (length s - length p) s = p"

fun contains :: "string \<Rightarrow> string \<Rightarrow> bool" where
  "contains [] p = (p = [])"
| "contains (c # s) p = (hasPrefix (c # s) p \<or> contains s p)"

definition trimPrefix :: "string \<Rightarrow> string \<Rightarrow> string" where
  "trimPrefix s p = (if hasPrefix s p then drop (length p) s else s)"

definition trimLeftSet :: "string \<Rightarrow> string \<Rightarrow> string" where
  "trimLeftSet s cs = dropWhile (\<lambda>c. c \<in> set cs) s"

definition trimRightSet :: "string \<Rightarrow> string \<Rightarrow> string" where
  "trimRightSet s cs = rev (dropWhile (\<lambda>c. c \<in> set cs) (rev s))"

definition trimSet :: "string \<Rightarrow> string \<Rightarrow> string" where
  "trimSet s cs = trimRightSet (trimLeftSet s cs) cs"

fun joinWith :: "string \<Rightarrow> string list \<Rightarrow> string" where
  "joinWith sep [] = []"
| "joinWith sep [x] = x"
| "joinWith sep (x # xs) = x @ sep @ joinWith sep xs"

fun splitOn :: "char \<Rightarrow> string \<Rightarrow> string list" where
  "splitOn c [] = [[]]"
| "splitOn c (x # xs) =
     (if x = c then [] # splitOn c xs
      else (case splitOn c xs of [] \<Rightarrow> [[x]] | y # ys \<Rightarrow> (x # y) # ys))"

definition afterLast :: "char \<Rightarrow> string \<Rightarrow> string" where
  "afterLast c s = rev (takeWhile (\<lambda>x. x \<noteq> c) (rev s))"

definition toLower :: "char \<Rightarrow> char" where
  "toLower c = (let n = of_char c :: nat in if 65 \<le> n \<and> n \<le> 90 then char_of (n + 32) else c)"

definition nl :: string where "nl = [CHR 0x0A]"

definition dq :: char where "dq = CHR 0x22"

lemma hasPrefix_append [simp]: "hasPrefix (p @ s) p"
  by (simp add: hasPrefix_def)

lemma hasPrefix_iff: "hasPrefix s p \<longleftrightarrow> (\<exists>t. s = p @ t)"
  by (metis append_take_drop_id hasPrefix_append hasPrefix_def)

lemma hasSuffix_iff: "hasSuffix s p \<longleftrightarrow> (\<exists>t. s = t @ p)"
proof
  assume "hasSuffix s p"
  then have "s = take (length s - length p) s @ p"
    unfolding hasSuffix_def by (metis append_take_drop_id)
  then show "\<exists>t. s = t @ p" ..
qed (auto simp: hasSuffix_def)

lemma contains_iff: "contains s p \<longleftrightarrow> (\<exists>u v. s = u @ p @ v)"
proof (induction s)
  case Nil
  then show ?case by auto
next
  case (Cons c s)
  show ?case
  proof
    assume "contains (c # s) p"
    then consider "hasPrefix (c # s) p" | "contains s p" by auto
    then show "\<exists>u v. c # s = u @ p @ v"
    proof cases
      case 1
      then show ?thesis unfolding hasPrefix_iff by (metis append_Nil)
    next
      case 2
      with Cons show ?thesis by (metis append_Cons)
    qed
  next
    assume "\<exists>u v. c # s = u @ p @ v"
    then obtain u v where uv: "c # s = u @ p @ v" by blast
    show "contains (c # s) p"
    proof (cases u)
      case Nil
      with uv have "hasPrefix (c # s) p" by (simp add: hasPrefix_iff)
      then show ?thesis by simp
    next
      case (Cons d u')
      with uv Cons.IH show ?thesis by auto
    qed
  qed
qed

lemma contains_char: "contains s [c] \<longleftrightarrow> c \<in> set s"
  by (auto simp: contains_iff in_set_conv_decomp)

lemma splitOn_not_Nil [simp]: "splitOn c s \<noteq> []"
  by (induction s) (auto split: list.splits)

lemma splitOn_joinWith: "joinWith [c] (splitOn c s) = s"
proof (induction s)
  case (Cons x s)
  obtain y ys where ys: "splitOn c s = y # ys" by (cases "splitOn c s") auto
  with Cons.IH show ?case by (cases ys) auto
qed simp

lemma splitOn_no_sep: "p \<in> set (splitOn c s) \<Longrightarrow> c \<notin> set p"
  by (induction s arbitrary: p) (auto split: if_splits list.splits)

subsection \<open>Numbers and booleans as text; two's complement\<close>

fun digits10 :: "nat \<Rightarrow> string" where
  "digits10 n = (if n < 10 then [char_of (48 + n)] else digits10 (n div 10) @ [char_of (48 + n mod 10)])"

declare digits10.simps [simp del]

definition itoa :: "int \<Rightarrow> string" where
  "itoa i = (if i < 0 then CHR ''-'' # digits10 (nat (- i)) else digits10 (nat i))"

definition formatBool :: "bool \<Rightarrow> string" where
  "formatBool b = (if b then ''true'' else ''false'')"

definition wrap32 :: "int \<Rightarrow> int" where
  "wrap32 i = signed_take_bit 31 i"

definition wrap64 :: "int \<Rightarrow> int" where
  "wrap64 i = signed_take_bit 63 i"

definition max_int64 :: int where "max_int64 = 9223372036854775807"
definition min_int64 :: int where "min_int64 = - 9223372036854775808"

text \<open>Go's integer division truncates towards zero.\<close>

definition quot :: "int \<Rightarrow> int \<Rightarrow> int" where
  "quot a b = sgn a * sgn b * (\<bar>a\<bar> div \<bar>b\<bar>)"

lemma quot_nonneg: "0 \<le> a \<Longrightarrow> 0 < b \<Longrightarrow> quot a b = a div b"
  by (cases "a = 0") (auto simp: quot_def)

lemma wrap64_id: "min_int64 \<le> i \<Longrightarrow> i \<le> max_int64 \<Longrightarrow> wrap64 i = i"
  unfolding wrap64_def min_int64_def max_int64_def
  by (subst signed_take_bit_int_eq_self_iff) simp

lemma wrap32_id: "- 2147483648 \<le> i \<Longrightarrow> i \<le> 2147483647 \<Longrightarrow> wrap32 i = i"
  unfolding wrap32_def by (subst signed_take_bit_int_eq_self_iff) simp

lemma digits10_digit: "c \<in> set (digits10 n) \<Longrightarrow> 48 \<le> (of_char c :: nat) \<and> (of_char c :: nat) \<le> 57"
proof (induction n rule: digits10.induct)
  case (1 n)
  show ?case
  proof (cases "n < 10")
    case True
    with 1 have "c = char_of (48 + n)" by (subst (asm) digits10.simps) simp
    with True show ?thesis by (simp add: of_char_of)
  next
    case False
    with 1 have "c \<in> set (digits10 (n div 10)) \<or> c = char_of (48 + n mod 10)"
      by (subst (asm) digits10.simps) auto
    moreover have "(48 + n mod 10) mod 256 = 48 + n mod 10" by (rule mod_less) simp
    ultimately show ?thesis using 1 False by (auto simp: of_char_of)
  qed
qed

text \<open>Decimal text determines the number.\<close>

definition digitsValue :: "string \<Rightarrow> nat" where
  "digitsValue s = foldl (\<lambda>a c. 10 * a + (of_char c - 48)) 0 s"

lemma digitsValue_digits10: "digitsValue (digits10 n) = n"
proof (induction n rule: digits10.induct)
  case (1 n)
  show ?case
  proof (cases "n < 10")
    case True
    then show ?thesis by (subst digits10.simps) (simp add: digitsValue_def of_char_of)
  next
    case False
    moreover have "(48 + n mod 10) mod 256 = 48 + n mod 10" by (rule mod_less) simp
    ultimately show ?thesis using 1
      by (subst digits10.simps) (simp add: digitsValue_def of_char_of)
  qed
qed

lemma itoa_nat_inj: "itoa (int i) = itoa (int j) \<longleftrightarrow> i = j"
  by (simp add: itoa_def) (metis digitsValue_digits10)

subsection \<open>Time\<close>

text \<open>
  A \<^verbatim>\<open>time.Time\<close> is the number of nanoseconds since Go's zero time, so the zero value is
  \<open>0\<close>; a \<^verbatim>\<open>time.Duration\<close> is a 64-bit count of nanoseconds and \<^verbatim>\<open>Time.Sub\<close> saturates.
\<close>

type_synonym gotime = int
type_synonym duration = int

definition timeSub :: "gotime \<Rightarrow> gotime \<Rightarrow> duration" where
  "timeSub t u = max min_int64 (min max_int64 (t - u))"

definition second :: duration where "second = 1000000000"
definition minute :: duration where "minute = 60 * second"
definition hour :: duration where "hour = 60 * minute"

lemmas time_units = second_def minute_def hour_def

lemma timeSub_mono: "t \<le> t' \<Longrightarrow> timeSub t u \<le> timeSub t' u"
  by (auto simp: timeSub_def)

lemma timeSub_bounds: "min_int64 \<le> timeSub t u \<and> timeSub t u \<le> max_int64"
  by (auto simp: timeSub_def min_int64_def max_int64_def)

subsection \<open>UTF-8\<close>

definition byte :: "char \<Rightarrow> nat" where "byte c = of_char c"

definition runeStart :: "char \<Rightarrow> bool" where
  "runeStart c \<longleftrightarrow> byte c div 64 \<noteq> 2"

definition inRange :: "nat \<Rightarrow> nat \<Rightarrow> char \<Rightarrow> bool" where
  "inRange lo hi c \<longleftrightarrow> lo \<le> byte c \<and> byte c \<le> hi"

text \<open>
  The width of the first rune of a string, by the acceptance table of \<^verbatim>\<open>utf8.DecodeRune\<close>:
  1 for an ASCII byte and for a byte that starts no well-formed sequence.
\<close>

definition runeLen :: "string \<Rightarrow> nat" where
  "runeLen s = (case s of
     [] \<Rightarrow> 0
   | a # rest \<Rightarrow>
       if inRange 0xC2 0xDF a then
         (case rest of b # _ \<Rightarrow> if inRange 0x80 0xBF b then 2 else 1 | _ \<Rightarrow> 1)
       else if inRange 0xE0 0xEF a then
         (case rest of b # c # _ \<Rightarrow>
            if inRange (if byte a = 0xE0 then 0xA0 else 0x80) (if byte a = 0xED then 0x9F else 0xBF) b
               \<and> inRange 0x80 0xBF c then 3 else 1
          | _ \<Rightarrow> 1)
       else if inRange 0xF0 0xF4 a then
         (case rest of b # c # d # _ \<Rightarrow>
            if inRange (if byte a = 0xF0 then 0x90 else 0x80) (if byte a = 0xF4 then 0x8F else 0xBF) b
               \<and> inRange 0x80 0xBF c \<and> inRange 0x80 0xBF d then 4 else 1
          | _ \<Rightarrow> 1)
       else 1)"

lemma runeLen_pos: "s \<noteq> [] \<Longrightarrow> 0 < runeLen s"
  by (auto simp: runeLen_def split: list.splits)

text \<open>The pieces a \<^verbatim>\<open>for range\<close> over a string visits: one rune or one invalid byte each.\<close>

function runes :: "string \<Rightarrow> string list" where
  "runes s = (if s = [] then [] else take (runeLen s) s # runes (drop (runeLen s) s))"
  by pat_completeness auto
termination
  by (relation "measure length") (auto simp: runeLen_pos)

declare runes.simps [simp del]

lemma runes_Nil [simp]: "runes [] = []"
  by (simp add: runes.simps)

lemma concat_runes: "concat (runes s) = s"
proof (induction s rule: runes.induct)
  case (1 s)
  then show ?case by (cases "s = []") (simp_all add: runes.simps [of s])
qed

lemma runes_nonempty: "u \<in> set (runes s) \<Longrightarrow> u \<noteq> []"
proof (induction s rule: runes.induct)
  case (1 s)
  then show ?case using runeLen_pos [of s] by (auto simp: runes.simps [of s] split: if_splits)
qed

subsection \<open>Hexadecimal text and hashes\<close>

definition hexDigit :: "nat \<Rightarrow> char" where
  "hexDigit n = (if n < 10 then char_of (48 + n) else char_of (87 + n))"

definition hexByte :: "char \<Rightarrow> string" where
  "hexByte c = [hexDigit (byte c div 16), hexDigit (byte c mod 16)]"

definition hexEncode :: "string \<Rightarrow> string" where
  "hexEncode s = concat (map hexByte s)"

lemma length_hexEncode [simp]: "length (hexEncode s) = 2 * length s"
  by (induction s) (auto simp: hexEncode_def hexByte_def)

type_synonym u32 = "32 word"

definition fnvStep :: "u32 \<Rightarrow> char \<Rightarrow> u32" where
  "fnvStep h c = (h XOR word_of_int (of_char c)) * 16777619"

definition fnv32a :: "string \<Rightarrow> u32" where
  "fnv32a s = foldl fnvStep 2166136261 s"

subsubsection \<open>SHA-256\<close>

text \<open>The round constants and the initial state of SHA-256, in decimal.\<close>

definition shaK :: "u32 list" where
  "shaK = [
   1116352408, 1899447441, 3049323471, 3921009573, 961987163, 1508970993, 2453635748, 2870763221,
   3624381080, 310598401, 607225278, 1426881987, 1925078388, 2162078206, 2614888103, 3248222580,
   3835390401, 4022224774, 264347078, 604807628, 770255983, 1249150122, 1555081692, 1996064986,
   2554220882, 2821834349, 2952996808, 3210313671, 3336571891, 3584528711, 113926993, 338241895,
   666307205, 773529912, 1294757372, 1396182291, 1695183700, 1986661051, 2177026350, 2456956037,
   2730485921, 2820302411, 3259730800, 3345764771, 3516065817, 3600352804, 4094571909, 275423344,
   430227734, 506948616, 659060556, 883997877, 958139571, 1322822218, 1537002063, 1747873779,
   1955562222, 2024104815, 2227730452, 2361852424, 2428436474, 2756734187, 3204031479, 3329325298]"

definition shaInit :: "u32 list" where
  "shaInit = [1779033703, 3144134277, 1013904242, 2773480762, 1359893119, 2600822924, 528734635, 1541459225]"

definition shaPad :: "string \<Rightarrow> string" where
  "shaPad s = s @ [char_of (128::nat)] @ replicate ((119 - length s mod 64) mod 64) (char_of (0::nat)) @
     map (\<lambda>i. char_of (int (8 * length s) div 256 ^ (7 - i))) [0..<8]"

fun shaWords :: "string \<Rightarrow> u32 list" where
  "shaWords (a # b # c # d # s) =
     word_of_int (((of_char a * 256 + of_char b) * 256 + of_char c) * 256 + of_char d) # shaWords s"
| "shaWords _ = []"

definition shaS0 :: "u32 \<Rightarrow> u32" where "shaS0 x = word_rotr 7 x XOR word_rotr 18 x XOR drop_bit 3 x"
definition shaS1 :: "u32 \<Rightarrow> u32" where "shaS1 x = word_rotr 17 x XOR word_rotr 19 x XOR drop_bit 10 x"

text \<open>The message schedule, newest word first.\<close>

fun shaExpand :: "nat \<Rightarrow> u32 list \<Rightarrow> u32 list" where
  "shaExpand 0 w = w"
| "shaExpand (Suc n) w = shaExpand n ((shaS1 (w ! 1) + w ! 6 + shaS0 (w ! 14) + w ! 15) # w)"

fun shaRound :: "u32 list \<Rightarrow> u32 \<times> u32 \<Rightarrow> u32 list" where
  "shaRound [a, b, c, d, e, f, g, h] (k, w) =
     (let t1 = h + (word_rotr 6 e XOR word_rotr 11 e XOR word_rotr 25 e) +
               ((e AND f) XOR (NOT e AND g)) + k + w;
          t2 = (word_rotr 2 a XOR word_rotr 13 a XOR word_rotr 22 a) +
               ((a AND b) XOR (a AND c) XOR (b AND c))
      in [t1 + t2, a, b, c, d + t1, e, f, g])"
| "shaRound xs _ = xs"

definition shaBlock :: "u32 list \<Rightarrow> u32 list \<Rightarrow> u32 list" where
  "shaBlock h w = map2 (+) h (foldl shaRound h (zip shaK (rev (shaExpand 48 (rev w)))))"

function shaBlocks :: "u32 list \<Rightarrow> u32 list \<Rightarrow> u32 list" where
  "shaBlocks h w = (if w = [] then h else shaBlocks (shaBlock h (take 16 w)) (drop 16 w))"
  by pat_completeness auto
termination
  by (relation "measure (\<lambda>(h, w). length w)") auto

declare shaBlocks.simps [simp del]

definition u32Bytes :: "u32 \<Rightarrow> string" where
  "u32Bytes w = map (\<lambda>i. char_of (uint w div 256 ^ (3 - i))) [0..<4]"

definition sha256 :: "string \<Rightarrow> string" where
  "sha256 s = concat (map u32Bytes (shaBlocks shaInit (shaWords (shaPad s))))"

text \<open>The digest has 32 bytes, whatever the message.\<close>

lemma length_shaRound: "length h = 8 \<Longrightarrow> length (shaRound h kw) = 8"
  by (cases "(h, kw)" rule: shaRound.cases) (auto simp: Let_def)

lemma length_foldl_shaRound: "length h = 8 \<Longrightarrow> length (foldl shaRound h kws) = 8"
  by (induction kws arbitrary: h) (auto simp: length_shaRound)

lemma length_shaBlocks: "length h = 8 \<Longrightarrow> length (shaBlocks h w) = 8"
proof (induction h w rule: shaBlocks.induct)
  case (1 h w)
  then show ?case
    by (subst shaBlocks.simps) (simp add: shaBlock_def length_foldl_shaRound)
qed

lemma length_sha256 [simp]: "length (sha256 s) = 32"
proof -
  have "length (shaBlocks shaInit w) = 8" for w
    by (rule length_shaBlocks) (simp add: shaInit_def)
  moreover have "length (concat (map u32Bytes ws)) = 4 * length ws" for ws
    by (induction ws) (simp_all add: u32Bytes_def)
  ultimately show ?thesis by (simp add: sha256_def)
qed

subsection \<open>JSON string encoding\<close>

text \<open>
  \<^verbatim>\<open>json.Marshal\<close> of a string: quotes, backslashes and control characters are escaped, so
  are \<^verbatim>\<open><\<close>, \<^verbatim>\<open>>\<close>, \<^verbatim>\<open>&\<close>, U+2028 and U+2029, and every invalid byte becomes U+FFFD.
\<close>

definition jsonAscii :: "char \<Rightarrow> string" where
  "jsonAscii c = (let n = byte c in
     if n = 0x22 \<or> n = 0x5C then [CHR 0x5C, c]
     else if n = 0x08 then [CHR 0x5C, CHR ''b'']
     else if n = 0x0C then [CHR 0x5C, CHR ''f'']
     else if n = 0x0A then [CHR 0x5C, CHR ''n'']
     else if n = 0x0D then [CHR 0x5C, CHR ''r'']
     else if n = 0x09 then [CHR 0x5C, CHR ''t'']
     else if n < 0x20 \<or> n = 0x3C \<or> n = 0x3E \<or> n = 0x26
       then [CHR 0x5C, CHR ''u'', CHR ''0'', CHR ''0''] @ hexByte c
     else [c])"

definition jsonRune :: "string \<Rightarrow> string" where
  "jsonRune u = (case u of
     [] \<Rightarrow> []
   | [c] \<Rightarrow> if byte c < 0x80 then jsonAscii c else CHR 0x5C # ''ufffd''
   | _ \<Rightarrow> if u = [CHR 0xE2, CHR 0x80, CHR 0xA8] then CHR 0x5C # ''u2028''
         else if u = [CHR 0xE2, CHR 0x80, CHR 0xA9] then CHR 0x5C # ''u2029''
         else u)"

definition jsonString :: "string \<Rightarrow> string" where
  "jsonString s = [dq] @ concat (map jsonRune (runes s)) @ [dq]"

end
