(* ===== verification/ApiTypes.thy ===== *)
theory ApiTypes
  imports GoLib
begin

section \<open>The custom resources: Misskey and MisskeyChannel (api/v1beta1)\<close>

text \<open>
  One record per struct of \<^verbatim>\<open>api/v1beta1/misskey_types.go\<close> and
  \<^verbatim>\<open>api/v1beta1/misskeychannel_types.go\<close>, with the struct's fields in order; every field
  name carries its record's prefix, since HOL record fields share one name space.
  A Go pointer is an \<open>option\<close>, a Go map read from the API an association list, a signed
  integer an \<open>int\<close> (its width matters only in arithmetic, where it is written out), a
  \<^verbatim>\<open>metav1.Time\<close> a \<open>gotime\<close> with \<open>0\<close> as the zero time.
\<close>

subsection \<open>Kubernetes value types the structs embed\<close>

type_synonym int32 = int
type_synonym int64 = int
type_synonym strmap = "(string \<times> string) list"

text \<open>A \<^verbatim>\<open>resource.Quantity\<close> is a number; comparison and zero test are numeric.\<close>

type_synonym quantity = int
type_synonym resourceList = "(string \<times> quantity) list"

record resourceRequirements =
  rr_requests :: resourceList
  rr_limits :: resourceList
  rr_claims :: "string list"

record secretKeySelector =
  sel_name :: string
  sel_key :: string
  sel_optional :: "bool option"

record toleration =
  tol_key :: string
  tol_operator :: string
  tol_value :: string
  tol_effect :: string
  tol_seconds :: "int64 option"

record ownerReference =
  or_kind :: string
  or_name :: string
  or_uid :: string
  or_controller :: "bool option"

record objectMeta =
  om_name :: string
  om_namespace :: string
  om_uid :: string
  om_resourceVersion :: string
  om_generation :: int64
  om_creationTimestamp :: gotime
  om_deletionTimestamp :: "gotime option"
  om_labels :: strmap
  om_annotations :: strmap
  om_finalizers :: "string list"
  om_ownerReferences :: "ownerReference list"

record condition =
  cond_type :: string
  cond_status :: string
  cond_reason :: string
  cond_message :: string
  cond_observedGeneration :: int64
  cond_lastTransitionTime :: gotime

subsection \<open>Parts of the Misskey spec\<close>

record performanceSpec =
  pf_deliverJobConcurrency :: "int32 option"
  pf_inboxJobConcurrency :: "int32 option"
  pf_deliverJobPerSec :: "int32 option"
  pf_inboxJobPerSec :: "int32 option"
  pf_relationshipJobPerSec :: "int32 option"
  pf_deliverJobMaxAttempts :: "int32 option"
  pf_inboxJobMaxAttempts :: "int32 option"

record outboundProxySpec =
  ob_http :: string
  ob_smtp :: string
  ob_bypassHosts :: "string list"

record filesSpec =
  fi_maxFileSize :: "int64 option"
  fi_mediaProxy :: string
  fi_proxyRemoteFiles :: "bool option"

record monitoringRules =
  mr_enabled :: "bool option"
  mr_backupMaxAge :: duration

record monitoringSpec =
  mo_enabled :: "bool option"
  mo_labels :: strmap
  mo_interval :: string
  mo_redisExporterImage :: string
  mo_rules :: "monitoringRules option"

record migrationSpec =
  mg_createIndexConcurrently :: "bool option"
  mg_preBackup :: "bool option"

record networkIsolationSpec =
  ni_enabled :: "bool option"
  ni_allowedNamespaces :: "string list"

record egressIsolationSpec =
  eg_enabled :: "bool option"
  eg_dnsNamespace :: string
  eg_allowedNamespaces :: "string list"

record networkSpec =
  nw_isolation :: networkIsolationSpec
  nw_egressIsolation :: egressIsolationSpec

record limitRangeSpec =
  lr_default :: resourceList
  lr_defaultRequest :: resourceList
  lr_max :: resourceList

record tenancySpec =
  tn_dedicated :: bool
  tn_quota :: resourceList
  tn_limitRange :: "limitRangeSpec option"

record runtimeSpec =
  rt_runAsUser :: "int64 option"
  rt_startCommand :: "string list"
  rt_migrateCommand :: "string list"
  rt_healthPath :: string
  rt_configPath :: string
  rt_builtPath :: "string option"

record setupPasswordSpec =
  sp_secretRef :: "secretKeySelector option"

record externalSensitiveDetector =
  xd_url :: string
  xd_apiKeySecret :: secretKeySelector

record sensitiveDetectorSpec =
  sd_mode :: string
  sd_sensitivity :: string
  sd_enableForVideos :: bool
  sd_setSensitiveFlagAutomatically :: bool
  sd_timeoutMilliseconds :: int32
  sd_maxImagesPerRequest :: int32
  sd_external :: "externalSensitiveDetector option"
  sd_image :: string
  sd_replicas :: "int32 option"
  sd_resources :: resourceRequirements
  sd_nodeSelector :: strmap
  sd_tolerations :: "toleration list"
  sd_apiKeySecret :: "secretKeySelector option"
  sd_configJobImage :: string

record componentSpec =
  co_replicas :: "int32 option"
  co_resources :: resourceRequirements
  co_nodeSelector :: strmap
  co_tolerations :: "toleration list"

record autoscalingSpec =
  as_minReplicas :: "int32 option"
  as_maxReplicas :: int32
  as_targetCPUUtilizationPercentage :: "int32 option"
  as_targetMemoryUtilizationPercentage :: "int32 option"

record rpsTrigger =
  rps_serverAddress :: string
  rps_targetRPS :: int32
  rps_query :: string

record queueScaleTrigger =
  qs_name :: string
  qs_listLength :: int32
  qs_listName :: string

record appAutoscalingSpec =
  aa_autoscaling :: autoscalingSpec
  aa_rps :: "rpsTrigger option"

record workerAutoscalingSpec =
  wa_autoscaling :: autoscalingSpec
  wa_queues :: "queueScaleTrigger list"

record appSpec =
  ap_component :: componentSpec
  ap_autoscaling :: "appAutoscalingSpec option"

record workerSpec =
  wk_component :: componentSpec
  wk_autoscaling :: "workerAutoscalingSpec option"

record maintenanceSpec =
  ma_enabled :: "bool option"
  ma_html :: string
  ma_statusCode :: "int32 option"
  ma_reloadSeconds :: "int32 option"

record proxySpec =
  px_enabled :: "bool option"
  px_replicas :: "int32 option"
  px_image :: string
  px_maintenance :: maintenanceSpec
  px_clientIPHeader :: string
  px_resources :: resourceRequirements

record ingressIssuerRef =
  ir_name :: string
  ir_kind :: string

record ingressSpec =
  ig_enabled :: "bool option"
  ig_className :: string
  ig_host :: string
  ig_annotations :: strmap
  ig_tlsSecretName :: string
  ig_issuerRef :: "ingressIssuerRef option"

record redisHA =
  ha_replicas :: int32
  ha_sentinels :: int32
  ha_image :: string
  ha_sentinelImage :: string

record redisHostPort =
  hp_host :: string
  hp_port :: int32

record externalRedis =
  xr_host :: string
  xr_port :: int32
  xr_db :: int32
  xr_passwordSecret :: "secretKeySelector option"
  xr_sentinels :: "redisHostPort list"
  xr_masterName :: string
  xr_tls :: "bool option"

record redisRole =
  ro_external :: "externalRedis option"
  ro_maxMemory :: string
  ro_maxMemoryPolicy :: string
  ro_storage :: quantity
  ro_storageClassName :: "string option"
  ro_resources :: resourceRequirements
  ro_ha :: "redisHA option"

record redisRoles =
  rl_jobQueue :: "redisRole option"
  rl_pubsub :: "redisRole option"
  rl_timelines :: "redisRole option"
  rl_reactions :: "redisRole option"

record redisSpec =
  rd_external :: "externalRedis option"
  rd_image :: string
  rd_maxMemory :: string
  rd_maxMemoryPolicy :: string
  rd_appendOnly :: "bool option"
  rd_storage :: quantity
  rd_storageClassName :: "string option"
  rd_resources :: resourceRequirements
  rd_ha :: "redisHA option"
  rd_roles :: "redisRoles option"

text \<open>\<^verbatim>\<open>SearchProvider\<close> is a string type with three named values.\<close>

type_synonym searchProvider = string

definition SearchMeilisearch :: searchProvider where "SearchMeilisearch = ''meilisearch''"
definition SearchSQLLike :: searchProvider where "SearchSQLLike = ''sqlLike''"
definition SearchSQLPgroonga :: searchProvider where "SearchSQLPgroonga = ''sqlPgroonga''"

record externalMeilisearch =
  xm_host :: string
  xm_port :: int32
  xm_ssl :: bool
  xm_apiKeySecret :: secretKeySelector

record meilisearchSpec =
  ms_external :: "externalMeilisearch option"
  ms_image :: string
  ms_storage :: quantity
  ms_storageClassName :: "string option"
  ms_index :: string
  ms_scope :: string
  ms_masterKeySecret :: "secretKeySelector option"
  ms_resources :: resourceRequirements

record searchSpec =
  se_provider :: searchProvider
  se_meilisearch :: meilisearchSpec

record externalPostgres =
  xp_host :: string
  xp_port :: int32
  xp_database :: string
  xp_user :: string
  xp_passwordSecret :: secretKeySelector

record s3Credentials =
  s3_accessKeyId :: secretKeySelector
  s3_secretAccessKey :: secretKeySelector

record backupVerify =
  bv_interval :: duration
  bv_timeout :: duration

record postgresBackup =
  bk_destinationPath :: string
  bk_endpointURL :: string
  bk_s3Credentials :: "s3Credentials option"
  bk_retentionPolicy :: string
  bk_schedule :: string
  bk_serverName :: string
  bk_verify :: "backupVerify option"

record recoverySource =
  rs_destinationPath :: string
  rs_endpointURL :: string
  rs_serverName :: string
  rs_s3Credentials :: "s3Credentials option"

record postgresRecovery =
  rc_source :: recoverySource
  rc_targetTime :: string

record importSource =
  is_host :: string
  is_port :: int32
  is_database :: string
  is_user :: string
  is_passwordSecret :: secretKeySelector
  is_sslMode :: string

record postgresImport =
  im_source :: importSource

record postgresPooler =
  pl_instances :: int32
  pl_poolMode :: string
  pl_parameters :: strmap
  pl_resources :: resourceRequirements

record postgresSpec =
  pg_external :: "externalPostgres option"
  pg_instances :: int32
  pg_image :: string
  pg_database :: string
  pg_owner :: string
  pg_storage :: quantity
  pg_storageClassName :: "string option"
  pg_parameters :: strmap
  pg_resources :: resourceRequirements
  pg_backup :: "postgresBackup option"
  pg_recovery :: "postgresRecovery option"
  pg_import :: "postgresImport option"
  pg_readOffload :: "bool option"
  pg_pooler :: "postgresPooler option"

record objectStorageColumnsSpec =
  oc_useObjectStorage :: string
  oc_baseUrl :: string
  oc_bucket :: string
  oc_prefix :: string
  oc_endpoint :: string
  oc_region :: string
  oc_port :: string
  oc_accessKey :: string
  oc_secretKey :: string
  oc_useSSL :: string
  oc_useProxy :: string
  oc_setPublicRead :: string
  oc_s3ForcePathStyle :: string

record objectStorageSpec =
  os_bucket :: string
  os_endpoint :: string
  os_region :: string
  os_prefix :: string
  os_baseUrl :: string
  os_port :: "int32 option"
  os_useSSL :: "bool option"
  os_useProxy :: "bool option"
  os_setPublicRead :: "bool option"
  os_s3ForcePathStyle :: "bool option"
  os_credentials :: s3Credentials
  os_autoConfigure :: "bool option"
  os_columnNames :: "objectStorageColumnsSpec option"
  os_extraColumns :: strmap
  os_image :: string

record imageFromSource =
  if_channel :: string

subsection \<open>Misskey\<close>

record misskeySpec =
  url :: string
  image :: string
  imageFrom :: "imageFromSource option"
  trackImageDigest :: bool
  idGenerationMethod :: string
  deletionPolicy :: string
  suspend :: bool
  tenant :: string
  imagePullSecrets :: "string list"
  runtimeS :: runtimeSpec
  app :: appSpec
  worker :: workerSpec
  proxy :: proxySpec
  ingress :: ingressSpec
  redis :: redisSpec
  search :: searchSpec
  postgres :: postgresSpec
  migration :: migrationSpec
  setupPassword :: "setupPasswordSpec option"
  extraConfig :: string
  objectStorage :: "objectStorageSpec option"
  sensitiveDetector :: "sensitiveDetectorSpec option"
  network :: networkSpec
  tenancy :: tenancySpec
  monitoring :: monitoringSpec
  performance :: performanceSpec
  outboundProxy :: outboundProxySpec
  files :: filesSpec

record backupStatus =
  bs_lastSuccessfulBackup :: gotime
  bs_firstRecoverabilityPoint :: gotime

record backupVerificationStatus =
  vs_lastVerifiedTime :: gotime
  vs_result :: string
  vs_message :: string

record misskeyStatus =
  st_conditions :: "condition list"
  st_phase :: string
  st_observedGeneration :: int64
  st_databaseHost :: string
  st_redisHost :: string
  st_searchIndex :: string
  st_backupVerification :: "backupVerificationStatus option"
  st_backup :: "backupStatus option"
  st_image :: string

record misskey =
  mk_meta :: objectMeta
  spec :: misskeySpec
  status :: misskeyStatus

abbreviation mname :: "misskey \<Rightarrow> string" where
  "mname m \<equiv> om_name (mk_meta m)"

abbreviation mnamespace :: "misskey \<Rightarrow> string" where
  "mnamespace m \<equiv> om_namespace (mk_meta m)"

subsection \<open>MisskeyChannel\<close>

record channelRollout =
  cr_batchPercent :: int32
  cr_interval :: duration

record misskeyChannelSpec =
  ch_image :: string
  ch_rollout :: "channelRollout option"
  ch_trackImageDigest :: bool

record misskeyChannelStatus =
  cs_image :: string
  cs_previousImage :: string
  cs_imageChangedAt :: gotime
  cs_instances :: int32
  cs_updatedInstances :: int32
  cs_observedGeneration :: int64

record misskeyChannel =
  mc_meta :: objectMeta
  ch_spec :: misskeyChannelSpec
  ch_status :: misskeyChannelStatus

end
