(* ===== verification/Kube.thy ===== *)
theory Kube
  imports ApiTypes
begin

section \<open>Kubernetes objects and the requests a handler can make\<close>

text \<open>
  What the handlers exchange with the outside: the objects they read and write (the fields
  the sources set or inspect), the errors they distinguish, the requests to the API server,
  the clock, the random source, the registry, the event recorder and the digest cache, and
  the library functions of client-go and controller-runtime they call. The services and the
  library functions are not part of the repository: the former answer requests (\<open>Prelude\<close>),
  the latter are the fields of a record \<open>libs\<close> that every handler takes as an argument.
  Two of those fields are not functions but the bounds of the library's loops: the steps of
  the conflict backoff and of a poll with a time-out. The last section holds the wrappers of
  the repository itself (\<^verbatim>\<open>apply\<close>, here \<open>applyObj\<close>, \<^verbatim>\<open>applySSA\<close>, \<^verbatim>\<open>deleteIfExists\<close>,
  \<^verbatim>\<open>event\<close>) and the facts their callers use.
\<close>

subsection \<open>String maps\<close>

definition mget :: "strmap \<Rightarrow> string \<Rightarrow> string" where
  "mget m k = (case map_of m k of Some v \<Rightarrow> v | None \<Rightarrow> [])"

fun mset :: "string \<Rightarrow> 'v \<Rightarrow> (string \<times> 'v) list \<Rightarrow> (string \<times> 'v) list" where
  "mset k v [] = [(k, v)]"
| "mset k v ((k', v') # m) = (if k = k' then (k, v) # m else (k', v') # mset k v m)"

definition mmerge :: "(string \<times> 'v) list \<Rightarrow> (string \<times> 'v) list \<Rightarrow> (string \<times> 'v) list" where
  "mmerge m ext = foldl (\<lambda>acc (k, v). mset k v acc) m ext"

definition mkeys :: "(string \<times> 'v) list \<Rightarrow> string list" where
  "mkeys m = sort (remdups (map fst m))"

lemma map_of_mset [simp]: "map_of (mset k v m) = (map_of m)(k \<mapsto> v)"
  by (induction m) auto

lemma mget_mset [simp]: "mget (mset k v m) k' = (if k' = k then v else mget m k')"
  by (simp add: mget_def)

lemma set_mkeys [simp]: "set (mkeys m) = fst ` set m"
  by (simp add: mkeys_def)

lemma distinct_mkeys [simp]: "distinct (mkeys m)"
  by (simp add: mkeys_def)

subsection \<open>Errors\<close>

datatype error =
    ErrNotFound string
  | ErrNoMatch string
  | ErrConflict string
  | ErrOther string
  | ErrMsg string
  | ErrWrap string error

fun isNotFound :: "error \<Rightarrow> bool" where
  "isNotFound (ErrNotFound _) = True"
| "isNotFound (ErrWrap _ e) = isNotFound e"
| "isNotFound _ = False"

fun isNoMatch :: "error \<Rightarrow> bool" where
  "isNoMatch (ErrNoMatch _) = True"
| "isNoMatch (ErrWrap _ e) = isNoMatch e"
| "isNoMatch _ = False"

fun isConflict :: "error \<Rightarrow> bool" where
  "isConflict (ErrConflict _) = True"
| "isConflict (ErrWrap _ e) = isConflict e"
| "isConflict _ = False"

fun errText :: "error \<Rightarrow> string" where
  "errText (ErrNotFound s) = s"
| "errText (ErrNoMatch s) = s"
| "errText (ErrConflict s) = s"
| "errText (ErrOther s) = s"
| "errText (ErrMsg s) = s"
| "errText (ErrWrap s e) = s @ '': '' @ errText e"

definition ignoreNotFound :: "error + unit \<Rightarrow> error + unit" where
  "ignoreNotFound r = (case r of Inl e \<Rightarrow> if isNotFound e then Inr () else Inl e | Inr u \<Rightarrow> Inr u)"

subsection \<open>Pods\<close>

datatype intOrString = FromInt int32 | FromString string

record envVar =
  ev_name :: string
  ev_value :: string
  ev_secret :: "secretKeySelector option"

record containerPort =
  cp_name :: string
  cp_port :: int32

record volumeMount =
  vm_name :: string
  vm_mountPath :: string
  vm_subPath :: string
  vm_readOnly :: bool

datatype volumeSource = ConfigMapVolume string | EmptyDirVolume

record volume =
  vol_name :: string
  vol_source :: volumeSource

datatype probeHandler = ExecProbe "string list" | HTTPGetProbe string intOrString

record probe =
  pr_handler :: probeHandler
  pr_initialDelay :: int32
  pr_period :: int32
  pr_timeout :: int32
  pr_failure :: int32

record securityContext =
  sc_allowPrivilegeEscalation :: "bool option"
  sc_readOnlyRootFilesystem :: "bool option"
  sc_capabilitiesDrop :: "string list"

record podSecurityContext =
  psc_runAsNonRoot :: "bool option"
  psc_runAsUser :: "int64 option"
  psc_fsGroup :: "int64 option"
  psc_seccompProfile :: string

record topologySpreadConstraint =
  ts_maxSkew :: int32
  ts_topologyKey :: string
  ts_whenUnsatisfiable :: string
  ts_matchLabels :: strmap

record container =
  c_name :: string
  c_image :: string
  c_command :: "string list"
  c_env :: "envVar list"
  c_ports :: "containerPort list"
  c_resources :: resourceRequirements
  c_startupProbe :: "probe option"
  c_readinessProbe :: "probe option"
  c_livenessProbe :: "probe option"
  c_volumeMounts :: "volumeMount list"
  c_securityContext :: "securityContext option"

record podSpec =
  ps_automountServiceAccountToken :: "bool option"
  ps_restartPolicy :: string
  ps_imagePullSecrets :: "string list"
  ps_securityContext :: "podSecurityContext option"
  ps_topologySpread :: "topologySpreadConstraint list"
  ps_nodeSelector :: strmap
  ps_tolerations :: "toleration list"
  ps_initContainers :: "container list"
  ps_containers :: "container list"
  ps_volumes :: "volume list"

definition noResources :: resourceRequirements where
  "noResources = \<lparr>rr_requests = [], rr_limits = [], rr_claims = []\<rparr>"

definition zeroContainer :: container where
  "zeroContainer = \<lparr>c_name = [], c_image = [], c_command = [], c_env = [], c_ports = [],
     c_resources = noResources, c_startupProbe = None, c_readinessProbe = None,
     c_livenessProbe = None, c_volumeMounts = [], c_securityContext = None\<rparr>"

definition zeroPodSpec :: podSpec where
  "zeroPodSpec = \<lparr>ps_automountServiceAccountToken = None, ps_restartPolicy = [],
     ps_imagePullSecrets = [], ps_securityContext = None, ps_topologySpread = [],
     ps_nodeSelector = [], ps_tolerations = [], ps_initContainers = [], ps_containers = [],
     ps_volumes = []\<rparr>"

subsection \<open>Workload and network objects\<close>

record servicePort =
  svp_name :: string
  svp_port :: int32
  svp_targetPort :: "intOrString option"

record serviceSpec =
  svc_clusterIP :: string
  svc_selector :: strmap
  svc_ports :: "servicePort list"

record deploymentStrategy =
  dst_type :: string
  dst_maxUnavailable :: int32
  dst_maxSurge :: int32

record deploymentObj =
  dep_replicas :: "int32 option"
  dep_strategy :: "deploymentStrategy option"
  dep_selector :: strmap
  dep_templateLabels :: strmap
  dep_templateAnnotations :: strmap
  dep_pod :: podSpec
  dep_statusObservedGeneration :: int64
  dep_statusAvailable :: int32
  dep_statusUpdated :: int32

record volumeClaim =
  vc_name :: string
  vc_accessModes :: "string list"
  vc_storageClass :: "string option"
  vc_storage :: "quantity option"

record statefulSetObj =
  sts_serviceName :: string
  sts_replicas :: "int32 option"
  sts_selector :: strmap
  sts_templateLabels :: strmap
  sts_templateAnnotations :: strmap
  sts_pod :: podSpec
  sts_volumeClaims :: "volumeClaim list"
  sts_statusReady :: int32

record jobObj =
  job_backoffLimit :: int32
  job_parallelism :: int32
  job_completions :: int32
  job_templateLabels :: strmap
  job_pod :: podSpec
  job_statusSucceeded :: int32
  job_statusFailed :: int32

datatype selectorRequirement = SelIn string "string list" | SelNotIn string "string list"

record labelSelector =
  ls_matchLabels :: strmap
  ls_matchExpressions :: "selectorRequirement list"

datatype networkPeer =
    PodPeer labelSelector
  | NamespacePeer labelSelector
  | IPBlockPeer string "string list"

record networkPort =
  np_protocol :: string
  np_port :: int32

record networkRule =
  nr_peers :: "networkPeer list"
  nr_ports :: "networkPort list"

record networkPolicyObj =
  npo_podSelector :: labelSelector
  npo_policyTypes :: "string list"
  npo_ingress :: "networkRule list"
  npo_egress :: "networkRule list"

record ingressTLS =
  it_hosts :: "string list"
  it_secretName :: string

record ingressObj =
  ing_className :: string
  ing_host :: string
  ing_path :: string
  ing_pathType :: string
  ing_backendName :: string
  ing_backendPort :: int32
  ing_tls :: "ingressTLS list"

record pdbObj =
  pdb_maxUnavailable :: int32
  pdb_selector :: strmap

record hpaMetric =
  hm_resource :: string
  hm_averageUtilization :: int32

record hpaObj =
  hpa_targetName :: string
  hpa_minReplicas :: "int32 option"
  hpa_maxReplicas :: int32
  hpa_metrics :: "hpaMetric list"

record podCondition =
  pc_type :: string
  pc_status :: string

subsection \<open>Unstructured content and objects of any kind\<close>

datatype json =
    JStr string
  | JInt int
  | JBool bool
  | JList "json list"
  | JObj "(string \<times> json) list"

datatype kind =
    KSecret | KConfigMap | KService | KPod | KPersistentVolumeClaim | KResourceQuota | KLimitRange
  | KDeployment | KStatefulSet | KJob | KIngress | KNetworkPolicy | KPodDisruptionBudget
  | KHorizontalPodAutoscaler | KMisskey | KMisskeyChannel
  | KCnpgCluster | KCnpgScheduledBackup | KCnpgBackup | KCnpgPooler
  | KRedisReplication | KRedisSentinel | KScaledObject | KTriggerAuthentication
  | KServiceMonitor | KPodMonitor | KPrometheusRule

datatype body =
    BEmpty
  | BData strmap
  | BService serviceSpec
  | BPod "podCondition list"
  | BClaim volumeClaim
  | BQuota resourceList
  | BLimits "limitRangeSpec list"
  | BDeployment deploymentObj
  | BStatefulSet statefulSetObj
  | BJob jobObj
  | BIngress ingressObj
  | BNetworkPolicy networkPolicyObj
  | BPDB pdbObj
  | BHPA hpaObj
  | BMisskey misskeySpec misskeyStatus
  | BChannel misskeyChannelSpec misskeyChannelStatus
  | BUnstructured json

record kobj =
  ko_kind :: kind
  ko_meta :: objectMeta
  ko_body :: body

definition newMeta :: "string \<Rightarrow> string \<Rightarrow> objectMeta" where
  "newMeta ns n = \<lparr>om_name = n, om_namespace = ns, om_uid = [], om_resourceVersion = [],
     om_generation = 0, om_creationTimestamp = 0, om_deletionTimestamp = None, om_labels = [],
     om_annotations = [], om_finalizers = [], om_ownerReferences = []\<rparr>"

definition newObj :: "kind \<Rightarrow> string \<Rightarrow> string \<Rightarrow> kobj" where
  "newObj k ns n = \<lparr>ko_kind = k, ko_meta = newMeta ns n, ko_body = BEmpty\<rparr>"

abbreviation kname :: "kobj \<Rightarrow> string" where "kname o1 \<equiv> om_name (ko_meta o1)"
abbreviation knamespace :: "kobj \<Rightarrow> string" where "knamespace o1 \<equiv> om_namespace (ko_meta o1)"
abbreviation klabels :: "kobj \<Rightarrow> strmap" where "klabels o1 \<equiv> om_labels (ko_meta o1)"
abbreviation kannotations :: "kobj \<Rightarrow> strmap" where "kannotations o1 \<equiv> om_annotations (ko_meta o1)"

definition withLabels :: "strmap \<Rightarrow> kobj \<Rightarrow> kobj" where
  "withLabels l x = x\<lparr>ko_meta := (ko_meta x)\<lparr>om_labels := l\<rparr>\<rparr>"

definition withAnnotations :: "strmap \<Rightarrow> kobj \<Rightarrow> kobj" where
  "withAnnotations a x = x\<lparr>ko_meta := (ko_meta x)\<lparr>om_annotations := a\<rparr>\<rparr>"

lemma newObj_simps [simp]:
  "ko_kind (newObj k ns n) = k" "kname (newObj k ns n) = n" "knamespace (newObj k ns n) = ns"
  "ko_body (newObj k ns n) = BEmpty" "klabels (newObj k ns n) = []"
  "kannotations (newObj k ns n) = []" "om_ownerReferences (ko_meta (newObj k ns n)) = []"
  by (simp_all add: newObj_def newMeta_def)

lemma withLabels_simps [simp]:
  "ko_kind (withLabels l x) = ko_kind x" "kname (withLabels l x) = kname x"
  "knamespace (withLabels l x) = knamespace x" "ko_body (withLabels l x) = ko_body x"
  "klabels (withLabels l x) = l" "kannotations (withLabels l x) = kannotations x"
  by (simp_all add: withLabels_def)

lemma withAnnotations_simps [simp]:
  "ko_kind (withAnnotations l x) = ko_kind x" "kname (withAnnotations l x) = kname x"
  "knamespace (withAnnotations l x) = knamespace x" "ko_body (withAnnotations l x) = ko_body x"
  "klabels (withAnnotations l x) = klabels x" "kannotations (withAnnotations l x) = l"
  by (simp_all add: withAnnotations_def)

text \<open>
  A typed read of an object decodes it into the Go struct of the requested kind: fields that
  are absent are the zero value.
\<close>

definition zeroDeployment :: deploymentObj where
  "zeroDeployment = \<lparr>dep_replicas = None, dep_strategy = None, dep_selector = [],
     dep_templateLabels = [], dep_templateAnnotations = [], dep_pod = zeroPodSpec,
     dep_statusObservedGeneration = 0, dep_statusAvailable = 0, dep_statusUpdated = 0\<rparr>"

definition zeroStatefulSet :: statefulSetObj where
  "zeroStatefulSet = \<lparr>sts_serviceName = [], sts_replicas = None, sts_selector = [],
     sts_templateLabels = [], sts_templateAnnotations = [], sts_pod = zeroPodSpec,
     sts_volumeClaims = [], sts_statusReady = 0\<rparr>"

definition zeroJob :: jobObj where
  "zeroJob = \<lparr>job_backoffLimit = 0, job_parallelism = 0, job_completions = 0,
     job_templateLabels = [], job_pod = zeroPodSpec, job_statusSucceeded = 0, job_statusFailed = 0\<rparr>"

definition deploymentOf :: "kobj \<Rightarrow> deploymentObj" where
  "deploymentOf x = (case ko_body x of BDeployment d \<Rightarrow> d | _ \<Rightarrow> zeroDeployment)"

definition statefulSetOf :: "kobj \<Rightarrow> statefulSetObj" where
  "statefulSetOf x = (case ko_body x of BStatefulSet d \<Rightarrow> d | _ \<Rightarrow> zeroStatefulSet)"

definition jobOf :: "kobj \<Rightarrow> jobObj" where
  "jobOf x = (case ko_body x of BJob j \<Rightarrow> j | _ \<Rightarrow> zeroJob)"

definition dataOf :: "kobj \<Rightarrow> strmap" where
  "dataOf x = (case ko_body x of BData d \<Rightarrow> d | _ \<Rightarrow> [])"

definition podConditionsOf :: "kobj \<Rightarrow> podCondition list" where
  "podConditionsOf x = (case ko_body x of BPod cs \<Rightarrow> cs | _ \<Rightarrow> [])"

text \<open>\<^verbatim>\<open>unstructured.NestedInt64\<close> and \<^verbatim>\<open>NestedString\<close>: the zero value where the path is absent.\<close>

fun jpath :: "json \<Rightarrow> string list \<Rightarrow> json option" where
  "jpath j [] = Some j"
| "jpath (JObj fs) (k # ks) = (case map_of fs k of Some j \<Rightarrow> jpath j ks | None \<Rightarrow> None)"
| "jpath _ (k # ks) = None"

definition contentOf :: "kobj \<Rightarrow> json" where
  "contentOf x = (case ko_body x of BUnstructured j \<Rightarrow> j | _ \<Rightarrow> JObj [])"

definition nestedInt64 :: "kobj \<Rightarrow> string list \<Rightarrow> int" where
  "nestedInt64 x ks = (case jpath (contentOf x) ks of Some (JInt i) \<Rightarrow> i | _ \<Rightarrow> 0)"

definition nestedString :: "kobj \<Rightarrow> string list \<Rightarrow> string" where
  "nestedString x ks = (case jpath (contentOf x) ks of Some (JStr s) \<Rightarrow> s | _ \<Rightarrow> [])"

lemma typed_reads [simp]:
  "ko_body x = BDeployment d \<Longrightarrow> deploymentOf x = d"
  "ko_body x = BStatefulSet s \<Longrightarrow> statefulSetOf x = s"
  "ko_body x = BJob j \<Longrightarrow> jobOf x = j"
  "ko_body x = BData m \<Longrightarrow> dataOf x = m"
  "ko_body x = BEmpty \<Longrightarrow> dataOf x = []"
  "ko_body x = BEmpty \<Longrightarrow> deploymentOf x = zeroDeployment"
  by (simp_all add: deploymentOf_def statefulSetOf_def jobOf_def dataOf_def)

subsection \<open>Requests and answers\<close>

datatype propagation = PropagationDefault | PropagationBackground | PropagationOrphan

datatype eventType = EventNormal | EventWarning

text \<open>An entry of the digest cache (\<^verbatim>\<open>internal/controller/imagedigest.go\<close>).\<close>

record digestEntry =
  de_digest :: string
  de_resolvedAt :: gotime

text \<open>
  \<^verbatim>\<open>QFetch\<close> and \<^verbatim>\<open>QStore\<close> are the two sides of \<^verbatim>\<open>controllerutil.CreateOrUpdate\<close>: the
  library hands the caller's closure an object (the stored one, or the one passed in when
  there is none), takes the closure's result, and reports an error or success.
\<close>

datatype req =
    QGet kind string string
  | QList kind string strmap
  | QCreate kobj
  | QUpdate kobj
  | QDelete kind string string propagation
  | QApply kobj
  | QStatusUpdate kobj
  | QFetch kobj
  | QStore kobj
  | QNow
  | QRandom nat
  | QKeychain "kobj list"
  | QHead string "kobj list option"
  | QEvent eventType string string string
  | QCacheGet string
  | QCachePut string string

datatype resp =
    RErr error
  | ROk
  | RObj kobj
  | RObjs "kobj list"
  | RTime gotime
  | RStr string
  | REntry "digestEntry option"

type_synonym 'a io = "(req, resp, 'a) prog"

text \<open>
  An answer is read at the type the request calls for; what is not of that type reads as an
  error, which the server may answer anyway.
\<close>

definition badAnswer :: error where "badAnswer = ErrOther ''unexpected answer''"

definition asObj :: "resp \<Rightarrow> error + kobj" where
  "asObj r = (case r of RObj x \<Rightarrow> Inr x | RErr e \<Rightarrow> Inl e | _ \<Rightarrow> Inl badAnswer)"

definition asObjs :: "resp \<Rightarrow> error + kobj list" where
  "asObjs r = (case r of RObjs xs \<Rightarrow> Inr xs | RErr e \<Rightarrow> Inl e | _ \<Rightarrow> Inl badAnswer)"

definition asUnit :: "resp \<Rightarrow> error + unit" where
  "asUnit r = (case r of ROk \<Rightarrow> Inr () | RErr e \<Rightarrow> Inl e | _ \<Rightarrow> Inl badAnswer)"

definition asStr :: "resp \<Rightarrow> error + string" where
  "asStr r = (case r of RStr s \<Rightarrow> Inr s | RErr e \<Rightarrow> Inl e | _ \<Rightarrow> Inl badAnswer)"

definition asTime :: "resp \<Rightarrow> gotime" where
  "asTime r = (case r of RTime t \<Rightarrow> t | _ \<Rightarrow> 0)"

definition asEntry :: "resp \<Rightarrow> digestEntry option" where
  "asEntry r = (case r of REntry x \<Rightarrow> x | _ \<Rightarrow> None)"

lemmas answer_defs = asObj_def asObjs_def asUnit_def asStr_def asTime_def asEntry_def

lemma answer_simps [simp]:
  "asObj (RObj x) = Inr x" "asObj (RErr e) = Inl e"
  "asObjs (RObjs xs) = Inr xs" "asObjs (RErr e) = Inl e"
  "asUnit ROk = Inr ()" "asUnit (RErr e) = Inl e"
  "asStr (RStr s) = Inr s" "asStr (RErr e) = Inl e"
  "asTime (RTime t) = t" "asEntry (REntry c) = c"
  by (simp_all add: answer_defs)

lemma asObj_Inr [simp]: "asObj r = Inr x \<longleftrightarrow> r = RObj x" "Inr x = asObj r \<longleftrightarrow> r = RObj x"
  by (auto simp: asObj_def split: resp.splits)

lemma asObjs_Inr [simp]: "asObjs r = Inr x \<longleftrightarrow> r = RObjs x" "Inr x = asObjs r \<longleftrightarrow> r = RObjs x"
  by (auto simp: asObjs_def split: resp.splits)

lemma asUnit_Inr [simp]: "asUnit r = Inr u \<longleftrightarrow> r = ROk" "Inr u = asUnit r \<longleftrightarrow> r = ROk"
  by (auto simp: asUnit_def split: resp.splits)

lemma asStr_Inr [simp]: "asStr r = Inr s \<longleftrightarrow> r = RStr s" "Inr s = asStr r \<longleftrightarrow> r = RStr s"
  by (auto simp: asStr_def split: resp.splits)

text \<open>
  A read names a key, and the object the API returns has that key; a list names a kind, a
  namespace (empty for all) and labels. An answer that does not is no valid answer.
\<close>

definition atKey :: "kind \<Rightarrow> string \<Rightarrow> string \<Rightarrow> kobj \<Rightarrow> bool" where
  "atKey k ns n x \<longleftrightarrow> ko_kind x = k \<and> knamespace x = ns \<and> kname x = n"

definition listed :: "kind \<Rightarrow> string \<Rightarrow> strmap \<Rightarrow> kobj \<Rightarrow> bool" where
  "listed k ns sel x \<longleftrightarrow> ko_kind x = k \<and> (ns = [] \<or> knamespace x = ns) \<and>
     list_all (\<lambda>(l, v). map_of (klabels x) l = Some v) sel"

definition asObjAt :: "kind \<Rightarrow> string \<Rightarrow> string \<Rightarrow> resp \<Rightarrow> error + kobj" where
  "asObjAt k ns n r = (case asObj r of Inr x \<Rightarrow> if atKey k ns n x then Inr x else Inl badAnswer | Inl e \<Rightarrow> Inl e)"

definition asListOf :: "kind \<Rightarrow> string \<Rightarrow> strmap \<Rightarrow> resp \<Rightarrow> error + kobj list" where
  "asListOf k ns sel r = (case asObjs r of
     Inr xs \<Rightarrow> if list_all (listed k ns sel) xs then Inr xs else Inl badAnswer | Inl e \<Rightarrow> Inl e)"

lemma asObjAt_Inr [simp]:
  "asObjAt k ns n r = Inr x \<longleftrightarrow> r = RObj x \<and> atKey k ns n x"
  "Inr x = asObjAt k ns n r \<longleftrightarrow> r = RObj x \<and> atKey k ns n x"
  by (auto simp: asObjAt_def asObj_def split: resp.splits)

lemma asListOf_Inr [simp]:
  "asListOf k ns sel r = Inr xs \<longleftrightarrow> r = RObjs xs \<and> list_all (listed k ns sel) xs"
  "Inr xs = asListOf k ns sel r \<longleftrightarrow> r = RObjs xs \<and> list_all (listed k ns sel) xs"
  by (auto simp: asListOf_def asObjs_def split: resp.splits)

lemma asObjAt_simps [simp]:
  "asObjAt k ns n (RErr e) = Inl e" "atKey k ns n x \<Longrightarrow> asObjAt k ns n (RObj x) = Inr x"
  "asListOf k ns sel (RErr e) = Inl e" "list_all (listed k ns sel) xs \<Longrightarrow> asListOf k ns sel (RObjs xs) = Inr xs"
  by (simp_all add: asObjAt_def asListOf_def)

definition kget :: "kind \<Rightarrow> string \<Rightarrow> string \<Rightarrow> (error + kobj) io" where
  "kget k ns n = Call (QGet k ns n) (\<lambda>r. Ret (asObjAt k ns n r))"

definition klist :: "kind \<Rightarrow> string \<Rightarrow> strmap \<Rightarrow> (error + kobj list) io" where
  "klist k ns sel = Call (QList k ns sel) (\<lambda>r. Ret (asListOf k ns sel r))"

definition kcreate :: "kobj \<Rightarrow> (error + unit) io" where
  "kcreate x = Call (QCreate x) (\<lambda>r. Ret (asUnit r))"

definition kupdate :: "kobj \<Rightarrow> (error + kobj) io" where
  "kupdate x = Call (QUpdate x) (\<lambda>r. Ret (asObj r))"

definition kdelete :: "kind \<Rightarrow> string \<Rightarrow> string \<Rightarrow> propagation \<Rightarrow> (error + unit) io" where
  "kdelete k ns n pol = Call (QDelete k ns n pol) (\<lambda>r. Ret (asUnit r))"

definition kapply :: "kobj \<Rightarrow> (error + unit) io" where
  "kapply x = Call (QApply x) (\<lambda>r. Ret (asUnit r))"

definition kstatusUpdate :: "kobj \<Rightarrow> (error + unit) io" where
  "kstatusUpdate x = Call (QStatusUpdate x) (\<lambda>r. Ret (asUnit r))"

definition kfetch :: "kobj \<Rightarrow> (error + kobj) io" where
  "kfetch x = Call (QFetch x) (\<lambda>r. Ret (asObjAt (ko_kind x) (knamespace x) (kname x) r))"

definition kstore :: "kobj \<Rightarrow> (error + unit) io" where
  "kstore x = Call (QStore x) (\<lambda>r. Ret (asUnit r))"

definition timeNow :: "gotime io" where
  "timeNow = Call QNow (\<lambda>r. Ret (asTime r))"

definition randRead :: "nat \<Rightarrow> (error + string) io" where
  "randRead n = Call (QRandom n) (\<lambda>r. Ret (asStr r))"

lemmas io_defs = kget_def klist_def kcreate_def kupdate_def kdelete_def kapply_def
  kstatusUpdate_def kfetch_def kstore_def timeNow_def randRead_def

subsection \<open>Library functions\<close>

record libs =
  l_setControllerReference :: "misskey \<Rightarrow> kobj \<Rightarrow> error + kobj"
  l_isControlledBy :: "kobj \<Rightarrow> misskey \<Rightarrow> bool"
  l_containsFinalizer :: "misskey \<Rightarrow> string \<Rightarrow> bool"
  l_addFinalizer :: "misskey \<Rightarrow> string \<Rightarrow> misskey \<times> bool"
  l_removeFinalizer :: "misskey \<Rightarrow> string \<Rightarrow> misskey"
  l_setStatusCondition :: "condition list \<Rightarrow> condition \<Rightarrow> condition list"
  l_removeStatusCondition :: "condition list \<Rightarrow> string \<Rightarrow> condition list"
  l_mustParse :: "string \<Rightarrow> quantity"
  l_quantityString :: "quantity \<Rightarrow> string"
  l_toUnstructured :: "resourceRequirements \<Rightarrow> error + (string \<times> json) list"
  l_retrySteps :: nat
  l_pollSteps :: nat
  l_recorder :: bool
  l_digests :: bool

text \<open>
  \<^verbatim>\<open>retry.RetryOnConflict\<close>: the closure runs again while it answers a conflict, at most
  the backoff's number of steps.
\<close>

fun retryOnConflict :: "nat \<Rightarrow> (error + 'a) io \<Rightarrow> (error + 'a) io" where
  "retryOnConflict 0 f = f"
| "retryOnConflict (Suc n) f =
     bnd f (\<lambda>r. case r of Inl e \<Rightarrow> if isConflict e then retryOnConflict n f else Ret (Inl e)
                        | Inr a \<Rightarrow> Ret (Inr a))"

lemma retryOnConflict_runs:
  assumes "runs (retryOnConflict n f) tr res" "e \<in> set tr"
  obtains t a where "runs f t a" "e \<in> set t" "set t \<subseteq> set tr"
proof -
  have "\<exists>t a. runs f t a \<and> e \<in> set t \<and> set t \<subseteq> set tr"
    using assms
  proof (induction n arbitrary: tr)
    case (Suc n)
    from Suc.prems(1) obtain t1 a t2 where tr: "tr = t1 @ t2" and r1: "runs f t1 a"
      and r2: "runs (case a of Inl e \<Rightarrow> if isConflict e then retryOnConflict n f else Ret (Inl e)
                             | Inr x \<Rightarrow> Ret (Inr x)) t2 res"
      by (auto simp: runs_bnd)
    show ?case
    proof (cases "e \<in> set t1")
      case True
      with r1 tr show ?thesis by auto
    next
      case False
      then have "e \<in> set t2" using Suc.prems(2) tr by simp
      with r2 have "runs (retryOnConflict n f) t2 res"
        by (auto split: sum.splits if_splits)
      from Suc.IH [OF this \<open>e \<in> set t2\<close>] tr show ?thesis by auto
    qed
  qed auto
  then show thesis using that by blast
qed

subsection \<open>The Misskey object as an API object\<close>

definition misskeyObj :: "misskey \<Rightarrow> kobj" where
  "misskeyObj m = \<lparr>ko_kind = KMisskey, ko_meta = mk_meta m, ko_body = BMisskey (spec m) (status m)\<rparr>"

definition channelObj :: "misskeyChannel \<Rightarrow> kobj" where
  "channelObj c = \<lparr>ko_kind = KMisskeyChannel, ko_meta = mc_meta c, ko_body = BChannel (ch_spec c) (ch_status c)\<rparr>"

definition asMisskey :: "kobj \<Rightarrow> error + misskey" where
  "asMisskey x = (case ko_body x of
     BMisskey sp st \<Rightarrow> Inr \<lparr>mk_meta = ko_meta x, spec = sp, status = st\<rparr> | _ \<Rightarrow> Inl badAnswer)"

definition asChannel :: "kobj \<Rightarrow> error + misskeyChannel" where
  "asChannel x = (case ko_body x of
     BChannel sp st \<Rightarrow> Inr \<lparr>mc_meta = ko_meta x, ch_spec = sp, ch_status = st\<rparr> | _ \<Rightarrow> Inl badAnswer)"

lemma as_of_obj [simp]: "asMisskey (misskeyObj m) = Inr m" "asChannel (channelObj c) = Inr c"
  by (simp_all add: asMisskey_def misskeyObj_def asChannel_def channelObj_def)

definition getMisskey :: "string \<Rightarrow> string \<Rightarrow> (error + misskey) io" where
  "getMisskey ns n = chk (kget KMisskey ns n) (\<lambda>x. Ret (asMisskey x))"

definition getChannel :: "string \<Rightarrow> (error + misskeyChannel) io" where
  "getChannel n = chk (kget KMisskeyChannel [] n) (\<lambda>x. Ret (asChannel x))"

subsection \<open>The repository's own wrappers\<close>

text \<open>\<^verbatim>\<open>event\<close>: an Event is recorded only when a recorder is wired.\<close>

definition event :: "libs \<Rightarrow> eventType \<Rightarrow> string \<Rightarrow> string \<Rightarrow> string \<Rightarrow> unit io" where
  "event L ty reason action note =
     (if l_recorder L then Call (QEvent ty reason action note) (\<lambda>_. Ret ()) else Ret ())"

definition eventThen :: "libs \<Rightarrow> eventType \<Rightarrow> string \<Rightarrow> string \<Rightarrow> string \<Rightarrow> 'a io \<Rightarrow> 'a io" where
  "eventThen L ty reason action note k = bnd (event L ty reason action note) (\<lambda>_. k)"

definition applyObj :: "libs \<Rightarrow> misskey \<Rightarrow> kobj \<Rightarrow> (kobj \<Rightarrow> (error + kobj) io) \<Rightarrow> (error + unit) io" where
  "applyObj L m obj mutate =
     chk (kfetch obj) (\<lambda>cur.
     chk (mutate cur) (\<lambda>new.
     chk (Ret (l_setControllerReference L m new)) kstore))"

definition applySSA :: "libs \<Rightarrow> misskey \<Rightarrow> kobj \<Rightarrow> (error + unit) io" where
  "applySSA L m obj = chk (Ret (l_setControllerReference L m obj)) kapply"

definition deleteIfExists :: "kind \<Rightarrow> string \<Rightarrow> string \<Rightarrow> (error + unit) io" where
  "deleteIfExists k ns n =
     bnd (kdelete k ns n PropagationDefault) (\<lambda>r. case r of
       Inl e \<Rightarrow> if isNotFound e \<or> isNoMatch e then Ret (Inr ()) else Ret (Inl e)
     | Inr _ \<Rightarrow> Ret (Inr ()))"

text \<open>\<open>gone r\<close>: the answer to a deletion after which the object is not wanted any more.\<close>

definition gone :: "resp \<Rightarrow> bool" where
  "gone r \<longleftrightarrow> (case r of ROk \<Rightarrow> True | RErr e \<Rightarrow> isNotFound e \<or> isNoMatch e | _ \<Rightarrow> False)"

lemma runs_deleteIfExists:
  "runs (deleteIfExists k ns n) tr (Inr ()) \<longleftrightarrow> (\<exists>r. tr = [(QDelete k ns n PropagationDefault, r)] \<and> gone r)"
  by (auto simp: deleteIfExists_def kdelete_def runs_Call_iff gone_def asUnit_def badAnswer_def
      split: resp.splits if_splits sum.splits)

text \<open>A read followed by a case distinction on its outcome.\<close>

lemma runs_kget:
  assumes "runs (bnd (kget k ns n) f) tr res"
  obtains (err) r e t where "tr = (QGet k ns n, r) # t" "asObjAt k ns n r = Inl e" "runs (f (Inl e)) t res"
  | (ok) x t where "tr = (QGet k ns n, RObj x) # t" "atKey k ns n x" "runs (f (Inr x)) t res"
proof -
  obtain r t where rt: "tr = (QGet k ns n, r) # t" "runs (f (asObjAt k ns n r)) t res"
    using assms by (auto simp: kget_def runs_Call_iff)
  show thesis
  proof (cases "asObjAt k ns n r")
    case (Inl e)
    with rt err show thesis by simp
  next
    case (Inr x)
    then have "r = RObj x" "atKey k ns n x" by simp_all
    with rt ok show thesis by simp
  qed
qed

text \<open>Footprints: which requests the parts can make, whatever the answers.\<close>

lemma event_calls [calls_intros]: "(\<And>a b c d. P (QEvent a b c d)) \<Longrightarrow> calls P (event L ty x y z)"
  by (simp add: event_def)

lemma eventThen_calls [calls_intros]:
  "(\<And>a b c d. P (QEvent a b c d)) \<Longrightarrow> calls P k \<Longrightarrow> calls P (eventThen L ty x y z k)"
  by (auto simp: eventThen_def intro!: calls_intros)

lemma kube_calls [calls_intros]:
  "P (QGet k ns n) \<Longrightarrow> calls P (kget k ns n)" "P (QList k ns sel) \<Longrightarrow> calls P (klist k ns sel)"
  "P (QCreate x) \<Longrightarrow> calls P (kcreate x)" "P (QUpdate x) \<Longrightarrow> calls P (kupdate x)"
  "P (QDelete k ns n pol) \<Longrightarrow> calls P (kdelete k ns n pol)" "P (QApply x) \<Longrightarrow> calls P (kapply x)"
  "P (QStatusUpdate x) \<Longrightarrow> calls P (kstatusUpdate x)" "P (QFetch x) \<Longrightarrow> calls P (kfetch x)"
  "P (QStore x) \<Longrightarrow> calls P (kstore x)" "P QNow \<Longrightarrow> calls P timeNow" "P (QRandom i) \<Longrightarrow> calls P (randRead i)"
  by (simp_all add: io_defs)

text \<open>A footprint that may use what is known of the answers read so far.\<close>

lemma calls_kget [calls_intros]:
  "P (QGet k ns n) \<Longrightarrow> (\<And>e. calls P (f (Inl e))) \<Longrightarrow> (\<And>x. atKey k ns n x \<Longrightarrow> calls P (f (Inr x))) \<Longrightarrow>
     calls P (bnd (kget k ns n) f)"
proof -
  assume a: "P (QGet k ns n)" "\<And>e. calls P (f (Inl e))" "\<And>x. atKey k ns n x \<Longrightarrow> calls P (f (Inr x))"
  have "calls P (f (asObjAt k ns n r))" for r
    using a(2,3) by (cases "asObjAt k ns n r") auto
  with a(1) show ?thesis by (simp add: kget_def)
qed

lemma calls_klist [calls_intros]:
  "P (QList k ns sel) \<Longrightarrow> (\<And>xs. list_all (listed k ns sel) xs \<Longrightarrow> calls P (f xs)) \<Longrightarrow>
     calls P (chk (klist k ns sel) f)"
proof -
  assume a: "P (QList k ns sel)" "\<And>xs. list_all (listed k ns sel) xs \<Longrightarrow> calls P (f xs)"
  have "calls P (case asListOf k ns sel r of Inl e \<Rightarrow> Ret (Inl e) | Inr xs \<Rightarrow> f xs)" for r
    using a(2) by (cases "asListOf k ns sel r") auto
  with a(1) show ?thesis by (simp add: klist_def chk_def)
qed

lemma applyObj_calls [calls_intros]:
  assumes "P (QFetch obj)"
    and "\<And>s. atKey (ko_kind obj) (knamespace obj) (kname obj) s \<Longrightarrow> calls P (mutate s)"
    and "\<And>s t new x. atKey (ko_kind obj) (knamespace obj) (kname obj) s \<Longrightarrow> runs (mutate s) t (Inr new) \<Longrightarrow>
      l_setControllerReference L m new = Inr x \<Longrightarrow> P (QStore x)"
  shows "calls P (applyObj L m obj mutate)"
proof -
  have store: "calls P (chk (Ret (l_setControllerReference L m new)) kstore)"
    if "atKey (ko_kind obj) (knamespace obj) (kname obj) s" "runs (mutate s) t (Inr new)" for s t new
    using assms(3) [OF that] by (cases "l_setControllerReference L m new") (auto simp: kstore_def)
  have "calls P (chk (mutate s) (\<lambda>new. chk (Ret (l_setControllerReference L m new)) kstore))"
    if at: "atKey (ko_kind obj) (knamespace obj) (kname obj) s" for s
    by (rule calls_chk_runs [OF assms(2) [OF at] store [OF at]])
  moreover have "atKey (ko_kind obj) (knamespace obj) (kname obj) s" if "runs (kfetch obj) t (Inr s)" for t s
    using that by (auto simp: kfetch_def runs_Call_iff)
  moreover have "calls P (kfetch obj)" using assms(1) by (simp add: kfetch_def)
  ultimately show ?thesis unfolding applyObj_def by (blast intro: calls_chk_runs)
qed

lemma applySSA_calls [calls_intros]:
  "(\<And>x. l_setControllerReference L m obj = Inr x \<Longrightarrow> P (QApply x)) \<Longrightarrow> calls P (applySSA L m obj)"
  unfolding applySSA_def by (cases "l_setControllerReference L m obj") (auto intro!: kube_calls)

lemma deleteIfExists_calls [calls_intros]:
  "P (QDelete k ns n PropagationDefault) \<Longrightarrow> calls P (deleteIfExists k ns n)"
  unfolding deleteIfExists_def by (auto intro!: calls_intros split: sum.splits)

subsection \<open>Which requests write to the cluster\<close>

fun writes :: "req \<Rightarrow> (kind \<times> string \<times> string) option" where
  "writes (QCreate x) = Some (ko_kind x, knamespace x, kname x)"
| "writes (QUpdate x) = Some (ko_kind x, knamespace x, kname x)"
| "writes (QApply x) = Some (ko_kind x, knamespace x, kname x)"
| "writes (QStatusUpdate x) = Some (ko_kind x, knamespace x, kname x)"
| "writes (QStore x) = Some (ko_kind x, knamespace x, kname x)"
| "writes (QDelete k ns n p) = Some (k, ns, n)"
| "writes _ = None"

text \<open>
  Two restrictions that hold of every request of the operator: Secrets are only read by name,
  and the only status it writes while reconciling an instance is that of a Misskey.
\<close>

fun orderly :: "req \<Rightarrow> bool" where
  "orderly (QList k ns sel) \<longleftrightarrow> k \<noteq> KSecret"
| "orderly (QStatusUpdate x) \<longleftrightarrow> ko_kind x = KMisskey"
| "orderly _ \<longleftrightarrow> True"

definition readOnly :: "req \<Rightarrow> bool" where
  "readOnly q \<longleftrightarrow> writes q = None \<and> orderly q"

lemma readOnly_simps [simp]:
  "readOnly (QGet k ns n)" "readOnly (QList k ns sel) \<longleftrightarrow> k \<noteq> KSecret" "readOnly (QFetch x)" "readOnly QNow"
  "readOnly (QRandom i)" "readOnly (QKeychain xs)" "readOnly (QHead img kc)" "readOnly (QEvent t a b c)"
  "readOnly (QCacheGet s)" "readOnly (QCachePut s d)"
  "\<not> readOnly (QCreate x)" "\<not> readOnly (QUpdate x)" "\<not> readOnly (QApply x)" "\<not> readOnly (QStatusUpdate x)"
  "\<not> readOnly (QStore x)" "\<not> readOnly (QDelete k ns n p)"
  by (simp_all add: readOnly_def)

lemma readOnly_writes: "readOnly q \<Longrightarrow> writes q = None"
  by (simp add: readOnly_def)

fun stores :: "req \<Rightarrow> (kind \<times> string \<times> string) option" where
  "stores (QDelete k ns n p) = None"
| "stores q = writes q"

text \<open>
  \<open>stable_owner\<close>: setting the owner reference keeps an object's kind, name and content, as
  \<^verbatim>\<open>controllerutil.SetControllerReference\<close> documents (it adds an owner reference).
\<close>

definition stable_owner :: "libs \<Rightarrow> bool" where
  "stable_owner L \<longleftrightarrow> (\<forall>m x y. l_setControllerReference L m x = Inr y \<longrightarrow>
     ko_kind y = ko_kind x \<and> knamespace y = knamespace x \<and> kname y = kname x \<and>
     klabels y = klabels x \<and> kannotations y = kannotations x \<and> ko_body y = ko_body x)"

text \<open>
  What \<^verbatim>\<open>CreateOrUpdate\<close> stores is the closure's result on the object the server handed
  out, with the owner reference set.
\<close>

definition quietStore :: "req \<Rightarrow> bool" where
  "quietStore q \<longleftrightarrow> (case q of QStore _ \<Rightarrow> False | _ \<Rightarrow> True)"

lemma applyObj_stored:
  assumes run: "runs (applyObj L m obj mutate) tr res" and st: "(QStore x, r) \<in> set tr"
    and quiet: "\<And>s. calls quietStore (mutate s)"
  obtains s t new where "(QFetch obj, RObj s) \<in> set tr" "atKey (ko_kind obj) (knamespace obj) (kname obj) s"
    "runs (mutate s) t (Inr new)" "set t \<subseteq> set tr" "l_setControllerReference L m new = Inr x"
proof -
  have nf: "(QStore x, r) \<notin> set t" if "runs (kfetch obj) t y" for t y
    using that by (auto simp: kfetch_def runs_Call_iff)
  have nm: "(QStore x, r) \<notin> set t" if "runs (mutate s) t y" for s t y
    using calls_runs [OF quiet that, of "QStore x" r] by (auto simp: quietStore_def)
  from run have "runs (chk (kfetch obj) (\<lambda>cur. chk (mutate cur) (\<lambda>new.
      chk (Ret (l_setControllerReference L m new)) kstore))) tr res"
    unfolding applyObj_def .
  then obtain t1 s t2 where tr: "tr = t1 @ t2" and f: "runs (kfetch obj) t1 (Inr s)"
    and k: "runs (chk (mutate s) (\<lambda>new. chk (Ret (l_setControllerReference L m new)) kstore)) t2 res"
    using nf st by (cases rule: runs_chkE) blast+
  have st2: "(QStore x, r) \<in> set t2" using st tr nf [OF f] by simp
  from k obtain t3 new t4 where t2: "t2 = t3 @ t4" and g: "runs (mutate s) t3 (Inr new)"
    and w: "runs (chk (Ret (l_setControllerReference L m new)) kstore) t4 res"
    using nm st2 by (cases rule: runs_chkE) blast+
  have "(QStore x, r) \<in> set t4" using st2 t2 nm [OF g] by simp
  with w have "l_setControllerReference L m new = Inr x"
    by (cases "l_setControllerReference L m new") (auto simp: kstore_def runs_Call_iff)
  moreover have "(QFetch obj, RObj s) \<in> set tr \<and> atKey (ko_kind obj) (knamespace obj) (kname obj) s"
    using f tr by (auto simp: kfetch_def runs_Call_iff)
  ultimately show thesis using that g tr t2 by auto
qed

end
