(* ===== verification/Samples.thy ===== *)
theory Samples
  imports Kube
begin

section \<open>Concrete instances: library functions, an API server, a minimal Misskey\<close>

text \<open>
  What the examples of the development run on: \<open>refLibs\<close> gives the library functions a
  concrete behaviour that satisfies what the properties ask of them, \<open>emptyCluster\<close> is an API
  server that has no object, accepts every write and may be overridden request by request,
  and \<open>sample\<close> is a Misskey whose spec has every field at its zero value.
\<close>

subsection \<open>Library functions\<close>

definition refOwner :: "misskey \<Rightarrow> ownerReference" where
  "refOwner m = \<lparr>or_kind = ''Misskey'', or_name = mname m, or_uid = om_uid (mk_meta m), or_controller = Some True\<rparr>"

definition refSetOwner :: "misskey \<Rightarrow> kobj \<Rightarrow> error + kobj" where
  "refSetOwner m x = Inr (x\<lparr>ko_meta := (ko_meta x)\<lparr>om_ownerReferences := [refOwner m]\<rparr>\<rparr>)"

definition refFinalizers :: "(string list \<Rightarrow> string list) \<Rightarrow> misskey \<Rightarrow> misskey" where
  "refFinalizers f m = m\<lparr>mk_meta := (mk_meta m)\<lparr>om_finalizers := f (om_finalizers (mk_meta m))\<rparr>\<rparr>"

fun refSetCondition :: "condition list \<Rightarrow> condition \<Rightarrow> condition list" where
  "refSetCondition [] c = [c]"
| "refSetCondition (d # ds) c = (if cond_type d = cond_type c then c # ds else d # refSetCondition ds c)"

definition refLibs :: libs where
  "refLibs =
     \<lparr>l_setControllerReference = refSetOwner,
      l_isControlledBy = (\<lambda>x m. refOwner m \<in> set (om_ownerReferences (ko_meta x))),
      l_containsFinalizer = (\<lambda>m f. f \<in> set (om_finalizers (mk_meta m))),
      l_addFinalizer = (\<lambda>m f. if f \<in> set (om_finalizers (mk_meta m)) then (m, False)
                              else (refFinalizers (\<lambda>fs. fs @ [f]) m, True)),
      l_removeFinalizer = (\<lambda>m f. refFinalizers (filter (\<lambda>g. g \<noteq> f)) m),
      l_setStatusCondition = refSetCondition,
      l_removeStatusCondition = (\<lambda>cs t. filter (\<lambda>c. cond_type c \<noteq> t) cs),
      l_mustParse = (\<lambda>s. int (length s)), l_quantityString = (\<lambda>q. []),
      l_toUnstructured = (\<lambda>rr. Inr []), l_retrySteps = 4, l_pollSteps = 1,
      l_recorder = False, l_digests = False\<rparr>"

lemma refLibs_simps [simp]:
  "l_setControllerReference refLibs = refSetOwner"
  "l_containsFinalizer refLibs m f \<longleftrightarrow> f \<in> set (om_finalizers (mk_meta m))"
  "l_removeFinalizer refLibs m f = refFinalizers (filter (\<lambda>g. g \<noteq> f)) m"
  "l_setStatusCondition refLibs = refSetCondition" "l_recorder refLibs = False" "l_digests refLibs = False"
  by (simp_all add: refLibs_def)

lemma stable_refLibs [simp]: "stable_owner refLibs"
  by (auto simp: stable_owner_def refSetOwner_def)

subsection \<open>An API server\<close>

fun emptyAnswer :: "req \<Rightarrow> resp" where
  "emptyAnswer (QGet k ns n) = RErr (ErrNotFound n)"
| "emptyAnswer (QList k ns sel) = RObjs []"
| "emptyAnswer (QUpdate x) = RObj x"
| "emptyAnswer (QFetch x) = RObj x"
| "emptyAnswer QNow = RTime 0"
| "emptyAnswer (QRandom n) = RStr (replicate n CHR 0x00)"
| "emptyAnswer (QCacheGet k) = REntry None"
| "emptyAnswer (QHead i kc) = RErr (ErrOther ''registry unreachable'')"
| "emptyAnswer _ = ROk"

definition answering :: "(req \<Rightarrow> resp option) \<Rightarrow> (req, resp, unit) server" where
  "answering f q w = ((case f q of Some r \<Rightarrow> r | None \<Rightarrow> emptyAnswer q), ())"

abbreviation emptyCluster :: "(req, resp, unit) server" where
  "emptyCluster \<equiv> answering (\<lambda>_. None)"

lemma exec_answering:
  "runs p (trace_of (answering f) p ()) (fst (exec (answering f) p ()))"
  by (rule exec_runs)

subsection \<open>A minimal instance\<close>

definition noSecretKeySelector :: secretKeySelector where
  "noSecretKeySelector = \<lparr>sel_name = [], sel_key = [], sel_optional = None\<rparr>"

definition noRuntimeSpec :: runtimeSpec where
  "noRuntimeSpec =
     \<lparr>rt_runAsUser = None, rt_startCommand = [], rt_migrateCommand = [], rt_healthPath =
     [], rt_configPath = [], rt_builtPath = None\<rparr>"

definition noComponentSpec :: componentSpec where
  "noComponentSpec =
     \<lparr>co_replicas = None, co_resources = noResources, co_nodeSelector = [], co_tolerations
     = []\<rparr>"

definition noAppSpec :: appSpec where
  "noAppSpec =
     \<lparr>ap_component = noComponentSpec, ap_autoscaling = None\<rparr>"

definition noWorkerSpec :: workerSpec where
  "noWorkerSpec =
     \<lparr>wk_component = noComponentSpec, wk_autoscaling = None\<rparr>"

definition noMaintenanceSpec :: maintenanceSpec where
  "noMaintenanceSpec =
     \<lparr>ma_enabled = None, ma_html = [], ma_statusCode = None, ma_reloadSeconds = None\<rparr>"

definition noProxySpec :: proxySpec where
  "noProxySpec =
     \<lparr>px_enabled = None, px_replicas = None, px_image = [], px_maintenance =
     noMaintenanceSpec, px_clientIPHeader = [], px_resources = noResources\<rparr>"

definition noIngressSpec :: ingressSpec where
  "noIngressSpec =
     \<lparr>ig_enabled = None, ig_className = [], ig_host = [], ig_annotations = [],
     ig_tlsSecretName = [], ig_issuerRef = None\<rparr>"

definition noRedisSpec :: redisSpec where
  "noRedisSpec =
     \<lparr>rd_external = None, rd_image = [], rd_maxMemory = [], rd_maxMemoryPolicy = [],
     rd_appendOnly = None, rd_storage = 0, rd_storageClassName = None, rd_resources =
     noResources, rd_ha = None, rd_roles = None\<rparr>"

definition noMeilisearchSpec :: meilisearchSpec where
  "noMeilisearchSpec =
     \<lparr>ms_external = None, ms_image = [], ms_storage = 0, ms_storageClassName = None,
     ms_index = [], ms_scope = [], ms_masterKeySecret = None, ms_resources = noResources\<rparr>"

definition noSearchSpec :: searchSpec where
  "noSearchSpec =
     \<lparr>se_provider = [], se_meilisearch = noMeilisearchSpec\<rparr>"

definition noPostgresSpec :: postgresSpec where
  "noPostgresSpec =
     \<lparr>pg_external = None, pg_instances = 0, pg_image = [], pg_database = [], pg_owner = [],
     pg_storage = 0, pg_storageClassName = None, pg_parameters = [], pg_resources =
     noResources, pg_backup = None, pg_recovery = None, pg_import = None, pg_readOffload =
     None, pg_pooler = None\<rparr>"

definition noMigrationSpec :: migrationSpec where
  "noMigrationSpec =
     \<lparr>mg_createIndexConcurrently = None, mg_preBackup = None\<rparr>"

definition noNetworkIsolationSpec :: networkIsolationSpec where
  "noNetworkIsolationSpec =
     \<lparr>ni_enabled = None, ni_allowedNamespaces = []\<rparr>"

definition noEgressIsolationSpec :: egressIsolationSpec where
  "noEgressIsolationSpec =
     \<lparr>eg_enabled = None, eg_dnsNamespace = [], eg_allowedNamespaces = []\<rparr>"

definition noNetworkSpec :: networkSpec where
  "noNetworkSpec =
     \<lparr>nw_isolation = noNetworkIsolationSpec, nw_egressIsolation = noEgressIsolationSpec\<rparr>"

definition noTenancySpec :: tenancySpec where
  "noTenancySpec =
     \<lparr>tn_dedicated = False, tn_quota = [], tn_limitRange = None\<rparr>"

definition noMonitoringSpec :: monitoringSpec where
  "noMonitoringSpec =
     \<lparr>mo_enabled = None, mo_labels = [], mo_interval = [], mo_redisExporterImage = [],
     mo_rules = None\<rparr>"

definition noPerformanceSpec :: performanceSpec where
  "noPerformanceSpec =
     \<lparr>pf_deliverJobConcurrency = None, pf_inboxJobConcurrency = None, pf_deliverJobPerSec =
     None, pf_inboxJobPerSec = None, pf_relationshipJobPerSec = None,
     pf_deliverJobMaxAttempts = None, pf_inboxJobMaxAttempts = None\<rparr>"

definition noOutboundProxySpec :: outboundProxySpec where
  "noOutboundProxySpec =
     \<lparr>ob_http = [], ob_smtp = [], ob_bypassHosts = []\<rparr>"

definition noFilesSpec :: filesSpec where
  "noFilesSpec =
     \<lparr>fi_maxFileSize = None, fi_mediaProxy = [], fi_proxyRemoteFiles = None\<rparr>"

definition noMisskeySpec :: misskeySpec where
  "noMisskeySpec =
     \<lparr>url = [], image = [], imageFrom = None, trackImageDigest = False, idGenerationMethod
     = [], deletionPolicy = [], suspend = False, tenant = [], imagePullSecrets = [],
     runtimeS = noRuntimeSpec, app = noAppSpec, worker = noWorkerSpec, proxy =
     noProxySpec, ingress = noIngressSpec, redis = noRedisSpec, search = noSearchSpec,
     postgres = noPostgresSpec, migration = noMigrationSpec, setupPassword = None,
     extraConfig = [], objectStorage = None, sensitiveDetector = None, network =
     noNetworkSpec, tenancy = noTenancySpec, monitoring = noMonitoringSpec, performance =
     noPerformanceSpec, outboundProxy = noOutboundProxySpec, files = noFilesSpec\<rparr>"

definition noMisskeyStatus :: misskeyStatus where
  "noMisskeyStatus =
     \<lparr>st_conditions = [], st_phase = [], st_observedGeneration = 0, st_databaseHost = [],
     st_redisHost = [], st_searchIndex = [], st_backupVerification = None, st_backup =
     None, st_image = []\<rparr>"

definition noMisskeyChannelSpec :: misskeyChannelSpec where
  "noMisskeyChannelSpec =
     \<lparr>ch_image = [], ch_rollout = None, ch_trackImageDigest = False\<rparr>"

definition noMisskeyChannelStatus :: misskeyChannelStatus where
  "noMisskeyChannelStatus =
     \<lparr>cs_image = [], cs_previousImage = [], cs_imageChangedAt = 0, cs_instances = 0,
     cs_updatedInstances = 0, cs_observedGeneration = 0\<rparr>"

lemmas zero_defs = noRuntimeSpec_def noComponentSpec_def noAppSpec_def noWorkerSpec_def noMaintenanceSpec_def noProxySpec_def noIngressSpec_def noRedisSpec_def noMeilisearchSpec_def noSearchSpec_def noPostgresSpec_def noMigrationSpec_def noNetworkIsolationSpec_def noEgressIsolationSpec_def noNetworkSpec_def noTenancySpec_def noMonitoringSpec_def noPerformanceSpec_def noOutboundProxySpec_def noFilesSpec_def noMisskeySpec_def noMisskeyStatus_def noMisskeyChannelSpec_def noMisskeyChannelStatus_def

definition sampleOf :: "misskeySpec \<Rightarrow> misskey" where
  "sampleOf sp = \<lparr>mk_meta = newMeta ''ns'' ''mi'', spec = sp, status = noMisskeyStatus\<rparr>"

definition sample :: misskey where
  "sample = sampleOf noMisskeySpec"

lemma sample_simps [simp]:
  "mk_meta (sampleOf sp) = newMeta ''ns'' ''mi''" "spec (sampleOf sp) = sp" "status (sampleOf sp) = noMisskeyStatus"
  by (simp_all add: sampleOf_def)

lemma newMeta_simps [simp]:
  "om_name (newMeta ns n) = n" "om_namespace (newMeta ns n) = ns" "om_uid (newMeta ns n) = []"
  "om_annotations (newMeta ns n) = []" "om_finalizers (newMeta ns n) = []" "om_generation (newMeta ns n) = 0"
  by (simp_all add: newMeta_def)

lemmas sample_defs = sample_def zero_defs

end
