(* ===== verification/Common.thy ===== *)
theory Common
  imports Kube
begin

section \<open>Names, labels, defaults and generated secrets (common.go, runtime.go)\<close>

text \<open>
  The deterministic names and labels of an instance's children, the defaulting helpers, the
  config checksum, the security contexts every managed Pod shares, and the rotation
  protocol of the Secrets the operator generates (the Secrets themselves are in \<open>Secrets\<close>).
\<close>

subsection \<open>Mutating an object inside CreateOrUpdate\<close>

definition setBody :: "body \<Rightarrow> kobj \<Rightarrow> kobj" where
  "setBody b x = x\<lparr>ko_body := b\<rparr>"

lemma setBody_simps [simp]:
  "ko_kind (setBody b x) = ko_kind x" "kname (setBody b x) = kname x"
  "knamespace (setBody b x) = knamespace x" "ko_body (setBody b x) = b"
  "klabels (setBody b x) = klabels x" "kannotations (setBody b x) = kannotations x"
  by (simp_all add: setBody_def)

definition ret :: "kobj \<Rightarrow> (error + kobj) io" where
  "ret x = Ret (Inr x)"

subsection \<open>Defaults\<close>

definition replicasOr :: "int32 option \<Rightarrow> int32 \<Rightarrow> int32 option" where
  "replicasOr p def = (case p of None \<Rightarrow> Some def | Some v \<Rightarrow> Some v)"

definition boolOr :: "bool option \<Rightarrow> bool \<Rightarrow> bool" where
  "boolOr p def = (case p of None \<Rightarrow> def | Some b \<Rightarrow> b)"

definition stringOr :: "string \<Rightarrow> string \<Rightarrow> string" where
  "stringOr s def = (if s = [] then def else s)"

definition int32OrDefault :: "int32 \<Rightarrow> int32 \<Rightarrow> int32" where
  "int32OrDefault v def = (if v = 0 then def else v)"

definition quantityOr :: "libs \<Rightarrow> quantity \<Rightarrow> string \<Rightarrow> quantity" where
  "quantityOr L q def = (if q = 0 then l_mustParse L def else q)"

definition resourcesOr ::
  "libs \<Rightarrow> resourceRequirements \<Rightarrow> string \<Rightarrow> string \<Rightarrow> string \<Rightarrow> resourceRequirements" where
  "resourcesOr L r reqCPU reqMem limMem =
     (if length (rr_requests r) > 0 \<or> length (rr_limits r) > 0 then r
      else \<lparr>rr_requests = [(''cpu'', l_mustParse L reqCPU), (''memory'', l_mustParse L reqMem)],
            rr_limits = [(''memory'', l_mustParse L limMem)], rr_claims = []\<rparr>)"

lemma boolOr_simps [simp]: "boolOr None d = d" "boolOr (Some b) d = b"
  by (simp_all add: boolOr_def)

lemma stringOr_simps [simp]: "stringOr [] d = d" "s \<noteq> [] \<Longrightarrow> stringOr s d = s"
  by (simp_all add: stringOr_def)

text \<open>
  \<^verbatim>\<open>fmt\<close>'s verb \<^verbatim>\<open>%q\<close> on a string, used in error texts only: exact on ASCII; other
  bytes are passed through, as Go does with printable UTF-8.
\<close>

definition quoteChar :: "char \<Rightarrow> string" where
  "quoteChar c = (let n = byte c in
     if n = 0x22 \<or> n = 0x5C then [CHR 0x5C, c]
     else if 7 \<le> n \<and> n \<le> 13 then [CHR 0x5C, ''abtnvfr'' ! (n - 7)]
     else if n < 0x20 \<or> n = 0x7F then [CHR 0x5C, CHR ''x''] @ hexByte c
     else [c])"

definition quoteGo :: "string \<Rightarrow> string" where
  "quoteGo s = [dq] @ concat (map quoteChar s) @ [dq]"

subsection \<open>Ports and fixed identifiers\<close>

definition misskeyPort :: int32 where "misskeyPort = 3000"
definition proxyPort :: int32 where "proxyPort = 8080"
definition proxyMetricsPort :: int32 where "proxyMetricsPort = 9180"
definition redisPort :: int32 where "redisPort = 6379"
definition sentinelPort :: int32 where "sentinelPort = 26379"
definition meiliPort :: int32 where "meiliPort = 7700"
definition sensitiveDetectorPort :: int32 where "sensitiveDetectorPort = 3009"
definition postgresPort :: int32 where "postgresPort = 5432"
definition meiliMasterKeyID :: string where "meiliMasterKeyID = ''MEILI_MASTER_KEY''"
definition setupPasswordID :: string where "setupPasswordID = ''SETUP_PASSWORD''"
definition sensitiveDetectorAPIKeyID :: string where
  "sensitiveDetectorAPIKeyID = ''SENSITIVE_DETECTOR_API_KEY''"
definition redisMasterGroup :: string where "redisMasterGroup = ''mymaster''"
definition genericNonRootUID :: int64 where "genericNonRootUID = 1000"

lemmas port_defs = misskeyPort_def proxyPort_def proxyMetricsPort_def redisPort_def
  sentinelPort_def meiliPort_def sensitiveDetectorPort_def postgresPort_def

subsection \<open>Labels\<close>

definition tenantOf :: "misskey \<Rightarrow> string" where
  "tenantOf m = stringOr (tenant (spec m)) (mnamespace m)"

definition labelsFor :: "misskey \<Rightarrow> string \<Rightarrow> strmap" where
  "labelsFor m component =
     [(''app.kubernetes.io/name'', ''misskey''),
      (''app.kubernetes.io/instance'', mname m),
      (''app.kubernetes.io/component'', component),
      (''app.kubernetes.io/managed-by'', ''cloudnative-misskey''),
      (''cloudnative-misskey.dev/tenant'', tenantOf m)]"

definition selectorFor :: "misskey \<Rightarrow> string \<Rightarrow> strmap" where
  "selectorFor m component =
     [(''app.kubernetes.io/instance'', mname m), (''app.kubernetes.io/component'', component)]"

text \<open>A label selector accepts an object whose labels carry every pair of the selector.\<close>

definition selects :: "strmap \<Rightarrow> strmap \<Rightarrow> bool" where
  "selects sel ls \<longleftrightarrow> list_all (\<lambda>(k, v). map_of ls k = Some v) sel"

lemma selects_labelsFor [simp]:
  "selects (selectorFor m c) (labelsFor m' c') \<longleftrightarrow> mname m = mname m' \<and> c = c'"
  by (auto simp: selects_def selectorFor_def labelsFor_def)

subsection \<open>Names of the children\<close>

definition nameApp :: "misskey \<Rightarrow> string" where "nameApp m = mname m @ ''-app''"
definition nameWorker :: "misskey \<Rightarrow> string" where "nameWorker m = mname m @ ''-worker''"
definition nameProxy :: "misskey \<Rightarrow> string" where "nameProxy m = mname m @ ''-proxy''"
definition nameMaintenance :: "misskey \<Rightarrow> string" where "nameMaintenance m = mname m @ ''-maintenance''"
definition nameRedis :: "misskey \<Rightarrow> string" where "nameRedis m = mname m @ ''-redis''"

definition nameRedisInstance :: "misskey \<Rightarrow> string \<Rightarrow> string" where
  "nameRedisInstance m suffix = (if suffix = [] then nameRedis m else nameRedis m @ ''-'' @ suffix)"

definition nameRedisHA :: "misskey \<Rightarrow> string \<Rightarrow> string" where
  "nameRedisHA m suffix = nameRedisInstance m suffix @ ''-ha''"

definition nameRedisSentinelService :: "misskey \<Rightarrow> string \<Rightarrow> string" where
  "nameRedisSentinelService m suffix = nameRedisHA m suffix @ ''-sentinel''"

definition redisComponent :: "string \<Rightarrow> string" where
  "redisComponent suffix = (if suffix = [] then ''redis'' else ''redis-'' @ suffix)"

record redisRoleDesc =
  rdd_key :: string
  rdd_nameSuffix :: string
  rdd_configKey :: string
  rdd_passEnv :: string
  rdd_get :: "redisRoles \<Rightarrow> redisRole option"

definition redisRoleDescs :: "redisRoleDesc list" where
  "redisRoleDescs =
     [\<lparr>rdd_key = ''jobQueue'', rdd_nameSuffix = ''jobqueue'', rdd_configKey = ''redisForJobQueue'',
       rdd_passEnv = ''REDIS_PASSWORD_JOBQUEUE'', rdd_get = rl_jobQueue\<rparr>,
      \<lparr>rdd_key = ''pubsub'', rdd_nameSuffix = ''pubsub'', rdd_configKey = ''redisForPubsub'',
       rdd_passEnv = ''REDIS_PASSWORD_PUBSUB'', rdd_get = rl_pubsub\<rparr>,
      \<lparr>rdd_key = ''timelines'', rdd_nameSuffix = ''timelines'', rdd_configKey = ''redisForTimelines'',
       rdd_passEnv = ''REDIS_PASSWORD_TIMELINES'', rdd_get = rl_timelines\<rparr>,
      \<lparr>rdd_key = ''reactions'', rdd_nameSuffix = ''reactions'', rdd_configKey = ''redisForReactions'',
       rdd_passEnv = ''REDIS_PASSWORD_REACTIONS'', rdd_get = rl_reactions\<rparr>]"

definition allRedisSuffixes :: "string list" where
  "allRedisSuffixes = [] # map rdd_nameSuffix redisRoleDescs"

definition nameMeili :: "misskey \<Rightarrow> string" where "nameMeili m = mname m @ ''-meilisearch''"
definition nameDB :: "misskey \<Rightarrow> string" where "nameDB m = mname m @ ''-db''"
definition nameConfig :: "misskey \<Rightarrow> string" where "nameConfig m = mname m @ ''-config''"
definition nameMaintenanceHTML :: "misskey \<Rightarrow> string" where
  "nameMaintenanceHTML m = mname m @ ''-maintenance-html''"
definition nameSetup :: "misskey \<Rightarrow> string" where "nameSetup m = mname m @ ''-setup''"
definition nameSensitiveDetector :: "misskey \<Rightarrow> string" where
  "nameSensitiveDetector m = mname m @ ''-sensitive-detector''"

definition imageHash :: "string \<Rightarrow> string" where
  "imageHash img = take 10 (hexEncode (sha256 img))"

definition nameMigrate :: "misskey \<Rightarrow> string" where
  "nameMigrate m = mname m @ ''-migrate-'' @ imageHash (image (spec m))"

definition nameDBVerify :: "misskey \<Rightarrow> string" where "nameDBVerify m = nameDB m @ ''-verify''"
definition nameDBService :: "misskey \<Rightarrow> string" where "nameDBService m = nameDB m @ ''-rw''"
definition nameDBReadService :: "misskey \<Rightarrow> string" where "nameDBReadService m = nameDB m @ ''-ro''"
definition nameDBPoolerRW :: "misskey \<Rightarrow> string" where "nameDBPoolerRW m = nameDB m @ ''-pooler-rw''"
definition nameDBPoolerRO :: "misskey \<Rightarrow> string" where "nameDBPoolerRO m = nameDB m @ ''-pooler-ro''"
definition nameMigrateConfig :: "misskey \<Rightarrow> string" where
  "nameMigrateConfig m = mname m @ ''-migrate-config''"

definition namePreBackup :: "misskey \<Rightarrow> string" where
  "namePreBackup m = mname m @ ''-premigrate-'' @ imageHash (image (spec m))"

definition nameRedisAuthSecret :: "misskey \<Rightarrow> string" where
  "nameRedisAuthSecret m = mname m @ ''-redis-auth''"

definition nameDBAppSecret :: "misskey \<Rightarrow> string" where "nameDBAppSecret m = nameDB m @ ''-app''"

definition nameObjectStorage :: "misskey \<Rightarrow> string \<Rightarrow> string" where
  "nameObjectStorage m hash = mname m @ ''-objstorage-'' @ take 10 hash"

definition nameObjectStorageSQL :: "misskey \<Rightarrow> string" where
  "nameObjectStorageSQL m = mname m @ ''-objstorage-sql''"

definition nameSensitiveDetectorConfigJob :: "misskey \<Rightarrow> string \<Rightarrow> string" where
  "nameSensitiveDetectorConfigJob m hash = mname m @ ''-sensitive-detector-config-'' @ take 10 hash"

definition nameSensitiveDetectorConfig :: "misskey \<Rightarrow> string" where
  "nameSensitiveDetectorConfig m = mname m @ ''-sensitive-detector-config''"

lemmas redis_name_defs = nameRedis_def nameRedisInstance_def nameRedisHA_def nameRedisSentinelService_def

lemmas db_name_defs = nameDB_def nameDBVerify_def nameDBService_def nameDBReadService_def
  nameDBPoolerRW_def nameDBPoolerRO_def nameDBAppSecret_def

lemma length_imageHash [simp]: "length (imageHash i) = 10"
  by (simp add: imageHash_def)

text \<open>
  A role's suffix determines the names of its objects, so two Redis instances of one
  Misskey never share a StatefulSet, a HA resource or a Service.
\<close>

lemma inj_nameRedisInstance: "nameRedisInstance m s = nameRedisInstance m s' \<longleftrightarrow> s = s'"
  by (auto simp: redis_name_defs)

lemma distinct_redisRoleDescs:
  "distinct (map rdd_key redisRoleDescs)" "distinct (map rdd_nameSuffix redisRoleDescs)"
  "distinct (map rdd_configKey redisRoleDescs)" "distinct (map rdd_passEnv redisRoleDescs)"
  "[] \<notin> rdd_nameSuffix ` set redisRoleDescs"
  by (simp_all add: redisRoleDescs_def)

subsection \<open>Pod templates\<close>

definition configChecksumAnnotation :: string where
  "configChecksumAnnotation = ''cloudnative-misskey.dev/config-checksum''"

definition checksumInput :: "string list \<Rightarrow> string" where
  "checksumInput parts = concat (map (\<lambda>p. p @ [CHR 0x00]) parts)"

definition checksumAnnotation :: "string list \<Rightarrow> strmap" where
  "checksumAnnotation parts = [(configChecksumAnnotation, hexEncode (sha256 (checksumInput parts)))]"

definition nonRootPodSecurityContext :: "int64 \<Rightarrow> podSecurityContext" where
  "nonRootPodSecurityContext uid =
     \<lparr>psc_runAsNonRoot = Some True, psc_runAsUser = Some uid, psc_fsGroup = Some uid,
      psc_seccompProfile = ''RuntimeDefault''\<rparr>"

definition restrictedContainerSecurityContext :: securityContext where
  "restrictedContainerSecurityContext =
     \<lparr>sc_allowPrivilegeEscalation = Some False, sc_readOnlyRootFilesystem = Some True,
      sc_capabilitiesDrop = [''ALL'']\<rparr>"

definition tmpVolume :: volume where
  "tmpVolume = \<lparr>vol_name = ''tmp'', vol_source = EmptyDirVolume\<rparr>"

definition tmpMount :: volumeMount where
  "tmpMount = \<lparr>vm_name = ''tmp'', vm_mountPath = ''/tmp'', vm_subPath = [], vm_readOnly = False\<rparr>"

definition spreadConstraints :: "strmap \<Rightarrow> topologySpreadConstraint list" where
  "spreadConstraints matchLabels =
     [\<lparr>ts_maxSkew = 1, ts_topologyKey = ''kubernetes.io/hostname'',
       ts_whenUnsatisfiable = ''ScheduleAnyway'', ts_matchLabels = matchLabels\<rparr>]"

text \<open>
  The separator makes the concatenation injective on parts without NUL bytes: two config
  states that differ in any part are hashed from different inputs.
\<close>

lemma takeWhile_sep: "c \<notin> set p \<Longrightarrow> takeWhile (\<lambda>x. x \<noteq> c) (p @ c # s) = p"
  by (induction p) auto

lemma checksumInput_inj:
  assumes "\<forall>p\<in>set ps \<union> set qs. CHR 0x00 \<notin> set p" and "checksumInput ps = checksumInput qs"
  shows "ps = qs"
  using assms
proof (induction ps arbitrary: qs)
  case Nil
  then show ?case by (cases qs) (auto simp: checksumInput_def)
next
  case (Cons p ps)
  from Cons.prems obtain q qs' where qs: "qs = q # qs'"
    by (cases qs) (auto simp: checksumInput_def)
  have eq: "p @ CHR 0x00 # checksumInput ps = q @ CHR 0x00 # checksumInput qs'"
    using Cons.prems(2) qs by (simp add: checksumInput_def)
  have "p = takeWhile (\<lambda>c. c \<noteq> CHR 0x00) (p @ CHR 0x00 # checksumInput ps)"
    using Cons.prems(1) by (simp add: takeWhile_sep)
  also have "\<dots> = q" unfolding eq using Cons.prems(1) qs by (simp add: takeWhile_sep)
  finally have "p = q" .
  with eq Cons.IH [of qs'] Cons.prems(1) qs show ?case by simp
qed

subsection \<open>Runtime defaults (runtime.go)\<close>

definition defaultMisskeyUID :: int64 where "defaultMisskeyUID = 991"
definition defaultConfigPath :: string where "defaultConfigPath = ''/misskey/.config/default.yml''"
definition defaultBuiltPath :: string where "defaultBuiltPath = ''/misskey/built''"
definition defaultHealthPath :: string where "defaultHealthPath = ''/api/server-info''"

definition migrationConcurrentIndexes :: "misskey \<Rightarrow> bool" where
  "migrationConcurrentIndexes m = boolOr (mg_createIndexConcurrently (migration (spec m))) False"

definition runtimeUID :: "misskey \<Rightarrow> int64" where
  "runtimeUID m = (case rt_runAsUser (runtimeS (spec m)) of Some u \<Rightarrow> u | None \<Rightarrow> defaultMisskeyUID)"

definition runtimeStartCommand :: "misskey \<Rightarrow> string list" where
  "runtimeStartCommand m =
     (let c = rt_startCommand (runtimeS (spec m)) in
      if length c > 0 then c else [''pnpm'', ''run'', ''start''])"

definition runtimeMigrateCommand :: "misskey \<Rightarrow> string list" where
  "runtimeMigrateCommand m =
     (let c = rt_migrateCommand (runtimeS (spec m)) in
      if length c > 0 then c else [''pnpm'', ''run'', ''migrate''])"

definition runtimeHealthPath :: "misskey \<Rightarrow> string" where
  "runtimeHealthPath m = stringOr (rt_healthPath (runtimeS (spec m))) defaultHealthPath"

definition runtimeConfigPath :: "misskey \<Rightarrow> string" where
  "runtimeConfigPath m = stringOr (rt_configPath (runtimeS (spec m))) defaultConfigPath"

definition runtimeBuiltPath :: "misskey \<Rightarrow> string" where
  "runtimeBuiltPath m = (case rt_builtPath (runtimeS (spec m)) of Some p \<Rightarrow> p | None \<Rightarrow> defaultBuiltPath)"

subsection \<open>Secret versions and rotation\<close>

definition secretVersion :: "string \<Rightarrow> string \<Rightarrow> (error + string) io" where
  "secretVersion ns name =
     bnd (kget KSecret ns name) (\<lambda>r. case r of
       Inr s \<Rightarrow> Ret (Inr (name @ '':'' @ om_resourceVersion (ko_meta s)))
     | Inl e \<Rightarrow> if isNotFound e then Ret (Inr (name @ '':missing'')) else Ret (Inl e))"

lemma secretVersion_calls [calls_intros]: "(\<And>n. P (QGet KSecret ns n)) \<Longrightarrow> calls P (secretVersion ns n)"
  unfolding secretVersion_def by (intro calls_intros)

definition rotateAnnotation :: string where
  "rotateAnnotation = ''cloudnative-misskey.dev/rotate''"

definition rotationRequested :: "misskey \<Rightarrow> kobj \<Rightarrow> bool" where
  "rotationRequested m secret =
     (let want = mget (om_annotations (mk_meta m)) rotateAnnotation in
      want \<noteq> [] \<and> mget (kannotations secret) rotateAnnotation \<noteq> want)"

definition markRotation :: "misskey \<Rightarrow> kobj \<Rightarrow> kobj" where
  "markRotation m secret =
     (let want = mget (om_annotations (mk_meta m)) rotateAnnotation in
      if want = [] then secret
      else withAnnotations (mset rotateAnnotation want (kannotations secret)) secret)"

lemma markRotation_simps [simp]:
  "ko_kind (markRotation m s) = ko_kind s" "kname (markRotation m s) = kname s"
  "knamespace (markRotation m s) = knamespace s" "ko_body (markRotation m s) = ko_body s"
  "klabels (markRotation m s) = klabels s"
  by (simp_all add: markRotation_def Let_def)

text \<open>After the mark a second reconcile does not rotate again.\<close>

lemma markRotation_settles [simp]: "\<not> rotationRequested m (markRotation m s)"
  by (auto simp: rotationRequested_def markRotation_def Let_def)

end
