(* ===== verification/Digest.thy ===== *)
theory Digest
  imports Common
begin

section \<open>The digest cache (imagedigest.go)\<close>

text \<open>
  \<^verbatim>\<open>Pinned\<close> resolves a tag to a digest through a cache that both controllers share. Its
  two critical sections are the requests \<open>QCacheGet\<close> and \<open>QCachePut\<close>; what happens inside
  them (\<^verbatim>\<open>evictLocked\<close> and the assignment) is \<open>putLocked\<close>. The cache is an association
  list whose order stands for Go's iteration order, and the clock read for each entry in
  \<^verbatim>\<open>evictLocked\<close> is a function of its key, so no two readings are assumed equal.

  The last sections interleave any number of callers as a step relation and show by rule
  induction that the cache stays within its bound and that a caller is never handed a
  digest that was resolved under another tenant's credentials.
\<close>

type_synonym digestCache = "(string \<times> digestEntry) list"

definition digestResolveTTL :: duration where "digestResolveTTL = 5 * minute"
definition digestResolveTimeout :: duration where "digestResolveTimeout = 10 * second"
definition maxCacheEntries :: nat where "maxCacheEntries = 1024"

definition cacheKey :: "string \<Rightarrow> string \<Rightarrow> string" where
  "cacheKey img keyID = img @ [CHR 0x00] @ keyID"

definition newDigestResolver :: digestCache where "newDigestResolver = []"

text \<open>
  What the resolver asks a registry. Parsing a reference, the default keychain and the HEAD
  request with its deadline are the registry client's and are arguments.
\<close>

definition registryHead ::
  "(string \<Rightarrow> error + 'ref) \<Rightarrow> (duration \<Rightarrow> 'ref \<Rightarrow> 'kc \<Rightarrow> error + string) \<Rightarrow> 'kc \<Rightarrow> string \<Rightarrow> 'kc option \<Rightarrow> error + string" where
  "registryHead parseReference remoteHead defaultKeychain img keychain =
     (case parseReference img of
        Inl err \<Rightarrow> Inl (ErrWrap (''parse image '' @ quoteGo img) err)
      | Inr ref \<Rightarrow>
          (case remoteHead digestResolveTimeout ref (case keychain of None \<Rightarrow> defaultKeychain | Some k \<Rightarrow> k) of
             Inl err \<Rightarrow> Inl (ErrWrap (''resolve digest of '' @ quoteGo img) err)
           | Inr digest \<Rightarrow> Inr digest))"

subsection \<open>The critical section of a store\<close>

definition deleteKey :: "string \<Rightarrow> (string \<times> 'v) list \<Rightarrow> (string \<times> 'v) list" where
  "deleteKey k c = filter (\<lambda>(k', _). k' \<noteq> k) c"

definition expired :: "(string \<Rightarrow> gotime) \<Rightarrow> string \<times> digestEntry \<Rightarrow> bool" where
  "expired clk ke \<longleftrightarrow> timeSub (clk (fst ke)) (de_resolvedAt (snd ke)) \<ge> digestResolveTTL"

fun oldestFrom :: "string \<Rightarrow> gotime \<Rightarrow> bool \<Rightarrow> digestCache \<Rightarrow> string" where
  "oldestFrom key t first [] = key"
| "oldestFrom key t first ((k, e) # c) =
     (if first \<or> de_resolvedAt e < t then oldestFrom k (de_resolvedAt e) False c
      else oldestFrom key t first c)"

definition evictLocked :: "(string \<Rightarrow> gotime) \<Rightarrow> digestCache \<Rightarrow> digestCache" where
  "evictLocked clk c =
     (if length c < maxCacheEntries then c
      else
        (let c1 = filter (\<lambda>ke. \<not> expired clk ke) c in
         if length c1 < maxCacheEntries then c1
         else deleteKey (oldestFrom [] 0 True c1) c1))"

definition putLocked :: "(string \<Rightarrow> gotime) \<Rightarrow> gotime \<Rightarrow> string \<Rightarrow> string \<Rightarrow> digestCache \<Rightarrow> digestCache" where
  "putLocked clk now key digest c =
     mset key \<lparr>de_digest = digest, de_resolvedAt = now\<rparr> (evictLocked clk c)"

subsection \<open>Pinned\<close>

definition pinnedStore :: "string \<Rightarrow> string \<Rightarrow> string \<Rightarrow> (error + string) io" where
  "pinnedStore img keyID digest =
     Call (QCachePut (cacheKey img keyID) digest) (\<lambda>_. Ret (Inr (img @ ''@'' @ digest)))"

definition pinnedHead ::
  "string \<Rightarrow> kobj list option \<Rightarrow> string \<Rightarrow> digestEntry option \<Rightarrow> (error + string) io" where
  "pinnedHead img keychain keyID entry =
     Call (QHead img keychain) (\<lambda>r. case asStr r of
       Inl err \<Rightarrow> (case entry of Some e \<Rightarrow> Ret (Inr (img @ ''@'' @ de_digest e)) | None \<Rightarrow> Ret (Inl err))
     | Inr digest \<Rightarrow> pinnedStore img keyID digest)"

definition pinnedLookup ::
  "string \<Rightarrow> kobj list option \<Rightarrow> string \<Rightarrow> digestEntry option \<Rightarrow> (error + string) io" where
  "pinnedLookup img keychain keyID entry =
     (case entry of
        Some e \<Rightarrow>
          Call QNow (\<lambda>r. if timeSub (asTime r) (de_resolvedAt e) < digestResolveTTL
                         then Ret (Inr (img @ ''@'' @ de_digest e))
                         else pinnedHead img keychain keyID entry)
      | None \<Rightarrow> pinnedHead img keychain keyID entry)"

definition Pinned :: "string \<Rightarrow> kobj list option \<Rightarrow> string \<Rightarrow> (error + string) io" where
  "Pinned img keychain keyID =
     (if contains img ''@'' then Ret (Inr img)
      else Call (QCacheGet (cacheKey img keyID)) (\<lambda>r. pinnedLookup img keychain keyID (asEntry r)))"

lemmas pinned_defs = Pinned_def pinnedLookup_def pinnedHead_def pinnedStore_def

subsection \<open>Eviction\<close>

lemma deleteKey_length: "k \<in> fst ` set c \<Longrightarrow> length (deleteKey k c) < length c"
proof -
  assume "k \<in> fst ` set c"
  then obtain v where "(k, v) \<in> set c" by auto
  then show ?thesis unfolding deleteKey_def by (intro length_filter_less [of "(k, v)"]) auto
qed

lemma deleteKey_keys [simp]: "fst ` set (deleteKey k c) = fst ` set c - {k}"
  by (auto simp: deleteKey_def image_iff)

lemma deleteKey_distinct: "distinct (map fst c) \<Longrightarrow> distinct (map fst (deleteKey k c))"
  unfolding deleteKey_def by (rule distinct_map_filter)

lemma oldestFrom_min:
  "\<exists>e. (oldestFrom key (de_resolvedAt e0) False c, e) \<in> insert (key, e0) (set c)
     \<and> (\<forall>x\<in>insert (key, e0) (set c). de_resolvedAt e \<le> de_resolvedAt (snd x))"
proof (induction c arbitrary: key e0)
  case Nil
  show ?case by simp
next
  case (Cons ke c)
  obtain k e1 where ke: "ke = (k, e1)" by force
  show ?case
  proof (cases "de_resolvedAt e1 < de_resolvedAt e0")
    case True
    obtain e where "(oldestFrom k (de_resolvedAt e1) False c, e) \<in> insert (k, e1) (set c)"
      "\<forall>x\<in>insert (k, e1) (set c). de_resolvedAt e \<le> de_resolvedAt (snd x)"
      using Cons.IH by blast
    with True ke show ?thesis by (intro exI [of _ e]) auto
  next
    case False
    obtain e where "(oldestFrom key (de_resolvedAt e0) False c, e) \<in> insert (key, e0) (set c)"
      "\<forall>x\<in>insert (key, e0) (set c). de_resolvedAt e \<le> de_resolvedAt (snd x)"
      using Cons.IH by blast
    with False ke show ?thesis by (intro exI [of _ e]) auto
  qed
qed

lemma oldestFrom_oldest:
  assumes "c \<noteq> []"
  obtains e where "(oldestFrom [] 0 True c, e) \<in> set c"
    "\<forall>x\<in>set c. de_resolvedAt e \<le> de_resolvedAt (snd x)"
proof -
  obtain k e0 c' where c: "c = (k, e0) # c'" using assms by (cases c) auto
  obtain e where "(oldestFrom k (de_resolvedAt e0) False c', e) \<in> insert (k, e0) (set c')"
    "\<forall>x\<in>insert (k, e0) (set c'). de_resolvedAt e \<le> de_resolvedAt (snd x)"
    using oldestFrom_min by blast
  with c that show thesis by simp
qed

lemma evict_room: "length (evictLocked clk c) < maxCacheEntries \<or> length (evictLocked clk c) < length c"
proof -
  let ?c1 = "filter (\<lambda>ke. \<not> expired clk ke) c"
  have "length (deleteKey (oldestFrom [] 0 True ?c1) ?c1) < length c" if "\<not> length ?c1 < maxCacheEntries"
  proof -
    have "?c1 \<noteq> []" using that by (auto simp: maxCacheEntries_def)
    then obtain e where "(oldestFrom [] 0 True ?c1, e) \<in> set ?c1" by (rule oldestFrom_oldest)
    then have "length (deleteKey (oldestFrom [] 0 True ?c1) ?c1) < length ?c1"
      by (intro deleteKey_length) force
    also have "\<dots> \<le> length c" by (rule length_filter_le)
    finally show ?thesis .
  qed
  then show ?thesis by (auto simp: evictLocked_def Let_def)
qed

lemma evict_subset: "set (evictLocked clk c) \<subseteq> set c"
  by (auto simp: evictLocked_def Let_def deleteKey_def)

lemma evict_distinct: "distinct (map fst c) \<Longrightarrow> distinct (map fst (evictLocked clk c))"
  by (auto simp: evictLocked_def Let_def deleteKey_def intro!: distinct_map_filter)

text \<open>The invariant of the cache: at most \<^verbatim>\<open>maxCacheEntries\<close> entries, one per key.\<close>

definition cacheOk :: "digestCache \<Rightarrow> bool" where
  "cacheOk c \<longleftrightarrow> length c \<le> maxCacheEntries \<and> distinct (map fst c)"

lemma mset_length: "length (mset k v c) \<le> Suc (length c)"
  by (induction c) auto

lemma mset_keys: "fst ` set (mset k v c) = insert k (fst ` set c)"
  by (induction k v c rule: mset.induct) (simp_all add: insert_commute)

lemma mset_distinct: "distinct (map fst c) \<Longrightarrow> distinct (map fst (mset k v c))"
proof (induction c)
  case (Cons x c)
  then show ?case using mset_keys [of k v c] by (cases x) auto
qed simp

lemma mset_in: "x \<in> set (mset k v c) \<Longrightarrow> x = (k, v) \<or> x \<in> set c"
  by (induction c) (auto split: if_splits)

lemma putLocked_ok: "cacheOk c \<Longrightarrow> cacheOk (putLocked clk now key d c)"
  unfolding cacheOk_def putLocked_def
  using evict_room [of clk c] mset_length [of key "\<lparr>de_digest = d, de_resolvedAt = now\<rparr>" "evictLocked clk c"]
  by (auto intro!: mset_distinct evict_distinct)

lemma putLocked_in:
  "x \<in> set (putLocked clk now key d c) \<Longrightarrow> x = (key, \<lparr>de_digest = d, de_resolvedAt = now\<rparr>) \<or> x \<in> set c"
  using mset_in [of x key _ "evictLocked clk c"] evict_subset [of clk c] by (auto simp: putLocked_def)

lemma putLocked_lookup: "map_of (putLocked clk now key d c) key = Some \<lparr>de_digest = d, de_resolvedAt = now\<rparr>"
  by (simp add: putLocked_def)

text \<open>
  What an eviction removes: nothing while there is room; otherwise the expired entries, and
  only when none is expired a single entry, one of the oldest.
\<close>

lemma evict_spec:
  assumes "cacheOk c"
  shows "length c < maxCacheEntries \<Longrightarrow> evictLocked clk c = c"
    and "length c = maxCacheEntries \<Longrightarrow> \<exists>ke\<in>set c. expired clk ke \<Longrightarrow>
           evictLocked clk c = filter (\<lambda>ke. \<not> expired clk ke) c"
    and "length c = maxCacheEntries \<Longrightarrow> \<forall>ke\<in>set c. \<not> expired clk ke \<Longrightarrow>
           \<exists>k e. (k, e) \<in> set c \<and> evictLocked clk c = deleteKey k c \<and>
             (\<forall>x\<in>set c. de_resolvedAt e \<le> de_resolvedAt (snd x))"
proof -
  show "evictLocked clk c = c" if "length c < maxCacheEntries"
    using that by (simp add: evictLocked_def)
  show "evictLocked clk c = filter (\<lambda>ke. \<not> expired clk ke) c"
    if "length c = maxCacheEntries" "\<exists>ke\<in>set c. expired clk ke"
  proof -
    from that(2) have "length (filter (\<lambda>ke. \<not> expired clk ke) c) < length c"
      by (auto intro: length_filter_less)
    with that(1) show ?thesis by (simp add: evictLocked_def Let_def)
  qed
  show "\<exists>k e. (k, e) \<in> set c \<and> evictLocked clk c = deleteKey k c \<and>
      (\<forall>x\<in>set c. de_resolvedAt e \<le> de_resolvedAt (snd x))"
    if len: "length c = maxCacheEntries" and no: "\<forall>ke\<in>set c. \<not> expired clk ke"
  proof -
    have c1: "filter (\<lambda>ke. \<not> expired clk ke) c = c" using no by (simp add: filter_id_conv)
    have "c \<noteq> []" using len by (auto simp: maxCacheEntries_def)
    then obtain e where "(oldestFrom [] 0 True c, e) \<in> set c"
      "\<forall>x\<in>set c. de_resolvedAt e \<le> de_resolvedAt (snd x)" by (rule oldestFrom_oldest)
    with len c1 show ?thesis by (auto simp: evictLocked_def Let_def)
  qed
qed

subsection \<open>One call\<close>

text \<open>A digest that is already in the image name needs no request at all.\<close>

lemma Pinned_digest: "contains img ''@'' \<Longrightarrow> Pinned img kc kid = Ret (Inr img)"
  by (simp add: Pinned_def)

lemma runs_pinnedHead:
  "runs (pinnedHead img kc kid entry) tr res \<longleftrightarrow>
     (\<exists>r err. asStr r = Inl err \<and> tr = [(QHead img kc, r)] \<and>
        res = (case entry of Some e \<Rightarrow> Inr (img @ ''@'' @ de_digest e) | None \<Rightarrow> Inl err)) \<or>
     (\<exists>d r. tr = [(QHead img kc, RStr d), (QCachePut (cacheKey img kid) d, r)] \<and> res = Inr (img @ ''@'' @ d))"
  (is "?L \<longleftrightarrow> ?R")
proof
  assume ?L
  then obtain r t where tr: "tr = (QHead img kc, r) # t" and k: "runs (case asStr r of
      Inl err \<Rightarrow> (case entry of Some e \<Rightarrow> Ret (Inr (img @ ''@'' @ de_digest e)) | None \<Rightarrow> Ret (Inl err))
    | Inr digest \<Rightarrow> pinnedStore img kid digest) t res"
    unfolding pinnedHead_def by (auto simp: runs_Call_iff)
  then show ?R
    by (cases "asStr r"; cases entry) (auto simp: pinnedStore_def runs_Call_iff)
next
  assume ?R
  then show ?L unfolding pinnedHead_def pinnedStore_def
    by (cases entry) (auto simp: runs_Call_iff)
qed

lemma runs_pinnedLookup:
  "runs (pinnedLookup img kc kid entry) tr res \<longleftrightarrow>
     (case entry of
        None \<Rightarrow> runs (pinnedHead img kc kid None) tr res
      | Some e \<Rightarrow> \<exists>r t. tr = (QNow, r) # t \<and>
          (if timeSub (asTime r) (de_resolvedAt e) < digestResolveTTL
           then t = [] \<and> res = Inr (img @ ''@'' @ de_digest e)
           else runs (pinnedHead img kc kid entry) t res))"
  by (cases entry) (auto simp: pinnedLookup_def runs_Call_iff)

lemma Pinned_hit_ok:
  assumes "runs (Pinned img kc kid) tr res" "(QCacheGet k, REntry (Some e)) \<in> set tr"
  shows "\<exists>s. res = Inr s"
proof -
  from assms obtain r tr' where r: "runs (pinnedLookup img kc kid (asEntry r)) tr' res"
    and tr: "tr = (QCacheGet (cacheKey img kid), r) # tr'"
    by (auto simp: Pinned_def runs_Call_iff split: if_splits)
  have "(QCacheGet k, REntry (Some e)) \<notin> set tr'"
    using r by (auto simp: runs_pinnedLookup runs_pinnedHead split: option.splits if_splits)
  with assms(2) tr have "asEntry r = Some e" by (auto simp: asEntry_def)
  with r show ?thesis
    by (auto simp: runs_pinnedLookup runs_pinnedHead split: if_splits)
qed

lemma Pinned_fresh:
  assumes "runs (Pinned img kc kid) ((QCacheGet k, REntry (Some e)) # (QNow, RTime t) # tr) res"
    and "timeSub t (de_resolvedAt e) < digestResolveTTL"
  shows "tr = [] \<and> res = Inr (img @ ''@'' @ de_digest e)"
  using assms by (auto simp: pinned_defs runs_Call_iff split: if_splits)

text \<open>
  With the registry behind \<open>QHead\<close>, pinning fails only without a cached digest, and the error
  names the image.
\<close>

lemma registryHead_error:
  "registryHead parse h def img kc = Inl e \<Longrightarrow>
     \<exists>what e'. what \<in> {''parse image '', ''resolve digest of ''} \<and> e = ErrWrap (what @ quoteGo img) e'"
  by (auto simp: registryHead_def split: sum.splits)

lemma Pinned_registry_error:
  assumes "runs (Pinned img kc kid) tr (Inl e)"
    and "\<And>i k r. (QHead i k, r) \<in> set tr \<Longrightarrow> asStr r = registryHead parse h def i k"
  shows "\<exists>what e'. what \<in> {''parse image '', ''resolve digest of ''} \<and> e = ErrWrap (what @ quoteGo img) e'"
proof -
  obtain r where "(QHead img kc, r) \<in> set tr" "asStr r = Inl e"
    using assms(1) by (fastforce simp: Pinned_def runs_Call_iff runs_pinnedLookup runs_pinnedHead split: if_splits option.splits)
  with assms(2) have "registryHead parse h def img kc = Inl e" by metis
  then show ?thesis by (rule registryHead_error)
qed

subsection \<open>Interleaved callers\<close>

text \<open>
  A caller is an invocation of \<^verbatim>\<open>Pinned\<close> together with what is left of it to run; the
  registry's successful answers are logged with the invocation they were given to. Any
  caller may take the next step; a critical section is atomic, every other request gets an
  arbitrary answer.
\<close>

record caller =
  ca_image :: string
  ca_keychain :: "kobj list option"
  ca_keyID :: string
  ca_prog :: "(error + string) io"

type_synonym headLog = "(string \<times> string \<times> string) list"

type_synonym digestState = "digestCache \<times> headLog \<times> caller list"

definition newCaller :: "string \<Rightarrow> kobj list option \<Rightarrow> string \<Rightarrow> caller" where
  "newCaller img kc kid = \<lparr>ca_image = img, ca_keychain = kc, ca_keyID = kid, ca_prog = Pinned img kc kid\<rparr>"

definition logged :: "req \<Rightarrow> resp \<Rightarrow> caller \<Rightarrow> headLog" where
  "logged q r ca = (case (q, r) of (QHead i kc, RStr d) \<Rightarrow> [(i, ca_keyID ca, d)] | _ \<Rightarrow> [])"

inductive digestStep :: "digestState \<Rightarrow> digestState \<Rightarrow> bool" where
  call: "digestStep (c, lg, cs) (c, lg, cs @ [newCaller img kc kid])"
| get: "i < length cs \<Longrightarrow> ca_prog (cs ! i) = Call (QCacheGet k) f \<Longrightarrow>
     digestStep (c, lg, cs) (c, lg, cs[i := (cs ! i)\<lparr>ca_prog := f (REntry (map_of c k))\<rparr>])"
| put: "i < length cs \<Longrightarrow> ca_prog (cs ! i) = Call (QCachePut k d) f \<Longrightarrow>
     digestStep (c, lg, cs) (putLocked clk now k d c, lg, cs[i := (cs ! i)\<lparr>ca_prog := f ROk\<rparr>])"
| env: "i < length cs \<Longrightarrow> ca_prog (cs ! i) = Call q f \<Longrightarrow>
     (\<And>k. q \<noteq> QCacheGet k) \<Longrightarrow> (\<And>k d. q \<noteq> QCachePut k d) \<Longrightarrow>
     digestStep (c, lg, cs) (c, logged q r (cs ! i) @ lg, cs[i := (cs ! i)\<lparr>ca_prog := f r\<rparr>])"

inductive digestReach :: "digestState \<Rightarrow> bool" where
  init: "digestReach (newDigestResolver, [], [])"
| step: "digestReach s \<Longrightarrow> digestStep s s' \<Longrightarrow> digestReach s'"

declare newDigestResolver_def [simp]

lemma digestReach_cacheOk: "digestReach (c, lg, cs) \<Longrightarrow> cacheOk c"
proof (induction "(c, lg, cs)" arbitrary: c lg cs rule: digestReach.induct)
  case init
  then show ?case by (simp add: cacheOk_def)
next
  case (step s)
  from step(3,1,2) show ?case
    by (cases rule: digestStep.cases) (auto intro: putLocked_ok)
qed

text \<open>
  Where a caller can stand: each stage of \<^verbatim>\<open>Pinned\<close>, holding only digests the registry
  gave for the same image and the same key, or the final result built from one.
\<close>

definition honest :: "headLog \<Rightarrow> string \<Rightarrow> string \<Rightarrow> digestEntry option \<Rightarrow> bool" where
  "honest lg img kid entry \<longleftrightarrow> (\<forall>e. entry = Some e \<longrightarrow> (img, kid, de_digest e) \<in> set lg)"

definition resultOk :: "headLog \<Rightarrow> string \<Rightarrow> string \<Rightarrow> error + string \<Rightarrow> bool" where
  "resultOk lg img kid res \<longleftrightarrow> (case res of Inl _ \<Rightarrow> True
     | Inr s \<Rightarrow> contains img ''@'' \<and> s = img \<or> (\<exists>d. s = img @ ''@'' @ d \<and> (img, kid, d) \<in> set lg))"

inductive callerOk :: "headLog \<Rightarrow> caller \<Rightarrow> bool" for lg ca where
  start: "ca_prog ca = Pinned (ca_image ca) (ca_keychain ca) (ca_keyID ca) \<Longrightarrow> callerOk lg ca"
| looked: "honest lg (ca_image ca) (ca_keyID ca) entry \<Longrightarrow>
     ca_prog ca = pinnedLookup (ca_image ca) (ca_keychain ca) (ca_keyID ca) entry \<Longrightarrow> callerOk lg ca"
| head: "honest lg (ca_image ca) (ca_keyID ca) entry \<Longrightarrow>
     ca_prog ca = pinnedHead (ca_image ca) (ca_keychain ca) (ca_keyID ca) entry \<Longrightarrow> callerOk lg ca"
| store: "(ca_image ca, ca_keyID ca, d) \<in> set lg \<Longrightarrow>
     ca_prog ca = pinnedStore (ca_image ca) (ca_keyID ca) d \<Longrightarrow> callerOk lg ca"
| finished: "resultOk lg (ca_image ca) (ca_keyID ca) res \<Longrightarrow> ca_prog ca = Ret res \<Longrightarrow> callerOk lg ca"

lemma callerOk_mono: "callerOk lg ca \<Longrightarrow> set lg \<subseteq> set lg' \<Longrightarrow> callerOk lg' ca"
proof (induction rule: callerOk.induct)
  case (finished res)
  then have "resultOk lg' (ca_image ca) (ca_keyID ca) res"
    by (auto simp: resultOk_def split: sum.splits)
  then show ?case using finished callerOk.finished by blast
next
  case (looked entry)
  then show ?case by (intro callerOk.looked [of lg' ca entry]) (auto simp: honest_def)
next
  case (head entry)
  then show ?case by (intro callerOk.head [of lg' ca entry]) (auto simp: honest_def)
qed (auto intro: callerOk.intros)

lemma callerOk_RetD: "callerOk lg ca \<Longrightarrow> ca_prog ca = Ret res \<Longrightarrow> resultOk lg (ca_image ca) (ca_keyID ca) res"
  by (auto elim!: callerOk.cases simp: pinned_defs resultOk_def split: if_splits option.splits)

lemma callerOk_get:
  assumes "callerOk lg ca" "ca_prog ca = Call (QCacheGet k) f" "\<forall>e. entry = Some e \<longrightarrow> (ca_image ca, ca_keyID ca, de_digest e) \<in> set lg"
  shows "k = cacheKey (ca_image ca) (ca_keyID ca) \<and> callerOk lg (ca\<lparr>ca_prog := f (REntry entry)\<rparr>)"
  using assms(1,2)
proof cases
  case start
  with assms show ?thesis
    by (auto simp: Pinned_def honest_def split: if_splits intro!: callerOk.looked [of _ _ entry])
qed (use assms(2) in \<open>auto simp: pinned_defs split: option.splits\<close>)

lemma callerOk_put:
  assumes "callerOk lg ca" "ca_prog ca = Call (QCachePut k d) f"
  shows "k = cacheKey (ca_image ca) (ca_keyID ca) \<and> (ca_image ca, ca_keyID ca, d) \<in> set lg \<and>
    callerOk lg (ca\<lparr>ca_prog := f ROk\<rparr>)"
  using assms(1)
proof cases
  case (store d')
  with assms show ?thesis
    by (auto simp: pinnedStore_def resultOk_def intro!: callerOk.finished)
qed (use assms(2) in \<open>auto simp: pinned_defs split: option.splits if_splits\<close>)

lemma callerOk_head:
  assumes "honest lg (ca_image ca) (ca_keyID ca) entry"
    and "ca_prog ca = pinnedHead (ca_image ca) (ca_keychain ca) (ca_keyID ca) entry" "ca_prog ca = Call q f"
  shows "callerOk (logged q r ca @ lg) (ca\<lparr>ca_prog := f r\<rparr>)"
proof (cases "asStr r")
  case (Inl err)
  with assms show ?thesis
    by (cases entry) (auto simp: pinnedHead_def honest_def resultOk_def intro!: callerOk.finished)
next
  case (Inr d)
  with assms show ?thesis
    by (auto simp: pinnedHead_def logged_def intro!: callerOk.store [of _ d])
qed

lemma callerOk_env:
  assumes "callerOk lg ca" "ca_prog ca = Call q f" "\<And>k. q \<noteq> QCacheGet k" "\<And>k d. q \<noteq> QCachePut k d"
  shows "callerOk (logged q r ca @ lg) (ca\<lparr>ca_prog := f r\<rparr>)"
  using assms(1)
proof cases
  case start
  with assms show ?thesis by (auto simp: Pinned_def split: if_splits)
next
  case (looked entry)
  show ?thesis
  proof (cases entry)
    case None
    with looked assms(2) show ?thesis by (intro callerOk_head [of _ _ None]) (simp_all add: pinnedLookup_def)
  next
    case (Some e)
    let ?fresh = "timeSub (asTime r) (de_resolvedAt e) < digestResolveTTL"
    have q: "q = QNow" and f: "f r = (if ?fresh then Ret (Inr (ca_image ca @ ''@'' @ de_digest e))
        else pinnedHead (ca_image ca) (ca_keychain ca) (ca_keyID ca) entry)"
      using looked Some assms(2) by (auto simp: pinnedLookup_def)
    show ?thesis
    proof (cases ?fresh)
      case True
      with looked Some q f show ?thesis
        by (auto simp: logged_def resultOk_def honest_def intro!: callerOk.finished)
    next
      case False
      with looked q f show ?thesis
        by (auto simp: logged_def honest_def intro!: callerOk.head [of _ _ entry])
    qed
  qed
next
  case (head entry)
  with assms(2) show ?thesis by (intro callerOk_head)
next
  case (store d)
  with assms(2) have "q = QCachePut (cacheKey (ca_image ca) (ca_keyID ca)) d" by (simp add: pinnedStore_def)
  with assms(4) show ?thesis by blast
next
  case (finished res)
  with assms show ?thesis by simp
qed

text \<open>Keys without a NUL byte in the image part separate images and credentials.\<close>

lemma cacheKey_inj:
  assumes "cacheKey i k = cacheKey i' k'" "CHR 0x00 \<notin> set i" "CHR 0x00 \<notin> set i'"
  shows "i = i' \<and> k = k'"
proof -
  have "i = takeWhile (\<lambda>c. c \<noteq> CHR 0x00) (cacheKey i k)"
    using assms(2) by (simp add: cacheKey_def takeWhile_sep)
  also have "\<dots> = i'" using assms(1,3) by (simp add: cacheKey_def takeWhile_sep)
  finally have "i = i'" .
  with assms(1) show ?thesis by (simp add: cacheKey_def)
qed

definition plainImages :: "caller list \<Rightarrow> bool" where
  "plainImages cs \<longleftrightarrow> (\<forall>ca\<in>set cs. CHR 0x00 \<notin> set (ca_image ca))"

definition digestInv :: "digestState \<Rightarrow> bool" where
  "digestInv s = (case s of (c, lg, cs) \<Rightarrow>
     (\<forall>ca\<in>set cs. callerOk lg ca) \<and>
     (\<forall>(i, k, d)\<in>set lg. \<exists>ca\<in>set cs. ca_image ca = i \<and> ca_keyID ca = k) \<and>
     (\<forall>(k, e)\<in>set c. \<exists>i kid. k = cacheKey i kid \<and> (i, kid, de_digest e) \<in> set lg))"

lemma digestInv_update:
  assumes inv: "digestInv (c, lg, cs)" and i: "i < length cs"
    and lg: "set lg \<subseteq> set lg'" "\<forall>(im, k, d)\<in>set lg' - set lg. im = ca_image (cs ! i) \<and> k = ca_keyID (cs ! i)"
    and ok: "callerOk lg' ((cs ! i)\<lparr>ca_prog := p\<rparr>)"
    and c: "\<forall>(k, e)\<in>set c'. \<exists>im kid. k = cacheKey im kid \<and> (im, kid, de_digest e) \<in> set lg'"
  shows "digestInv (c', lg', cs[i := (cs ! i)\<lparr>ca_prog := p\<rparr>])"
proof -
  let ?cs = "cs[i := (cs ! i)\<lparr>ca_prog := p\<rparr>]"
  have upd: "\<exists>cb\<in>set ?cs. ca_image cb = ca_image ca \<and> ca_keyID cb = ca_keyID ca" if ca: "ca \<in> set cs" for ca
  proof -
    obtain j where j: "j < length cs" "cs ! j = ca" using ca by (meson in_set_conv_nth)
    then have "?cs ! j \<in> set ?cs" by simp
    moreover have "ca_image (?cs ! j) = ca_image ca \<and> ca_keyID (?cs ! j) = ca_keyID ca"
      using j i by (cases "j = i") auto
    ultimately show ?thesis by blast
  qed
  have "callerOk lg' ca" if "ca \<in> set ?cs" for ca
  proof -
    have "ca = (cs ! i)\<lparr>ca_prog := p\<rparr> \<or> ca \<in> set cs" using that set_update_subset_insert by fastforce
    then show ?thesis using ok inv callerOk_mono [OF _ lg(1)] by (auto simp: digestInv_def)
  qed
  moreover have "\<exists>ca\<in>set ?cs. ca_image ca = im \<and> ca_keyID ca = k" if "(im, k, d) \<in> set lg'" for im k d
  proof -
    have "\<exists>ca\<in>set cs. ca_image ca = im \<and> ca_keyID ca = k"
    proof (cases "(im, k, d) \<in> set lg")
      case True
      with inv show ?thesis by (auto simp: digestInv_def)
    next
      case False
      with that lg(2) have "im = ca_image (cs ! i) \<and> k = ca_keyID (cs ! i)" by blast
      with i show ?thesis by (intro bexI [of _ "cs ! i"]) auto
    qed
    with upd show ?thesis by metis
  qed
  ultimately show ?thesis using c by (auto simp: digestInv_def)
qed

lemma images_update: "i < length cs \<Longrightarrow> map ca_image (cs[i := (cs ! i)\<lparr>ca_prog := p\<rparr>]) = map ca_image cs"
  by (simp add: map_update) (metis list_update_id nth_map)

lemma digestStep_images:
  "digestStep s s' \<Longrightarrow> \<exists>ys. map ca_image (snd (snd s')) = map ca_image (snd (snd s)) @ ys"
  by (induction rule: digestStep.induct) (auto simp: images_update)

lemma plainImages_map: "plainImages cs \<longleftrightarrow> (\<forall>im\<in>set (map ca_image cs). CHR 0x00 \<notin> set im)"
  by (simp add: plainImages_def)

lemma plainImages_step: "digestStep (c, lg, cs) (c', lg', cs') \<Longrightarrow> plainImages cs' \<Longrightarrow> plainImages cs"
  using digestStep_images [of "(c, lg, cs)" "(c', lg', cs')"] unfolding plainImages_map
  by (simp del: set_map) (metis Un_iff set_append)

lemma callerOk_at: "digestInv (c, lg, cs) \<Longrightarrow> i < length cs \<Longrightarrow> callerOk lg (cs ! i)"
  by (auto simp: digestInv_def)

lemma digestInv_lookup:
  assumes "digestInv (c, lg, cs)" "plainImages cs" "i < length cs"
    and "map_of c (cacheKey (ca_image (cs ! i)) (ca_keyID (cs ! i))) = Some e"
  shows "(ca_image (cs ! i), ca_keyID (cs ! i), de_digest e) \<in> set lg"
proof -
  obtain im kid where *: "cacheKey (ca_image (cs ! i)) (ca_keyID (cs ! i)) = cacheKey im kid"
    "(im, kid, de_digest e) \<in> set lg"
    using assms(1) map_of_SomeD [OF assms(4)] by (auto simp: digestInv_def)
  then obtain ca where "ca \<in> set cs" "ca_image ca = im" using assms(1) by (auto simp: digestInv_def)
  with assms(2,3) have "CHR 0x00 \<notin> set im" "CHR 0x00 \<notin> set (ca_image (cs ! i))"
    by (auto simp: plainImages_def)
  with cacheKey_inj [OF *(1)] *(2) show ?thesis by simp
qed

lemma callerOk_image: "callerOk lg ca \<Longrightarrow> ca_prog ca = Call (QHead im kc) f \<Longrightarrow> im = ca_image ca"
  by (auto elim!: callerOk.cases simp: pinned_defs split: if_splits option.splits)

lemma digestInv_step:
  assumes "digestStep s s'" "digestInv s" "plainImages (snd (snd s))"
  shows "digestInv s'"
  using assms
proof (induction rule: digestStep.induct)
  case (call c lg cs img kc kid)
  have "callerOk lg (newCaller img kc kid)" by (rule callerOk.start) (simp add: newCaller_def)
  with call show ?case by (auto simp: digestInv_def)
next
  case (get i cs k f c lg)
  have k: "k = cacheKey (ca_image (cs ! i)) (ca_keyID (cs ! i))"
    using callerOk_get [OF callerOk_at [OF get(3,1)] get(2), of None] by simp
  have "\<forall>e. map_of c k = Some e \<longrightarrow> (ca_image (cs ! i), ca_keyID (cs ! i), de_digest e) \<in> set lg"
    using digestInv_lookup [OF get(3) _ get(1)] get(4) k by simp
  then have "callerOk lg ((cs ! i)\<lparr>ca_prog := f (REntry (map_of c k))\<rparr>)"
    using callerOk_get [OF callerOk_at [OF get(3,1)] get(2)] by blast
  with get show ?case by (intro digestInv_update) (auto simp: digestInv_def)
next
  case (put i cs k d f c lg clk now)
  note ok = callerOk_put [OF callerOk_at [OF put(3,1)] put(2)]
  have "\<exists>im kid. k' = cacheKey im kid \<and> (im, kid, de_digest e) \<in> set lg"
    if "(k', e) \<in> set (putLocked clk now k d c)" for k' e
    using putLocked_in [OF that]
  proof
    assume "(k', e) = (k, \<lparr>de_digest = d, de_resolvedAt = now\<rparr>)"
    with ok show ?thesis by (intro exI [of _ "ca_image (cs ! i)"] exI [of _ "ca_keyID (cs ! i)"]) simp
  next
    assume "(k', e) \<in> set c"
    with put(3) show ?thesis by (auto simp: digestInv_def)
  qed
  with put ok show ?case by (intro digestInv_update) auto
next
  case (env i cs q f c lg r)
  have "callerOk (logged q r (cs ! i) @ lg) ((cs ! i)\<lparr>ca_prog := f r\<rparr>)"
    by (rule callerOk_env [OF callerOk_at [OF env(5,1)] env(2)]) (use env in auto)
  moreover have "\<forall>(im, k, d)\<in>set (logged q r (cs ! i)). im = ca_image (cs ! i) \<and> k = ca_keyID (cs ! i)"
    using callerOk_image [OF callerOk_at [OF env(5,1)]] env(2)
    by (auto simp: logged_def split: req.splits resp.splits)
  ultimately show ?case using env by (intro digestInv_update) (auto simp: digestInv_def, blast)
qed

lemma digestReach_inv: "digestReach s \<Longrightarrow> plainImages (snd (snd s)) \<Longrightarrow> digestInv s"
proof (induction rule: digestReach.induct)
  case init
  then show ?case by (simp add: digestInv_def)
next
  case (step s s')
  then show ?case
    using plainImages_step [of "fst s" "fst (snd s)" "snd (snd s)" "fst s'" "fst (snd s')" "snd (snd s')"]
      digestInv_step [OF step(2)] by simp
qed

subsection \<open>Properties of the resolver\<close>

text \<open>
  C27: whatever number of callers interleave, the shared digest cache never holds more than
  1024 entries and never two for one key.
\<close>
theorem digest_cache_bounded:
  assumes "digestReach (c, lg, cs)"
  shows "length c \<le> 1024 \<and> distinct (map fst c)"
  using digestReach_cacheOk [OF assms] by (simp add: cacheOk_def maxCacheEntries_def)

text \<open>
  C28: tenant isolation of the cache. In every interleaving, a caller that got a pinned image
  either passed a digest itself, or was handed a digest that the registry had answered, for
  that very image, to a caller with the same credential key.
\<close>
theorem digest_tenant_isolation:
  assumes "digestReach (c, lg, cs)" and "\<forall>ca\<in>set cs. CHR 0x00 \<notin> set (ca_image ca)"
    and "ca \<in> set cs" and "ca_prog ca = Ret (Inr s)"
  shows "contains (ca_image ca) ''@'' \<and> s = ca_image ca \<or>
    (\<exists>d. s = ca_image ca @ ''@'' @ d \<and> (ca_image ca, ca_keyID ca, d) \<in> set lg)"
proof -
  have "digestInv (c, lg, cs)" using digestReach_inv [OF assms(1)] assms(2) by (simp add: plainImages_def)
  then have "callerOk lg ca" using assms(3) by (simp add: digestInv_def)
  from callerOk_RetD [OF this assms(4)] show ?thesis by (simp add: resultOk_def)
qed

text \<open>
  Once an image is in the cache, resolving it cannot fail: while the entry is fresh the
  registry is not asked at all, and afterwards a registry failure falls back to the entry.
\<close>
lemma digest_hit_never_fails:
  assumes "runs (Pinned img kc kid) tr res" and "(QCacheGet k, REntry (Some e)) \<in> set tr"
  shows "\<exists>d. res = Inr (img @ ''@'' @ d)
     \<and> (\<forall>t. (QNow, RTime t) \<in> set tr \<longrightarrow> timeSub t (de_resolvedAt e) < 5 * minute \<longrightarrow>
          d = de_digest e \<and> (\<forall>i c r. (QHead i c, r) \<notin> set tr))
     \<and> (d = de_digest e \<or> (\<exists>i c. (QHead i c, RStr d) \<in> set tr))"
proof -
  from assms obtain r tr' where r: "runs (pinnedLookup img kc kid (asEntry r)) tr' res"
    and tr: "tr = (QCacheGet (cacheKey img kid), r) # tr'"
    by (auto simp: Pinned_def runs_Call_iff split: if_splits)
  have "(QCacheGet k, REntry (Some e)) \<notin> set tr'"
    using r by (auto simp: runs_pinnedLookup runs_pinnedHead split: option.splits if_splits)
  with assms(2) tr have "asEntry r = Some e" by (auto simp: asEntry_def)
  with r tr show ?thesis
    by (auto simp: runs_pinnedLookup runs_pinnedHead digestResolveTTL_def split: if_splits)
qed

text \<open>
  A store into a full cache first drops what is older than the TTL, and only if nothing
  is, exactly one entry, one with the smallest resolution time; below the limit nothing is
  dropped, and the stored entry is always found afterwards.
\<close>
lemma digest_store_evicts_oldest:
  assumes "cacheOk c"
  shows "map_of (putLocked clk now k d c) k = Some \<lparr>de_digest = d, de_resolvedAt = now\<rparr>
    \<and> (length c < 1024 \<longrightarrow> evictLocked clk c = c)
    \<and> (length c = 1024 \<and> (\<exists>ke\<in>set c. expired clk ke) \<longrightarrow>
         evictLocked clk c = filter (\<lambda>ke. \<not> expired clk ke) c)
    \<and> (length c = 1024 \<and> (\<forall>ke\<in>set c. \<not> expired clk ke) \<longrightarrow>
         (\<exists>k0 e0. (k0, e0) \<in> set c \<and> evictLocked clk c = deleteKey k0 c \<and>
            (\<forall>x\<in>set c. de_resolvedAt e0 \<le> de_resolvedAt (snd x))))"
  using evict_spec [OF assms, of clk] by (simp add: putLocked_lookup maxCacheEntries_def)

end
