(* ===== verification/Channel.thy ===== *)
theory Channel
  imports Digest
begin

section \<open>Release channels (channel.go, misskeychannel\_controller.go)\<close>

text \<open>
  A MisskeyChannel hands its image to the instances that follow it, in batches: every
  instance has a stable bucket, and the share of buckets that get the new image grows with
  the time since the image changed. The first part is the decision for one instance and the
  resolution of an instance's image; the second the controller that keeps the rollout state
  in the channel's status. Counters of objects are not wrapped (an \<^verbatim>\<open>int32\<close> holds them);
  Go's 64-bit arithmetic is written out, so the statements carry
  the range in which it does not wrap.
\<close>

subsection \<open>The image of one instance\<close>

definition channelBucket :: "string \<Rightarrow> string \<Rightarrow> nat" where
  "channelBucket ns n = unat (fnv32a (ns @ ''/'' @ n)) mod 100"

definition channelImageFor :: "misskeyChannel \<Rightarrow> nat \<Rightarrow> gotime \<Rightarrow> string" where
  "channelImageFor ch bucket now =
     (let img = cs_image (ch_status ch); prev = cs_previousImage (ch_status ch) in
      if img = [] then ch_image (ch_spec ch)
      else if prev = [] \<or> prev = img \<or> ch_rollout (ch_spec ch) = None
              \<or> cs_imageChangedAt (ch_status ch) = 0 then img
      else
        (let ro = the (ch_rollout (ch_spec ch));
             interval = (if cr_interval ro \<le> 0 then hour else cr_interval ro);
             elapsed0 = timeSub now (cs_imageChangedAt (ch_status ch));
             elapsed = (if elapsed0 < 0 then 0 else elapsed0);
             batches = wrap64 (quot elapsed interval + 1);
             threshold = wrap64 (int32OrDefault (cr_batchPercent ro) 20 * batches) in
         if int bucket < threshold then img else prev))"

definition pullSecretKeyID :: "misskey \<Rightarrow> string" where
  "pullSecretKeyID m =
     (if length (imagePullSecrets (spec m)) = 0 then []
      else mnamespace m @ [CHR 0x00] @ joinWith '','' (sort (imagePullSecrets (spec m))))"

fun pullSecrets :: "string \<Rightarrow> string list \<Rightarrow> (error + kobj list) io" where
  "pullSecrets ns [] = Ret (Inr [])"
| "pullSecrets ns (n # names) =
     bnd (kget KSecret ns n) (\<lambda>r. case r of
       Inl e \<Rightarrow> Ret (Inl (ErrWrap (''imagePullSecret '' @ quoteGo n) e))
     | Inr s \<Rightarrow> chk (pullSecrets ns names) (\<lambda>ss. Ret (Inr (s # ss))))"

definition pullSecretKeychain :: "misskey \<Rightarrow> (error + kobj list option) io" where
  "pullSecretKeychain m =
     (if length (imagePullSecrets (spec m)) = 0 then Ret (Inr None)
      else chk (pullSecrets (mnamespace m) (imagePullSecrets (spec m))) (\<lambda>ss.
             Call (QKeychain ss) (\<lambda>r. case asUnit r of
               Inl e \<Rightarrow> Ret (Inl e) | Inr _ \<Rightarrow> Ret (Inr (Some ss)))))"

definition setImage :: "string \<Rightarrow> misskey \<Rightarrow> misskey" where
  "setImage img m = m\<lparr>spec := (spec m)\<lparr>image := img\<rparr>\<rparr>"

definition resolveChannel :: "misskey \<Rightarrow> (error + misskey) io" where
  "resolveChannel m =
     (case imageFrom (spec m) of
        None \<Rightarrow> Ret (Inr m)
      | Some src \<Rightarrow>
          bnd (getChannel (if_channel src)) (\<lambda>r. case r of
            Inl e \<Rightarrow> Ret (Inl (ErrWrap (''resolve imageFrom.channel '' @ quoteGo (if_channel src)) e))
          | Inr ch \<Rightarrow> bnd timeNow (\<lambda>now.
              Ret (Inr (setImage (channelImageFor ch (channelBucket (mnamespace m) (mname m)) now) m)))))"

definition trackDigest :: "libs \<Rightarrow> misskey \<Rightarrow> (error + misskey) io" where
  "trackDigest L m =
     (if \<not> trackImageDigest (spec m) \<or> contains (image (spec m)) ''@'' then Ret (Inr m)
      else if \<not> l_digests L then
        Ret (Inl (ErrMsg ''trackImageDigest requested but no digest resolver configured''))
      else chk (pullSecretKeychain m) (\<lambda>keychain.
        bnd (Pinned (image (spec m)) keychain (pullSecretKeyID m)) (\<lambda>r. case r of
          Inl e \<Rightarrow>
            if hasPrefix (st_image (status m)) (image (spec m) @ ''@'')
            then Ret (Inr (setImage (st_image (status m)) m))
            else Ret (Inl (ErrWrap ''track image digest'' e))
        | Inr pinned \<Rightarrow> Ret (Inr (setImage pinned m)))))"

definition resolveImage :: "libs \<Rightarrow> misskey \<Rightarrow> (error + misskey) io" where
  "resolveImage L m = chk (resolveChannel m) (trackDigest L)"

subsection \<open>The channel controller\<close>

text \<open>
  \<open>l_digests L\<close> tells whether a digest resolver is wired. The first component of the
  result is the image to hand out (\<^verbatim>\<open>target\<close>), the second whether the resolution failed.
\<close>

definition channelTarget :: "libs \<Rightarrow> misskeyChannel \<Rightarrow> (error + string \<times> bool) io" where
  "channelTarget L ch =
     (if ch_trackImageDigest (ch_spec ch) then
        (if \<not> l_digests L then
           Ret (Inl (ErrMsg ''trackImageDigest requested but no digest resolver configured''))
         else bnd (Pinned (ch_image (ch_spec ch)) None []) (\<lambda>r. case r of
           Inr pinned \<Rightarrow> Ret (Inr (pinned, False))
         | Inl e \<Rightarrow> Ret (Inr (cs_image (ch_status ch), True))))
      else Ret (Inr (ch_image (ch_spec ch), False)))"

definition follows :: "string \<Rightarrow> kobj \<Rightarrow> bool" where
  "follows n x = (case ko_body x of
     BMisskey sp st \<Rightarrow> (case imageFrom sp of Some f \<Rightarrow> if_channel f = n | None \<Rightarrow> False) | _ \<Rightarrow> False)"

definition runsImage :: "string \<Rightarrow> kobj \<Rightarrow> bool" where
  "runsImage img x = (case ko_body x of BMisskey sp st \<Rightarrow> img \<noteq> [] \<and> st_image st = img | _ \<Rightarrow> False)"

definition countInstances :: "string \<Rightarrow> kobj list \<Rightarrow> int32" where
  "countInstances n xs = int (length (filter (follows n) xs))"

definition countUpdated :: "string \<Rightarrow> string \<Rightarrow> kobj list \<Rightarrow> int32" where
  "countUpdated n img xs = int (length (filter (\<lambda>x. follows n x \<and> runsImage img x) xs))"

definition startRollout :: "string \<Rightarrow> gotime \<Rightarrow> misskeyChannelStatus \<Rightarrow> misskeyChannelStatus" where
  "startRollout target now st =
     (if target \<noteq> [] \<and> target \<noteq> cs_image st then
        (if cs_image st \<noteq> []
         then st\<lparr>cs_previousImage := cs_image st, cs_imageChangedAt := now, cs_image := target\<rparr>
         else st\<lparr>cs_image := target\<rparr>)
      else st)"

definition channelStatusAttempt :: "string \<Rightarrow> string \<Rightarrow> int32 \<Rightarrow> int32 \<Rightarrow> (error + unit) io" where
  "channelStatusAttempt n target instances updated =
     chk (getChannel n) (\<lambda>cur.
     bnd (if target \<noteq> [] \<and> target \<noteq> cs_image (ch_status cur) \<and> cs_image (ch_status cur) \<noteq> []
          then timeNow else Ret 0) (\<lambda>now.
     kstatusUpdate (channelObj (cur\<lparr>ch_status := (startRollout target now (ch_status cur))\<lparr>
       cs_instances := instances, cs_updatedInstances := updated,
       cs_observedGeneration := om_generation (mc_meta cur)\<rparr>\<rparr>))))"

definition channelRequeue :: "misskeyChannel \<Rightarrow> int32 \<Rightarrow> int32 \<Rightarrow> duration" where
  "channelRequeue ch instances updated =
     (let rq0 = (case ch_rollout (ch_spec ch) of
                   Some ro \<Rightarrow> if updated < instances
                              then (if cr_interval ro \<le> 0 then hour else cr_interval ro) else 0
                 | None \<Rightarrow> 0) in
      if ch_trackImageDigest (ch_spec ch) \<and> (rq0 = 0 \<or> digestResolveTTL < rq0)
      then digestResolveTTL else rq0)"

definition channelSync :: "libs \<Rightarrow> string \<Rightarrow> misskeyChannel \<Rightarrow> string \<times> bool \<Rightarrow> (error + duration) io" where
  "channelSync L n ch tf =
     chk (klist KMisskey [] []) (\<lambda>items.
       (let instances = countInstances (om_name (mc_meta ch)) items;
            updated = countUpdated (om_name (mc_meta ch)) (fst tf) items in
        chk (retryOnConflict (l_retrySteps L) (channelStatusAttempt n (fst tf) instances updated)) (\<lambda>_.
          Ret (Inr (if snd tf then minute else channelRequeue ch instances updated)))))"

definition channelReconcile :: "libs \<Rightarrow> string \<Rightarrow> (error + duration) io" where
  "channelReconcile L n =
     bnd (getChannel n) (\<lambda>r. case r of
       Inl e \<Rightarrow> if isNotFound e then Ret (Inr 0) else Ret (Inl e)
     | Inr ch \<Rightarrow>
         chk (channelTarget L ch) (channelSync L n ch))"

definition channelOfMisskey :: "misskey \<Rightarrow> string list" where
  "channelOfMisskey m = (case imageFrom (spec m) of None \<Rightarrow> [] | Some src \<Rightarrow> [if_channel src])"

subsection \<open>Rollout arithmetic\<close>

definition rolloutPercent :: "channelRollout \<Rightarrow> int" where
  "rolloutPercent ro = int32OrDefault (cr_batchPercent ro) 20"

definition rolloutInterval :: "channelRollout \<Rightarrow> duration" where
  "rolloutInterval ro = (if cr_interval ro \<le> 0 then hour else cr_interval ro)"

text \<open>
  \<open>rolling ch ro\<close>: the channel is between two images under the rollout settings \<open>ro\<close>, whose
  percentage is in the range the CRD allows (0 stands for unset) and whose interval is
  unset or at least a second, so that the 64-bit threshold cannot wrap.
\<close>

definition rolling :: "misskeyChannel \<Rightarrow> channelRollout \<Rightarrow> bool" where
  "rolling ch ro \<longleftrightarrow>
     ch_rollout (ch_spec ch) = Some ro \<and> 0 \<le> cr_batchPercent ro \<and> cr_batchPercent ro \<le> 100 \<and>
     (cr_interval ro \<le> 0 \<or> second \<le> cr_interval ro) \<and>
     cs_image (ch_status ch) \<noteq> [] \<and> cs_previousImage (ch_status ch) \<noteq> [] \<and>
     cs_previousImage (ch_status ch) \<noteq> cs_image (ch_status ch) \<and> cs_imageChangedAt (ch_status ch) \<noteq> 0"

definition rolloutAge :: "misskeyChannel \<Rightarrow> gotime \<Rightarrow> duration" where
  "rolloutAge ch now = max 0 (timeSub now (cs_imageChangedAt (ch_status ch)))"

lemma rolloutAge_mono: "t \<le> t' \<Longrightarrow> rolloutAge ch t \<le> rolloutAge ch t'"
  using timeSub_mono [of t t' "cs_imageChangedAt (ch_status ch)"] by (auto simp: rolloutAge_def max_def)

lemma rolling_range:
  assumes "rolling ch ro"
  shows "0 < rolloutPercent ro" "rolloutPercent ro \<le> 100" "second \<le> rolloutInterval ro"
  using assms by (auto simp: rolling_def rolloutPercent_def rolloutInterval_def int32OrDefault_def time_units)

lemma batches_bound:
  assumes "second \<le> i" "0 \<le> a" "a \<le> max_int64"
  shows "0 \<le> a div i \<and> a div i \<le> 9223372036"
proof -
  have "a div i \<le> a div second"
    using assms by (intro zdiv_mono2) (auto simp: second_def)
  also have "\<dots> \<le> max_int64 div second"
    using assms by (intro zdiv_mono1) (auto simp: second_def)
  also have "\<dots> = 9223372036" by (simp add: max_int64_def second_def)
  finally show ?thesis using assms by (simp add: second_def pos_imp_zdiv_nonneg_iff)
qed

lemma channelImageFor_rolling:
  assumes "rolling ch ro"
  shows "channelImageFor ch b now =
    (if int b < rolloutPercent ro * (rolloutAge ch now div rolloutInterval ro + 1)
     then cs_image (ch_status ch) else cs_previousImage (ch_status ch))"
proof -
  let ?p = "rolloutPercent ro" and ?i = "rolloutInterval ro" and ?a = "rolloutAge ch now"
  note r = rolling_range [OF assms]
  have i: "0 < ?i" using r(3) by (simp add: second_def)
  have a: "0 \<le> ?a" "?a \<le> max_int64"
    using timeSub_bounds [of now "cs_imageChangedAt (ch_status ch)"]
    by (auto simp: rolloutAge_def max_int64_def)
  note q = batches_bound [OF r(3) a]
  have b: "wrap64 (quot ?a ?i + 1) = ?a div ?i + 1"
    using q quot_nonneg [OF a(1) i] by (simp add: wrap64_id min_int64_def max_int64_def)
  have le: "?p * (?a div ?i + 1) \<le> 100 * 9223372037"
    using q r(1,2) by (intro mult_mono) auto
  have ge: "0 \<le> ?p * (?a div ?i + 1)" using q r(1) by simp
  have w: "wrap64 (?p * (?a div ?i + 1)) = ?p * (?a div ?i + 1)"
    using le ge by (intro wrap64_id) (auto simp: min_int64_def max_int64_def)
  have age: "(if timeSub now t0 < 0 then 0 else timeSub now t0) = max 0 (timeSub now t0)" for t0
    by auto
  show ?thesis
    using assms b w unfolding rolling_def channelImageFor_def
    by (simp add: Let_def age rolloutAge_def [symmetric] rolloutPercent_def [symmetric]
        rolloutInterval_def [symmetric])
qed

lemma channelBucket_less: "channelBucket ns n < 100"
  by (simp add: channelBucket_def)

lemma rolling_mono:
  assumes "rolling ch ro" "t \<le> t'" "b' \<le> b" "channelImageFor ch b t = cs_image (ch_status ch)"
  shows "channelImageFor ch b' t' = cs_image (ch_status ch)"
proof -
  note r = rolling_range [OF assms(1)]
  have ne: "cs_previousImage (ch_status ch) \<noteq> cs_image (ch_status ch)"
    using assms(1) by (simp add: rolling_def)
  have "rolloutAge ch t div rolloutInterval ro \<le> rolloutAge ch t' div rolloutInterval ro"
    using r(3) rolloutAge_mono [OF assms(2)] by (intro zdiv_mono1) (auto simp: second_def)
  then have "rolloutPercent ro * (rolloutAge ch t div rolloutInterval ro + 1)
      \<le> rolloutPercent ro * (rolloutAge ch t' div rolloutInterval ro + 1)"
    using r(1) by (intro mult_left_mono) auto
  moreover have "int b < rolloutPercent ro * (rolloutAge ch t div rolloutInterval ro + 1)"
    using assms(4) ne unfolding channelImageFor_rolling [OF assms(1)] by (simp split: if_splits)
  ultimately show ?thesis
    using assms(3) unfolding channelImageFor_rolling [OF assms(1)] by simp
qed

lemma rolling_first_batch:
  assumes "rolling ch ro" "int b < rolloutPercent ro"
  shows "channelImageFor ch b t = cs_image (ch_status ch)"
proof -
  note r = rolling_range [OF assms(1)]
  have "0 \<le> rolloutAge ch t div rolloutInterval ro"
    using r(3) by (simp add: second_def pos_imp_zdiv_nonneg_iff rolloutAge_def)
  then have "rolloutPercent ro * 1 \<le> rolloutPercent ro * (rolloutAge ch t div rolloutInterval ro + 1)"
    using r(1) by (intro mult_left_mono) auto
  with assms(2) have "int b < rolloutPercent ro * (rolloutAge ch t div rolloutInterval ro + 1)" by linarith
  then show ?thesis unfolding channelImageFor_rolling [OF assms(1)] by simp
qed

lemma rolling_complete:
  assumes "rolling ch ro" "100 \<le> rolloutPercent ro * (k + 1)" "0 \<le> k"
    and "k * rolloutInterval ro \<le> rolloutAge ch t" "b < 100"
  shows "channelImageFor ch b t = cs_image (ch_status ch)"
proof -
  note r = rolling_range [OF assms(1)]
  have "0 < rolloutInterval ro" using r(3) by (simp add: second_def)
  with assms(4) have "k \<le> rolloutAge ch t div rolloutInterval ro"
    using zdiv_mono1 [of "k * rolloutInterval ro" "rolloutAge ch t" "rolloutInterval ro"] by simp
  then have "rolloutPercent ro * (k + 1) \<le> rolloutPercent ro * (rolloutAge ch t div rolloutInterval ro + 1)"
    using r(1) by (intro mult_left_mono) auto
  with assms(2,5) have "int b < rolloutPercent ro * (rolloutAge ch t div rolloutInterval ro + 1)" by linarith
  then show ?thesis unfolding channelImageFor_rolling [OF assms(1)] by simp
qed

subsection \<open>Keys of pull secrets\<close>

lemma splitOn_sep: "c \<notin> set x \<Longrightarrow> splitOn c (x @ c # s) = x # splitOn c s"
  by (induction x) auto

lemma splitOn_plain: "c \<notin> set x \<Longrightarrow> splitOn c x = [x]"
  by (induction x) auto

lemma splitOn_join: "xs \<noteq> [] \<Longrightarrow> \<forall>x\<in>set xs. c \<notin> set x \<Longrightarrow> splitOn c (joinWith [c] xs) = xs"
  by (induction "[c]" xs rule: joinWith.induct) (auto simp: splitOn_sep splitOn_plain)

lemma pullSecretKeyID_inj:
  assumes eq: "pullSecretKeyID m = pullSecretKeyID m'"
    and ns: "CHR 0x00 \<notin> set (mnamespace m)" "CHR 0x00 \<notin> set (mnamespace m')"
    and names: "\<forall>n\<in>set (imagePullSecrets (spec m)) \<union> set (imagePullSecrets (spec m')). CHR '','' \<notin> set n"
  shows "imagePullSecrets (spec m) = [] \<and> imagePullSecrets (spec m') = [] \<or>
    mnamespace m = mnamespace m' \<and> sort (imagePullSecrets (spec m)) = sort (imagePullSecrets (spec m'))"
proof (cases "imagePullSecrets (spec m) = [] \<or> imagePullSecrets (spec m') = []")
  case True
  with eq show ?thesis by (auto simp: pullSecretKeyID_def split: if_splits)
next
  case False
  let ?j = "\<lambda>m. joinWith '','' (sort (imagePullSecrets (spec m)))"
  have e: "mnamespace m @ CHR 0x00 # ?j m = mnamespace m' @ CHR 0x00 # ?j m'"
    using eq False by (simp add: pullSecretKeyID_def)
  then have n: "mnamespace m = mnamespace m'"
    using takeWhile_sep [OF ns(1), of "?j m"] takeWhile_sep [OF ns(2), of "?j m'"] by simp
  with e have "splitOn CHR '','' (?j m) = splitOn CHR '','' (?j m')" by simp
  moreover have "splitOn CHR '','' (?j x) = sort (imagePullSecrets (spec x))"
    if "x = m \<or> x = m'" for x
    using that False names by (intro splitOn_join) (auto dest: arg_cong [of "sort _" "[]" length])
  ultimately show ?thesis using n by simp
qed

subsection \<open>What the channel controller writes\<close>

text \<open>The status the controller writes for the channel it read, and the rollout part of it.\<close>

definition channelWrite :: "misskeyChannel \<Rightarrow> string \<Rightarrow> gotime \<Rightarrow> int32 \<Rightarrow> int32 \<Rightarrow> kobj" where
  "channelWrite cur target now instances updated =
     channelObj (cur\<lparr>ch_status := (startRollout target now (ch_status cur))\<lparr>
       cs_instances := instances, cs_updatedInstances := updated,
       cs_observedGeneration := om_generation (mc_meta cur)\<rparr>\<rparr>)"

definition sameRollout :: "misskeyChannelStatus \<Rightarrow> misskeyChannelStatus \<Rightarrow> bool" where
  "sameRollout a b \<longleftrightarrow> cs_image a = cs_image b \<and> cs_previousImage a = cs_previousImage b \<and>
     cs_imageChangedAt a = cs_imageChangedAt b"

lemma runs_getChannel: "runs (getChannel n) tr (Inr c) \<longleftrightarrow>
    (\<exists>x. tr = [(QGet KMisskeyChannel [] n, RObj x)] \<and> atKey KMisskeyChannel [] n x \<and> asChannel x = Inr c)"
  by (auto simp: getChannel_def kget_def runs_chk_Inr runs_Call_iff)

lemma getChannel_calls: "runs (getChannel n) tr res \<Longrightarrow> (q, r) \<in> set tr \<Longrightarrow> q = QGet KMisskeyChannel [] n"
  by (rule calls_runs [of "\<lambda>q. q = QGet KMisskeyChannel [] n"])
     (auto simp: getChannel_def kget_def intro!: calls_intros)

lemma timeNow_calls: "runs timeNow tr res \<Longrightarrow> (q, r) \<in> set tr \<Longrightarrow> q = QNow"
  by (auto simp: timeNow_def runs_Call_iff)

lemma channelStatusAttempt_writes:
  assumes run: "runs (channelStatusAttempt n target i u) tr res"
    and st: "(QStatusUpdate x, r) \<in> set tr"
  obtains y cur now where "(QGet KMisskeyChannel [] n, RObj y) \<in> set tr" "asChannel y = Inr cur"
    "x = channelWrite cur target now i u"
proof -
  let ?rest = "\<lambda>cur. bnd (if target \<noteq> [] \<and> target \<noteq> cs_image (ch_status cur) \<and> cs_image (ch_status cur) \<noteq> []
      then timeNow else Ret 0) (\<lambda>now. kstatusUpdate (channelWrite cur target now i u))"
  have "runs (chk (getChannel n) ?rest) tr res"
    using run by (simp add: channelStatusAttempt_def channelWrite_def)
  then show thesis
  proof (cases rule: runs_chkE)
    case (err e)
    with st getChannel_calls show ?thesis by blast
  next
    case (ok t1 cur t2)
    then obtain y where y: "t1 = [(QGet KMisskeyChannel [] n, RObj y)]" "asChannel y = Inr cur"
      by (auto simp: runs_getChannel)
    from ok(3) obtain t3 now t4 where t: "t2 = t3 @ t4"
      and t3: "runs (if target \<noteq> [] \<and> target \<noteq> cs_image (ch_status cur) \<and> cs_image (ch_status cur) \<noteq> []
        then timeNow else Ret 0) t3 now"
      and t4: "runs (kstatusUpdate (channelWrite cur target now i u)) t4 res"
      unfolding runs_bnd by blast
    have "(QStatusUpdate x, r) \<notin> set t3" using t3 timeNow_calls by (auto split: if_splits)
    with st ok(1) y(1) t have "(QStatusUpdate x, r) \<in> set t4" by auto
    with t4 have "x = channelWrite cur target now i u" by (auto simp: kstatusUpdate_def runs_Call_iff)
    with that y ok(1) show ?thesis by auto
  qed
qed

lemma Pinned_calls: "calls readOnly (Pinned img kc kid)"
  by (auto simp: pinned_defs split: option.split sum.split)

lemma channelTarget_calls: "calls readOnly (channelTarget L ch)"
  unfolding channelTarget_def
  by (auto intro!: calls_intros Pinned_calls split: sum.split)

lemma channelSync_writes:
  assumes run: "runs (channelSync L n ch tf) tr res" and st: "(QStatusUpdate x, r) \<in> set tr"
  obtains y cur now i u where "(QGet KMisskeyChannel [] n, RObj y) \<in> set tr" "asChannel y = Inr cur"
    "x = channelWrite cur (fst tf) now i u"
proof -
  let ?att = "\<lambda>i u. retryOnConflict (l_retrySteps L) (channelStatusAttempt n (fst tf) i u)"
  have nl: "(QStatusUpdate x, r) \<notin> set t" if "runs (klist KMisskey [] []) t a" for t a
    using that by (auto simp: klist_def runs_Call_iff)
  let ?k = "\<lambda>i u. chk (?att i u) (\<lambda>_. Ret (Inr (if snd tf then minute else channelRequeue ch i u)))"
  obtain t1 items t2 where tr: "tr = t1 @ t2" and st2: "(QStatusUpdate x, r) \<in> set t2"
    and k: "runs (?k (countInstances (om_name (mc_meta ch)) items)
                     (countUpdated (om_name (mc_meta ch)) (fst tf) items)) t2 res"
    using run st unfolding channelSync_def Let_def
    by (rule runs_chk_after) (use nl in blast)+
  then obtain i u where t2: "runs (?k i u) t2 res" by blast
  obtain t3 a where t3: "set t3 \<subseteq> set t2" "runs (?att i u) t3 a" "(QStatusUpdate x, r) \<in> set t3"
    using t2 st2 by (rule runs_chk_before) auto
  obtain t4 c where t4: "runs (channelStatusAttempt n (fst tf) i u) t4 c" "(QStatusUpdate x, r) \<in> set t4"
    "set t4 \<subseteq> set t3" by (rule retryOnConflict_runs [OF t3(2,3)])
  obtain y cur now where "(QGet KMisskeyChannel [] n, RObj y) \<in> set t4" "asChannel y = Inr cur"
    "x = channelWrite cur (fst tf) now i u"
    by (rule channelStatusAttempt_writes [OF t4(1,2)])
  then show thesis using that [of y cur now i u] tr t3(1) t4(3) by auto
qed

lemma channelReconcile_writes:
  assumes run: "runs (channelReconcile L n) tr res" and st: "(QStatusUpdate x, r) \<in> set tr"
  obtains y0 ch t0 tf y cur now i u where
    "(QGet KMisskeyChannel [] n, RObj y0) \<in> set tr" "asChannel y0 = Inr ch"
    "runs (channelTarget L ch) t0 (Inr tf)" "set t0 \<subseteq> set tr"
    "(QGet KMisskeyChannel [] n, RObj y) \<in> set tr" "asChannel y = Inr cur"
    "x = channelWrite cur (fst tf) now i u"
proof -
  obtain t1 a t2 where tr: "tr = t1 @ t2" and g: "runs (getChannel n) t1 a"
    and k: "runs (case a of Inl e \<Rightarrow> if isNotFound e then Ret (Inr 0) else Ret (Inl e)
      | Inr ch \<Rightarrow> chk (channelTarget L ch) (channelSync L n ch)) t2 res"
    and st2: "(QStatusUpdate x, r) \<in> set t2"
    using run st unfolding channelReconcile_def
    by (rule runs_bnd_after) (blast dest: getChannel_calls)
  then obtain ch where a: "a = Inr ch" by (cases a) (auto split: if_splits)
  obtain y0 where y0: "t1 = [(QGet KMisskeyChannel [] n, RObj y0)]" "asChannel y0 = Inr ch"
    using g a by (auto simp: runs_getChannel)
  have "runs (chk (channelTarget L ch) (channelSync L n ch)) t2 res" using k a by simp
  then obtain t3 tf t4 where t2: "t2 = t3 @ t4" and tg: "runs (channelTarget L ch) t3 (Inr tf)"
    and sy: "runs (channelSync L n ch tf) t4 res" and st4: "(QStatusUpdate x, r) \<in> set t4"
    using st2 by (rule runs_chk_after) (use calls_runs [OF channelTarget_calls] in fastforce)
  show thesis
    by (rule channelSync_writes [OF sy st4], rule that [of y0 ch t3 tf])
       (use y0 tg tr t2 in auto)
qed

lemma channelTarget_failed:
  assumes run: "runs (channelTarget L ch) t (Inr tf)" and track: "ch_trackImageDigest (ch_spec ch)"
    and tag: "\<not> contains (ch_image (ch_spec ch)) ''@''"
    and no: "\<And>i kc d. (QHead i kc, RStr d) \<notin> set t" "\<And>k e. (QCacheGet k, REntry (Some e)) \<notin> set t"
  shows "fst tf = cs_image (ch_status ch)"
proof -
  obtain a where p: "runs (Pinned (ch_image (ch_spec ch)) None []) t a"
    and res: "tf = (case a of Inr pinned \<Rightarrow> (pinned, False) | Inl e \<Rightarrow> (cs_image (ch_status ch), True))"
  proof -
    obtain t1 a t2 where "t = t1 @ t2" "runs (Pinned (ch_image (ch_spec ch)) None []) t1 a"
      "runs (case a of Inr pinned \<Rightarrow> Ret (Inr (pinned, False)) | Inl e \<Rightarrow> Ret (Inr (cs_image (ch_status ch), True))) t2
        (Inr tf :: error + _)"
      using run track by (auto simp: channelTarget_def runs_bnd split: if_splits)
    with that show thesis by (cases a) auto
  qed
  from p tag obtain r t' where t: "t = (QCacheGet (cacheKey (ch_image (ch_spec ch)) []), r) # t'"
    and l: "runs (pinnedLookup (ch_image (ch_spec ch)) None [] (asEntry r)) t' a"
    by (auto simp: Pinned_def runs_Call_iff)
  have "asEntry r = None"
  proof (cases r)
    case (REntry en)
    then show ?thesis using no(2) t by (cases en) auto
  qed (auto simp: asEntry_def)
  with l have "runs (pinnedHead (ch_image (ch_spec ch)) None [] None) t' a" by (simp add: runs_pinnedLookup)
  moreover have "\<forall>d. (QHead (ch_image (ch_spec ch)) None, RStr d) \<notin> set t'" using no(1) t by auto
  ultimately have "\<exists>e. a = Inl e" unfolding runs_pinnedHead by auto
  with res show ?thesis by auto
qed

subsection \<open>Properties of a rollout\<close>

text \<open>
  C29: while a rollout is under way and the channel's status does not change, an instance
  that has moved to the new image stays there at every later time, and so does every
  instance of a smaller bucket.
\<close>
theorem rollout_never_moves_back:
  assumes "rolling ch ro" "t \<le> t'" "b' \<le> b"
    and "channelImageFor ch b t = cs_image (ch_status ch)"
  shows "channelImageFor ch b' t' = cs_image (ch_status ch)"
  using rolling_mono [OF assms] .

text \<open>
  C30: a rollout starts at once and ends. The first batch moves at the time of the change,
  whatever the clocks say, and after \<open>k\<close> intervals, where \<open>k + 1\<close> batches make up the whole
  fleet, every instance runs the new image.
\<close>
theorem rollout_starts_and_completes:
  assumes "rolling ch ro"
  shows "(int (channelBucket ns n) < rolloutPercent ro \<longrightarrow>
            channelImageFor ch (channelBucket ns n) t = cs_image (ch_status ch))
    \<and> (100 \<le> rolloutPercent ro * (k + 1) \<and> 0 \<le> k \<and> k * rolloutInterval ro \<le> rolloutAge ch t \<longrightarrow>
         channelImageFor ch (channelBucket ns n) t = cs_image (ch_status ch))"
  using rolling_first_batch [OF assms] rolling_complete [OF assms _ _ _ channelBucket_less] by blast

text \<open>
  Two instances that authenticate with pull secrets share a cache entry only if they
  live in the same namespace, name the same secrets and run the same image.
\<close>
lemma digest_keys_separate_tenants:
  assumes "cacheKey i (pullSecretKeyID m) = cacheKey i' (pullSecretKeyID m')"
    and "CHR 0x00 \<notin> set i" "CHR 0x00 \<notin> set i'"
    and "CHR 0x00 \<notin> set (mnamespace m)" "CHR 0x00 \<notin> set (mnamespace m')"
    and "\<forall>n\<in>set (imagePullSecrets (spec m)) \<union> set (imagePullSecrets (spec m')). CHR '','' \<notin> set n"
  shows "i = i' \<and> (imagePullSecrets (spec m) = [] \<and> imagePullSecrets (spec m') = [] \<or>
    mnamespace m = mnamespace m' \<and> sort (imagePullSecrets (spec m)) = sort (imagePullSecrets (spec m')))"
  using cacheKey_inj [OF assms(1-3)] pullSecretKeyID_inj [OF _ assms(4-6)] by blast


text \<open>
  C31: a rollout that is interrupted by another image change forgets where the waiting instances
  are: an instance that still runs the image before the last one is sent to the
  intermediate image as soon as the third one is announced, without any batching.
\<close>
theorem interrupted_rollout_skips_batches:
  assumes r: "rolling ch ro" and wait: "channelImageFor ch b t = cs_previousImage (ch_status ch)"
    and tgt: "target \<noteq> []" "target \<noteq> cs_image (ch_status ch)" and now: "t \<noteq> 0"
  shows "channelImageFor (ch\<lparr>ch_status := startRollout target t (ch_status ch)\<rparr>) b t = cs_image (ch_status ch)"
proof -
  let ?c = "ch\<lparr>ch_status := startRollout target t (ch_status ch)\<rparr>"
  have st: "cs_image (ch_status ?c) = target" "cs_previousImage (ch_status ?c) = cs_image (ch_status ch)"
    "cs_imageChangedAt (ch_status ?c) = t"
    using r tgt by (auto simp: startRollout_def rolling_def)
  have r': "rolling ?c ro" using r tgt now st by (auto simp: rolling_def)
  have "\<not> int b < rolloutPercent ro"
    using rolling_first_batch [OF r, of b t] wait r by (auto simp: rolling_def)
  moreover have "rolloutAge ?c t = 0"
    unfolding rolloutAge_def st by (simp add: timeSub_def max_int64_def min_int64_def)
  ultimately show ?thesis unfolding channelImageFor_rolling [OF r'] using st by simp
qed

end
