(* ===== verification/Deletion.thy ===== *)
theory Deletion
  imports Common
begin

section \<open>Deletion and data retention (deletion.go)\<close>

text \<open>
  With \<^verbatim>\<open>deletionPolicy: Retain\<close> the operator takes the owner reference of the instance off
  every data resource before it lets the instance go. The properties say that the finalizer
  is given up only after every data resource was seen absent or detached, and that
  detaching changes nothing but the references to this instance.
\<close>

definition misskeyFinalizer :: string where
  "misskeyFinalizer = ''cloudnative-misskey.dev/finalizer''"

definition retainTargets :: "misskey \<Rightarrow> (kind \<times> string) list" where
  "retainTargets m =
     [(KCnpgCluster, nameDB m),
      (KStatefulSet, nameMeili m),
      (KSecret, nameMeili m),
      (KSecret, nameSetup m),
      (KSecret, nameRedisAuthSecret m),
      (KSecret, nameSensitiveDetector m)]
     @ concat (map (\<lambda>suffix.
         [(KStatefulSet, nameRedisInstance m suffix),
          (KRedisReplication, nameRedisHA m suffix),
          (KRedisSentinel, nameRedisHA m suffix)]) allRedisSuffixes)"

definition withoutOwner :: "string \<Rightarrow> kobj \<Rightarrow> kobj" where
  "withoutOwner uid u = u\<lparr>ko_meta := (ko_meta u)\<lparr>om_ownerReferences :=
     filter (\<lambda>ref. or_uid ref \<noteq> uid) (om_ownerReferences (ko_meta u))\<rparr>\<rparr>"

definition ownedBy :: "string \<Rightarrow> kobj \<Rightarrow> bool" where
  "ownedBy uid u \<longleftrightarrow> list_ex (\<lambda>ref. or_uid ref = uid) (om_ownerReferences (ko_meta u))"

definition orphan :: "misskey \<Rightarrow> kind \<Rightarrow> string \<Rightarrow> (error + unit) io" where
  "orphan m k n =
     bnd (kget k (mnamespace m) n) (\<lambda>r. case r of
       Inl e \<Rightarrow> if isNotFound e \<or> isNoMatch e then Ret (Inr ()) else Ret (Inl e)
     | Inr u \<Rightarrow>
         if \<not> ownedBy (om_uid (mk_meta m)) u then Ret (Inr ())
         else chk (kupdate (withoutOwner (om_uid (mk_meta m)) u)) (\<lambda>_. Ret (Inr ())))"

definition retainData :: "misskey \<Rightarrow> (error + unit) io" where
  "retainData m = forE (retainTargets m) (\<lambda>(k, n). orphan m k n)"

definition reconcileDelete :: "libs \<Rightarrow> misskey \<Rightarrow> (error + unit) io" where
  "reconcileDelete L m =
     (if \<not> l_containsFinalizer L m misskeyFinalizer then Ret (Inr ())
      else
        chk (if deletionPolicy (spec m) = ''Retain'' then
               chk (retainData m) (\<lambda>_.
                 eventThen L EventNormal ''DataRetained'' ''Delete''
                   ''detached owner references from data resources per deletionPolicy=Retain''
                   (Ret (Inr ())))
             else Ret (Inr ())) (\<lambda>_.
        chk (kupdate (misskeyObj (l_removeFinalizer L m misskeyFinalizer))) (\<lambda>_. Ret (Inr ()))))"

subsection \<open>What detaching does\<close>

lemma withoutOwner_frame [simp]:
  "ko_kind (withoutOwner uid u) = ko_kind u" "kname (withoutOwner uid u) = kname u"
  "knamespace (withoutOwner uid u) = knamespace u" "ko_body (withoutOwner uid u) = ko_body u"
  "klabels (withoutOwner uid u) = klabels u" "kannotations (withoutOwner uid u) = kannotations u"
  by (simp_all add: withoutOwner_def)

lemma withoutOwner_refs:
  "set (om_ownerReferences (ko_meta (withoutOwner uid u))) =
     {ref \<in> set (om_ownerReferences (ko_meta u)). or_uid ref \<noteq> uid}"
  "\<not> ownedBy uid (withoutOwner uid u)"
  by (auto simp: withoutOwner_def ownedBy_def list_ex_iff)

text \<open>
  \<open>detached ns uid tr (k, n)\<close>: the exchange \<open>tr\<close> shows that the object of kind \<open>k\<close> and name \<open>n\<close>
  does not exist, has no reference to \<open>uid\<close>, or was stored without it.
\<close>

definition detached :: "string \<Rightarrow> string \<Rightarrow> (req \<times> resp) list \<Rightarrow> kind \<times> string \<Rightarrow> bool" where
  "detached ns uid tr kn \<longleftrightarrow> (case kn of (k, n) \<Rightarrow>
     (\<exists>e. (QGet k ns n, RErr e) \<in> set tr \<and> (isNotFound e \<or> isNoMatch e)) \<or>
     (\<exists>u. (QGet k ns n, RObj u) \<in> set tr \<and> atKey k ns n u \<and> \<not> ownedBy uid u) \<or>
     (\<exists>u u'. (QGet k ns n, RObj u) \<in> set tr \<and> atKey k ns n u \<and>
        (QUpdate (withoutOwner uid u), RObj u') \<in> set tr))"

lemma detached_mono: "detached ns uid tr kn \<Longrightarrow> set tr \<subseteq> set tr' \<Longrightarrow> detached ns uid tr' kn"
  by (auto simp: detached_def split: prod.splits) blast+

lemma asObjAt_notFound:
  "asObjAt k ns n r = Inl e \<Longrightarrow> isNotFound e \<or> isNoMatch e \<Longrightarrow> r = RErr e"
  by (auto simp: asObjAt_def asObj_def badAnswer_def split: resp.splits if_splits)

lemma orphan_detached:
  assumes "runs (orphan m k n) tr (Inr ())"
  shows "detached (mnamespace m) (om_uid (mk_meta m)) tr (k, n)"
proof -
  let ?ns = "mnamespace m" and ?uid = "om_uid (mk_meta m)"
  obtain r t2 where tr: "tr = (QGet k ?ns n, r) # t2" and rest: "runs (case asObjAt k ?ns n r of
       Inl e \<Rightarrow> if isNotFound e \<or> isNoMatch e then Ret (Inr ()) else Ret (Inl e)
     | Inr u \<Rightarrow> if \<not> ownedBy ?uid u then Ret (Inr ())
         else chk (kupdate (withoutOwner ?uid u)) (\<lambda>_. Ret (Inr ()))) t2 (Inr ())"
    using assms by (auto simp: orphan_def kget_def runs_Call_iff)
  show ?thesis
  proof (cases "asObjAt k ?ns n r")
    case (Inl e)
    with rest have "isNotFound e \<or> isNoMatch e" by (auto split: if_splits)
    with asObjAt_notFound [OF Inl] tr show ?thesis by (auto simp: detached_def)
  next
    case (Inr u)
    with rest tr show ?thesis
      by (cases "ownedBy ?uid u") (auto simp: detached_def runs_chk_Inr kupdate_def runs_Call_iff)
  qed
qed

subsection \<open>Properties\<close>

text \<open>
  C5: an instance with \<^verbatim>\<open>deletionPolicy: Retain\<close> is let go only after its data is safe. When
  the deletion handler succeeds, its last request is the update that removes the finalizer,
  and before it every retain target was seen absent, seen free of references to the
  instance, or stored without them.
\<close>
theorem retain_before_finalizer:
  assumes "runs (reconcileDelete L m) tr (Inr ())"
    and "l_containsFinalizer L m misskeyFinalizer" and "deletionPolicy (spec m) = ''Retain''"
  shows "\<exists>pre x. tr = pre @ [(QUpdate (misskeyObj (l_removeFinalizer L m misskeyFinalizer)), RObj x)] \<and>
    (\<forall>kn\<in>set (retainTargets m). detached (mnamespace m) (om_uid (mk_meta m)) pre kn)"
proof -
  obtain t1 t2 t3 x where tr: "tr = (t1 @ t2) @ [(QUpdate (misskeyObj (l_removeFinalizer L m misskeyFinalizer)), RObj x)]"
    and ret: "runs (retainData m) t1 (Inr ())"
    using assms unfolding reconcileDelete_def
    by (auto simp: runs_chk_Inr kupdate_def runs_Call_iff)
  have "detached (mnamespace m) (om_uid (mk_meta m)) (t1 @ t2) kn" if kn: "kn \<in> set (retainTargets m)" for kn
  proof -
    obtain t where t: "runs (case kn of (k, n) \<Rightarrow> orphan m k n) t (Inr ())" "set t \<subseteq> set t1"
      by (rule runs_forE_each [OF ret [unfolded retainData_def] kn])
    obtain k n where "kn = (k, n)" by force
    with t orphan_detached [of m k n t] have "detached (mnamespace m) (om_uid (mk_meta m)) t kn" by simp
    then show ?thesis by (rule detached_mono) (use t(2) in auto)
  qed
  with tr show ?thesis by blast
qed

end
