(* ===== verification/NetUrl.thy ===== *)
theory NetUrl
  imports GoLib
begin

section \<open>net/url and net/netip, as far as a host is extracted\<close>

text \<open>
  The operator derives the search index and the default Ingress host from \<^verbatim>\<open>spec.url\<close> by
  \<^verbatim>\<open>url.Parse\<close> and \<^verbatim>\<open>URL.Hostname\<close>. This theory follows the standard library of the Go
  release in \<^verbatim>\<open>go.mod\<close> (1.26): the scheme scan, the split into authority, path, query and
  fragment, the validity of escapes, user information, port and IP literal, and the
  unescaping of the host. Only the host and the failure of the parse are observable to the
  caller, so the decoded path, query and fragment are not kept.
\<close>

subsection \<open>Characters and escapes\<close>

definition isLetter :: "char \<Rightarrow> bool" where
  "isLetter c \<longleftrightarrow> inRange 97 122 c \<or> inRange 65 90 c"

definition isDigit :: "char \<Rightarrow> bool" where
  "isDigit c \<longleftrightarrow> inRange 48 57 c"

definition isHex :: "char \<Rightarrow> bool" where
  "isHex c \<longleftrightarrow> isDigit c \<or> inRange 97 102 c \<or> inRange 65 70 c"

definition unhex :: "char \<Rightarrow> nat" where
  "unhex c = (if isDigit c then byte c - 48 else if inRange 97 102 c then byte c - 87
              else if inRange 65 70 c then byte c - 55 else 0)"

definition isCTL :: "char \<Rightarrow> bool" where
  "isCTL c \<longleftrightarrow> byte c < 0x20 \<or> byte c = 0x7F"

text \<open>Percent signs must introduce two hexadecimal digits.\<close>

fun escapesOk :: "string \<Rightarrow> bool" where
  "escapesOk [] = True"
| "escapesOk (c # s) =
     (if c = CHR ''%'' then (case s of a # b # t \<Rightarrow> isHex a \<and> isHex b | _ \<Rightarrow> False) \<and> escapesOk (drop 2 s)
      else escapesOk s)"

definition hostChar :: "char \<Rightarrow> bool" where
  "hostChar c \<longleftrightarrow> isLetter c \<or> isDigit c \<or> c \<in> set ''!$&()*+,;=:[]<>-_.~'' \<or> c = CHR 0x22 \<or> c = CHR 0x27"

text \<open>\<^verbatim>\<open>unescape\<close> in the modes \<^verbatim>\<open>encodeHost\<close> (\<open>zone = False\<close>) and \<^verbatim>\<open>encodeZone\<close>.\<close>

fun unescapeHost :: "bool \<Rightarrow> string \<Rightarrow> string option" where
  "unescapeHost zone [] = Some []"
| "unescapeHost zone (c # s) =
     (if c = CHR ''%'' then
        (case s of
           a # b # _ \<Rightarrow>
             if \<not> (isHex a \<and> isHex b) then None
             else
               (let v = char_of (16 * unhex a + unhex b) in
                if \<not> zone \<and> unhex a < 8 \<and> \<not> (a = CHR ''2'' \<and> b = CHR ''5'') then None
                else if zone \<and> \<not> (a = CHR ''2'' \<and> b = CHR ''5'') \<and> v \<noteq> CHR '' '' \<and> \<not> hostChar v then None
                else map_option (Cons v) (unescapeHost zone (drop 2 s)))
         | _ \<Rightarrow> None)
      else if byte c < 0x80 \<and> \<not> hostChar c then None
      else map_option (Cons c) (unescapeHost zone s))"

subsection \<open>IP literals\<close>

text \<open>Splitting at the first or the last occurrence of a character.\<close>

definition before :: "char \<Rightarrow> string \<Rightarrow> string" where
  "before c s = takeWhile (\<lambda>x. x \<noteq> c) s"

definition after :: "char \<Rightarrow> string \<Rightarrow> string" where
  "after c s = drop 1 (dropWhile (\<lambda>x. x \<noteq> c) s)"

definition beforeLast :: "char \<Rightarrow> string \<Rightarrow> string" where
  "beforeLast c s = rev (after c (rev s))"

definition octetOk :: "string \<Rightarrow> bool" where
  "octetOk s \<longleftrightarrow> s \<noteq> [] \<and> list_all isDigit s \<and> length s \<le> 3 \<and>
     (length s > 1 \<longrightarrow> hd s \<noteq> CHR ''0'') \<and> foldl (\<lambda>a c. 10 * a + unhex c) 0 s \<le> 255"

definition ipv4Ok :: "string \<Rightarrow> bool" where
  "ipv4Ok s \<longleftrightarrow> length (splitOn CHR ''.'' s) = 4 \<and> list_all octetOk (splitOn CHR ''.'' s)"

text \<open>
  The main loop of \<^verbatim>\<open>parseIPv6\<close>: \<open>i\<close> bytes are filled, \<open>ell\<close> tells whether the
  ellipsis was seen; each round consumes one group.
\<close>

function ipv6Groups :: "nat \<Rightarrow> bool \<Rightarrow> string \<Rightarrow> bool" where
  "ipv6Groups i ell s =
     (if i \<ge> 16 then s = [] \<and> \<not> ell
      else
        (let g = takeWhile isHex s; t = dropWhile isHex s in
         if g = [] \<or> length g > 4 then False
         else if t \<noteq> [] \<and> hd t = CHR ''.'' then
           (ell \<or> i = 12) \<and> i + 4 \<le> 16 \<and> ipv4Ok s \<and> (if i + 4 < 16 then ell else \<not> ell)
         else if t = [] then (if i + 2 < 16 then ell else \<not> ell)
         else if hd t \<noteq> CHR '':'' \<or> length t = 1 then False
         else if t ! 1 = CHR '':'' then
           (if ell then False
            else if length t = 2 then i + 2 < 16
            else ipv6Groups (i + 2) True (drop 2 t))
         else ipv6Groups (i + 2) ell (drop 1 t)))"
  by pat_completeness auto
termination
  by (relation "measure (\<lambda>(i, ell, s). 16 - i)") auto

declare ipv6Groups.simps [simp del]

definition ipv6Ok :: "string \<Rightarrow> bool" where
  "ipv6Ok a =
     (let s = before CHR ''%'' a in
      if CHR ''%'' \<in> set a \<and> after CHR ''%'' a = [] then False
      else if hasPrefix s ''::'' then (if length s = 2 then True else ipv6Groups 0 True (drop 2 s))
      else ipv6Groups 0 False s)"

text \<open>\<^verbatim>\<open>netip.ParseAddr\<close> succeeding with an address that is not IPv4.\<close>

definition netipV6 :: "string \<Rightarrow> bool" where
  "netipV6 a = (case dropWhile (\<lambda>c. c \<notin> set ''.:%'') a of c # _ \<Rightarrow> c = CHR '':'' \<and> ipv6Ok a | [] \<Rightarrow> False)"

subsection \<open>Authority and URL\<close>

definition validOptionalPort :: "string \<Rightarrow> bool" where
  "validOptionalPort p \<longleftrightarrow> p = [] \<or> hd p = CHR '':'' \<and> list_all isDigit (tl p)"

definition cutZone :: "string \<Rightarrow> (string \<times> string) option" where
  "cutZone s = (case filter (\<lambda>i. hasPrefix (drop i s) ''%25'') [0..<length s] of
     [] \<Rightarrow> None | i # _ \<Rightarrow> Some (take i s, drop i s))"

definition parseHost :: "string \<Rightarrow> string option" where
  "parseHost h =
     (if CHR ''['' \<in> set h then
        (if CHR ''['' \<in> set (tl h) \<or> CHR '']'' \<notin> set h then None
         else
           (let port = afterLast CHR '']'' h; name = tl (beforeLast CHR '']'' h) in
            if \<not> validOptionalPort port then None
            else
              Option.bind (unescapeHost False port) (\<lambda>uport.
              Option.bind
                (case cutZone name of
                   Some (a, z) \<Rightarrow>
                     Option.bind (unescapeHost False a) (\<lambda>ua. map_option (\<lambda>uz. ua @ uz) (unescapeHost True z))
                 | None \<Rightarrow> unescapeHost False name)
                (\<lambda>uname. if netipV6 uname then Some (''['' @ uname @ '']'' @ uport) else None))))
      else if CHR '':'' \<in> set h \<and> \<not> validOptionalPort (CHR '':'' # after CHR '':'' h) then None
      else unescapeHost False h)"

definition validUserinfo :: "string \<Rightarrow> bool" where
  "validUserinfo s \<longleftrightarrow> list_all (\<lambda>c. isLetter c \<or> isDigit c \<or> c \<in> set ''-._:~!$&()*+,;=%@'' \<or> c = CHR 0x27) s"

definition parseAuthority :: "string \<Rightarrow> string option" where
  "parseAuthority a =
     (if CHR ''@'' \<in> set a then
        (let ui = beforeLast CHR ''@'' a in
         Option.bind (parseHost (afterLast CHR ''@'' a)) (\<lambda>h.
           if \<not> validUserinfo ui then None
           else if \<not> escapesOk (before CHR '':'' ui) \<or> \<not> escapesOk (after CHR '':'' ui) then None
           else Some h))
      else parseHost a)"

text \<open>\<^verbatim>\<open>getScheme\<close>: \<^verbatim>\<open>None\<close> on \<^verbatim>\<open>missing protocol scheme\<close>, else scheme and rest.\<close>

fun schemeScan :: "string \<Rightarrow> string \<Rightarrow> string \<Rightarrow> (string \<times> string) option" where
  "schemeScan whole acc [] = Some ([], whole)"
| "schemeScan whole acc (c # s) =
     (if isLetter c then schemeScan whole (acc @ [c]) s
      else if isDigit c \<or> c \<in> set ''+-.'' then (if acc = [] then Some ([], whole) else schemeScan whole (acc @ [c]) s)
      else if c = CHR '':'' then (if acc = [] then None else Some (acc, s))
      else Some ([], whole))"

definition getScheme :: "string \<Rightarrow> (string \<times> string) option" where
  "getScheme s = schemeScan s [] s"

text \<open>The host of the parsed URL, or \<open>None\<close> when \<^verbatim>\<open>url.Parse\<close> fails.\<close>

definition urlParseHost :: "string \<Rightarrow> string option" where
  "urlParseHost raw =
     (let u = before CHR ''#'' raw; frag = after CHR ''#'' raw in
      if list_ex isCTL u then None
      else if u = ''*'' then (if escapesOk frag then Some [] else None)
      else
        Option.bind (getScheme u) (\<lambda>(scheme, rest0).
          let rest = before CHR ''?'' rest0;
              finish = (\<lambda>host path. if escapesOk path \<and> escapesOk frag then Some host else None) in
          if \<not> hasPrefix rest ''/'' \<and> scheme \<noteq> [] then finish [] []
          else if \<not> hasPrefix rest ''/'' \<and> CHR '':'' \<in> set (before CHR ''/'' rest) then None
          else if (scheme \<noteq> [] \<or> \<not> hasPrefix rest ''///'') \<and> hasPrefix rest ''//'' then
            (let a = before CHR ''/'' (drop 2 rest) in
             Option.bind (parseAuthority a) (\<lambda>h. finish h (drop (2 + length a) rest)))
          else finish [] rest))"

text \<open>\<^verbatim>\<open>URL.Hostname\<close>.\<close>

definition stripPort :: "string \<Rightarrow> string" where
  "stripPort h =
     (let n = if CHR '':'' \<in> set h \<and> validOptionalPort (CHR '':'' # afterLast CHR '':'' h)
              then beforeLast CHR '':'' h else h in
      if hasPrefix n ''['' \<and> hasSuffix n '']'' then butlast (tl n) else n)"

end
