(* ===== verification/Plan.thy ===== *)
theory Plan
  imports Common NetUrl
begin

section \<open>The resolved plan of an instance (plan.go)\<close>

text \<open>
  \<^verbatim>\<open>resolve\<close> flattens the spec with its defaults into one record of connection parameters,
  section by section in the order of the code; each section is a function on the plan
  built so far. A Go map field is an association list: \<^verbatim>\<open>redisRoles\<close> holds the separated
  roles in the order of \<^verbatim>\<open>redisRoleDescs\<close>, the only order in which the code reads it.
  The theory also holds the set of Secrets a plan refers to and the environment of the
  init container that substitutes them, which must agree.
\<close>

subsection \<open>The plan record\<close>

record dbEndpoint =
  de_host :: string
  de_port :: int32
  de_db :: string
  de_user :: string

record redisHP =
  rhp_host :: string
  rhp_port :: int32

record redisEndpoint =
  re_host :: string
  re_port :: int32
  re_db :: int32
  re_sentinels :: "redisHP list"
  re_masterName :: string
  re_passSel :: "secretKeySelector option"
  re_passEnv :: string
  re_managed :: bool
  re_ha :: bool
  re_enableTLS :: bool

record plan =
  dbManaged :: bool
  dbHost :: string
  dbPort :: int32
  dbName :: string
  dbUser :: string
  dbPassSel :: secretKeySelector
  dbReplications :: bool
  dbSlaves :: "dbEndpoint list"
  redisDefault :: redisEndpoint
  redisRolesP :: "(string \<times> redisEndpoint) list"
  provider :: searchProvider
  meiliEnabled :: bool
  meiliManaged :: bool
  meiliHost :: string
  meiliPortP :: int32
  meiliSSL :: bool
  meiliIndex :: string
  meiliScope :: string
  meiliKeySel :: secretKeySelector
  ingressHost :: string
  setupEnabled :: bool
  setupManaged :: bool
  setupSel :: secretKeySelector
  objEnabled :: bool
  objAutoConfigure :: bool
  objBucket :: string
  objEndpoint :: string
  objRegion :: string
  objPrefix :: string
  objBaseURL :: string
  objPort :: "int32 option"
  objUseSSL :: bool
  objUseProxy :: bool
  objSetPublicRead :: bool
  objForcePathStyle :: bool
  objAccessKeySel :: secretKeySelector
  objSecretKeySel :: secretKeySelector
  objColumns :: strmap
  objExtra :: strmap
  objImage :: string
  sensitiveDetectorEnabled :: bool
  sensitiveDetectorManaged :: bool
  sensitiveDetectorURL :: string
  sensitiveDetectorAPIKeySel :: secretKeySelector
  sensitiveDetectorConfigImage :: string

definition noSel :: secretKeySelector where
  "noSel = \<lparr>sel_name = [], sel_key = [], sel_optional = None\<rparr>"

definition keyOf :: "string \<Rightarrow> string \<Rightarrow> secretKeySelector" where
  "keyOf n k = \<lparr>sel_name = n, sel_key = k, sel_optional = None\<rparr>"

definition zeroEndpoint :: redisEndpoint where
  "zeroEndpoint = \<lparr>re_host = [], re_port = 0, re_db = 0, re_sentinels = [], re_masterName = [],
     re_passSel = None, re_passEnv = [], re_managed = False, re_ha = False, re_enableTLS = False\<rparr>"

definition zeroPlan :: plan where
  "zeroPlan = \<lparr>dbManaged = False, dbHost = [], dbPort = 0, dbName = [], dbUser = [], dbPassSel = noSel,
     dbReplications = False, dbSlaves = [], redisDefault = zeroEndpoint, redisRolesP = [],
     provider = [], meiliEnabled = False, meiliManaged = False, meiliHost = [], meiliPortP = 0,
     meiliSSL = False, meiliIndex = [], meiliScope = [], meiliKeySel = noSel, ingressHost = [],
     setupEnabled = False, setupManaged = False, setupSel = noSel, objEnabled = False,
     objAutoConfigure = False, objBucket = [], objEndpoint = [], objRegion = [], objPrefix = [],
     objBaseURL = [], objPort = None, objUseSSL = False, objUseProxy = False,
     objSetPublicRead = False, objForcePathStyle = False, objAccessKeySel = noSel,
     objSecretKeySel = noSel, objColumns = [], objExtra = [], objImage = [],
     sensitiveDetectorEnabled = False, sensitiveDetectorManaged = False, sensitiveDetectorURL = [],
     sensitiveDetectorAPIKeySel = noSel, sensitiveDetectorConfigImage = []\<rparr>"

subsection \<open>Host and index names\<close>

definition hostFromURL :: "string \<Rightarrow> string" where
  "hostFromURL raw =
     (let fallback = takeWhile (\<lambda>c. c \<notin> set ''/:'')
                       (trimPrefix (trimPrefix raw ''https://'') ''http://'') in
      case urlParseHost raw of
        None \<Rightarrow> fallback
      | Some h \<Rightarrow> if h = [] then fallback else stripPort h)"

definition indexChar :: "char \<Rightarrow> bool" where
  "indexChar c \<longleftrightarrow> inRange 97 122 c \<or> inRange 65 90 c \<or> inRange 48 57 c \<or> c = CHR ''-'' \<or> c = CHR ''_''"

definition sanitizeRune :: "string \<Rightarrow> char" where
  "sanitizeRune r = (case r of [c] \<Rightarrow> if indexChar c then c else CHR ''-'' | _ \<Rightarrow> CHR ''-'')"

definition sanitizeIndex :: "string \<Rightarrow> string" where
  "sanitizeIndex host =
     (let out = trimSet (map sanitizeRune (runes host)) ''-'' in
      if out = [] then ''misskey'' else out)"

subsection \<open>Redis endpoints\<close>

definition redisAuthSecretKeySelector :: "misskey \<Rightarrow> secretKeySelector" where
  "redisAuthSecretKeySelector m = keyOf (nameRedisAuthSecret m) ''password''"

definition externalRedisEndpoint :: "externalRedis \<Rightarrow> string \<Rightarrow> redisEndpoint" where
  "externalRedisEndpoint ext passEnv =
     (let ss = map (\<lambda>s. \<lparr>rhp_host = hp_host s, rhp_port = int32OrDefault (hp_port s) sentinelPort\<rparr>)
                   (xr_sentinels ext) in
      zeroEndpoint\<lparr>re_host := xr_host ext, re_port := int32OrDefault (xr_port ext) redisPort,
        re_db := xr_db ext, re_passSel := xr_passwordSecret ext, re_passEnv := passEnv,
        re_enableTLS := boolOr (xr_tls ext) False, re_sentinels := ss,
        re_masterName := (if length ss > 0 then xr_masterName ext else [])\<rparr>)"

definition managedRedisEndpoint :: "misskey \<Rightarrow> string \<Rightarrow> string \<Rightarrow> redisHA option \<Rightarrow> redisEndpoint" where
  "managedRedisEndpoint m suffix passEnv ha =
     (let authSel = redisAuthSecretKeySelector m in
      case ha of
        Some _ \<Rightarrow>
          zeroEndpoint\<lparr>re_host := nameRedisHA m suffix, re_port := redisPort,
            re_sentinels := [\<lparr>rhp_host = nameRedisSentinelService m suffix, rhp_port = sentinelPort\<rparr>],
            re_masterName := redisMasterGroup, re_passSel := Some authSel, re_passEnv := passEnv,
            re_managed := True, re_ha := True\<rparr>
      | None \<Rightarrow>
          zeroEndpoint\<lparr>re_host := nameRedisInstance m suffix, re_port := redisPort,
            re_passSel := Some authSel, re_passEnv := passEnv, re_managed := True\<rparr>)"

subsection \<open>Object-storage columns\<close>

definition objectStorageColumnDefaults :: strmap where
  "objectStorageColumnDefaults =
     [(''useObjectStorage'', ''useObjectStorage''),
      (''baseUrl'', ''objectStorageBaseUrl''),
      (''bucket'', ''objectStorageBucket''),
      (''prefix'', ''objectStoragePrefix''),
      (''endpoint'', ''objectStorageEndpoint''),
      (''region'', ''objectStorageRegion''),
      (''port'', ''objectStoragePort''),
      (''accessKey'', ''objectStorageAccessKey''),
      (''secretKey'', ''objectStorageSecretKey''),
      (''useSSL'', ''objectStorageUseSSL''),
      (''useProxy'', ''objectStorageUseProxy''),
      (''setPublicRead'', ''objectStorageSetPublicRead''),
      (''s3ForcePathStyle'', ''objectStorageS3ForcePathStyle'')]"

definition columnOverrides :: "objectStorageColumnsSpec \<Rightarrow> strmap" where
  "columnOverrides c =
     [(''useObjectStorage'', oc_useObjectStorage c),
      (''baseUrl'', oc_baseUrl c),
      (''bucket'', oc_bucket c),
      (''prefix'', oc_prefix c),
      (''endpoint'', oc_endpoint c),
      (''region'', oc_region c),
      (''port'', oc_port c),
      (''accessKey'', oc_accessKey c),
      (''secretKey'', oc_secretKey c),
      (''useSSL'', oc_useSSL c),
      (''useProxy'', oc_useProxy c),
      (''setPublicRead'', oc_setPublicRead c),
      (''s3ForcePathStyle'', oc_s3ForcePathStyle c)]"

definition objectStorageColumns :: "objectStorageColumnsSpec option \<Rightarrow> strmap" where
  "objectStorageColumns c =
     (case c of
        None \<Rightarrow> objectStorageColumnDefaults
      | Some c \<Rightarrow> mmerge objectStorageColumnDefaults (filter (\<lambda>(k, v). v \<noteq> []) (columnOverrides c)))"

subsection \<open>resolve\<close>

definition poolerEnabled :: "misskey \<Rightarrow> bool" where
  "poolerEnabled m \<longleftrightarrow> pg_pooler (postgres (spec m)) \<noteq> None"

definition readOffloadActive :: "misskey \<Rightarrow> bool" where
  "readOffloadActive m \<longleftrightarrow>
     int32OrDefault (pg_instances (postgres (spec m))) 1 \<ge> 2 \<and> boolOr (pg_readOffload (postgres (spec m))) True"

definition resolveDB :: "misskey \<Rightarrow> plan \<Rightarrow> plan" where
  "resolveDB m p =
     (case pg_external (postgres (spec m)) of
        Some ext \<Rightarrow>
          p\<lparr>dbManaged := False, dbHost := xp_host ext, dbPort := int32OrDefault (xp_port ext) postgresPort,
            dbName := xp_database ext, dbUser := xp_user ext, dbPassSel := xp_passwordSecret ext\<rparr>
      | None \<Rightarrow>
          (let nm = stringOr (pg_database (postgres (spec m))) ''misskey'';
               us = stringOr (pg_owner (postgres (spec m))) ''misskey'';
               usePooler = poolerEnabled m;
               p1 = p\<lparr>dbManaged := True, dbPort := postgresPort, dbName := nm, dbUser := us,
                      dbPassSel := keyOf (nameDBAppSecret m) ''password'',
                      dbHost := (if usePooler then nameDBPoolerRW m else nameDBService m)\<rparr> in
           if readOffloadActive m then
             p1\<lparr>dbReplications := True,
                dbSlaves := [\<lparr>de_host = (if usePooler then nameDBPoolerRO m else nameDBReadService m),
                              de_port = postgresPort, de_db = nm, de_user = us\<rparr>]\<rparr>
           else p1))"

definition roleEndpoint :: "misskey \<Rightarrow> redisRoles \<Rightarrow> redisRoleDesc \<Rightarrow> (string \<times> redisEndpoint) option" where
  "roleEndpoint m roles rd =
     (case rdd_get rd roles of
        None \<Rightarrow> None
      | Some role \<Rightarrow>
          Some (rdd_key rd,
            (case ro_external role of
               Some ext \<Rightarrow> externalRedisEndpoint ext (rdd_passEnv rd)
             | None \<Rightarrow> managedRedisEndpoint m (rdd_nameSuffix rd) (rdd_passEnv rd) (ro_ha role))))"

definition resolveRedis :: "misskey \<Rightarrow> plan \<Rightarrow> plan" where
  "resolveRedis m p =
     (let rs = redis (spec m) in
      p\<lparr>redisDefault :=
          (case rd_external rs of
             Some ext \<Rightarrow> externalRedisEndpoint ext ''REDIS_PASSWORD''
           | None \<Rightarrow> managedRedisEndpoint m [] ''REDIS_PASSWORD'' (rd_ha rs)),
        redisRolesP :=
          (case rd_roles rs of
             None \<Rightarrow> []
           | Some roles \<Rightarrow> List.map_filter (roleEndpoint m roles) redisRoleDescs)\<rparr>)"

definition resolveSearch :: "misskey \<Rightarrow> plan \<Rightarrow> plan" where
  "resolveSearch m p =
     (let pv = stringOr (se_provider (search (spec m))) SearchMeilisearch;
          ms = se_meilisearch (search (spec m)) in
      if pv = SearchMeilisearch then
        (let p1 = p\<lparr>provider := pv, meiliEnabled := True,
                    meiliIndex := stringOr (ms_index ms) (sanitizeIndex (hostFromURL (url (spec m)))),
                    meiliScope := stringOr (ms_scope ms) ''local''\<rparr> in
         case ms_external ms of
           Some ext \<Rightarrow>
             p1\<lparr>meiliManaged := False, meiliHost := xm_host ext,
                meiliPortP := int32OrDefault (xm_port ext) meiliPort, meiliSSL := xm_ssl ext,
                meiliKeySel := xm_apiKeySecret ext\<rparr>
         | None \<Rightarrow>
             p1\<lparr>meiliManaged := True, meiliHost := nameMeili m, meiliPortP := meiliPort, meiliSSL := False,
                meiliKeySel := (case ms_masterKeySecret ms of
                   Some s \<Rightarrow> s | None \<Rightarrow> keyOf (nameMeili m) meiliMasterKeyID)\<rparr>)
      else p\<lparr>provider := pv\<rparr>)"

definition resolveObjectStorage :: "misskey \<Rightarrow> plan \<Rightarrow> plan" where
  "resolveObjectStorage m p =
     (case objectStorage (spec m) of
        None \<Rightarrow> p
      | Some os \<Rightarrow>
          p\<lparr>objEnabled := True, objAutoConfigure := boolOr (os_autoConfigure os) True,
            objBucket := os_bucket os, objEndpoint := os_endpoint os,
            objRegion := stringOr (os_region os) ''us-east-1'', objPrefix := os_prefix os,
            objBaseURL := os_baseUrl os, objPort := os_port os,
            objUseSSL := boolOr (os_useSSL os) True, objUseProxy := boolOr (os_useProxy os) True,
            objSetPublicRead := boolOr (os_setPublicRead os) False,
            objForcePathStyle := boolOr (os_s3ForcePathStyle os) True,
            objAccessKeySel := s3_accessKeyId (os_credentials os),
            objSecretKeySel := s3_secretAccessKey (os_credentials os),
            objColumns := objectStorageColumns (os_columnNames os), objExtra := os_extraColumns os,
            objImage := stringOr (os_image os) ''ghcr.io/cloudnative-pg/postgresql:17''\<rparr>)"

definition resolveDetector :: "misskey \<Rightarrow> plan \<Rightarrow> plan" where
  "resolveDetector m p =
     (case sensitiveDetector (spec m) of
        None \<Rightarrow> p
      | Some d \<Rightarrow>
          (let p1 = p\<lparr>sensitiveDetectorEnabled := True, sensitiveDetectorConfigImage :=
                        stringOr (sd_configJobImage d) ''ghcr.io/cloudnative-pg/postgresql:17''\<rparr> in
           case sd_external d of
             Some ext \<Rightarrow>
               p1\<lparr>sensitiveDetectorURL := xd_url ext, sensitiveDetectorAPIKeySel := xd_apiKeySecret ext\<rparr>
           | None \<Rightarrow>
               p1\<lparr>sensitiveDetectorManaged := True,
                  sensitiveDetectorURL :=
                    ''http://'' @ nameSensitiveDetector m @ '':'' @ itoa sensitiveDetectorPort,
                  sensitiveDetectorAPIKeySel := (case sd_apiKeySecret d of
                    Some s \<Rightarrow> s
                  | None \<Rightarrow> keyOf (nameSensitiveDetector m) sensitiveDetectorAPIKeyID)\<rparr>))"

definition resolveIngress :: "misskey \<Rightarrow> plan \<Rightarrow> plan" where
  "resolveIngress m p =
     p\<lparr>ingressHost := stringOr (ig_host (ingress (spec m))) (hostFromURL (url (spec m)))\<rparr>"

definition resolveSetup :: "misskey \<Rightarrow> plan \<Rightarrow> plan" where
  "resolveSetup m p =
     (case setupPassword (spec m) of
        None \<Rightarrow> p
      | Some sp \<Rightarrow>
          (case sp_secretRef sp of
             Some s \<Rightarrow> p\<lparr>setupEnabled := True, setupSel := s\<rparr>
           | None \<Rightarrow> p\<lparr>setupEnabled := True, setupManaged := True,
                       setupSel := keyOf (nameSetup m) setupPasswordID\<rparr>))"

definition resolve :: "misskey \<Rightarrow> plan" where
  "resolve m = resolveSetup m (resolveIngress m (resolveDetector m (resolveObjectStorage m
     (resolveSearch m (resolveRedis m (resolveDB m zeroPlan))))))"

lemmas resolve_defs = resolve_def resolveSetup_def resolveIngress_def resolveDetector_def
  resolveObjectStorage_def resolveSearch_def resolveRedis_def resolveDB_def

subsection \<open>Secrets a plan refers to\<close>

definition referencedSecretNames :: "plan \<Rightarrow> string list" where
  "referencedSecretNames p = remdups
     ([sel_name (dbPassSel p)]
      @ (if meiliEnabled p then [sel_name (meiliKeySel p)] else [])
      @ (case re_passSel (redisDefault p) of Some s \<Rightarrow> [sel_name s] | None \<Rightarrow> [])
      @ List.map_filter (\<lambda>rd. case map_of (redisRolesP p) (rdd_key rd) of
            Some ep \<Rightarrow> map_option sel_name (re_passSel ep) | None \<Rightarrow> None) redisRoleDescs
      @ (if setupEnabled p then [sel_name (setupSel p)] else []))"

text \<open>
  Go ranges over the name set in an unspecified order; the result is sorted, so the order
  only decides which Secret is read first.
\<close>

fun secretVersions :: "string \<Rightarrow> string list \<Rightarrow> (error + string list) io" where
  "secretVersions ns [] = Ret (Inr [])"
| "secretVersions ns (n # names) =
     chk (secretVersion ns n) (\<lambda>v. chk (secretVersions ns names) (\<lambda>vs. Ret (Inr (v # vs))))"

definition referencedSecretVersions :: "misskey \<Rightarrow> plan \<Rightarrow> (error + string list) io" where
  "referencedSecretVersions m p =
     chk (secretVersions (mnamespace m) (referencedSecretNames p)) (\<lambda>vs. Ret (Inr (sort vs)))"

lemma secretVersions_calls [calls_intros]: "(\<And>n. P (QGet KSecret ns n)) \<Longrightarrow> calls P (secretVersions ns names)"
  by (induction names) (auto intro!: calls_intros)

lemma referencedSecretVersions_calls [calls_intros]:
  "(\<And>n. P (QGet KSecret (mnamespace m) n)) \<Longrightarrow> calls P (referencedSecretVersions m p)"
  unfolding referencedSecretVersions_def by (intro calls_intros)

subsection \<open>The environment of the render-config container (misskey\_pod.go)\<close>

definition secretEnv :: "string \<Rightarrow> secretKeySelector \<Rightarrow> envVar" where
  "secretEnv n sel = \<lparr>ev_name = n, ev_value = [], ev_secret = Some sel\<rparr>"

definition plainEnv :: "string \<Rightarrow> string \<Rightarrow> envVar" where
  "plainEnv n v = \<lparr>ev_name = n, ev_value = v, ev_secret = None\<rparr>"

definition renderInitEnv :: "plan \<Rightarrow> envVar list" where
  "renderInitEnv p =
     [secretEnv ''DB_PASSWORD'' (dbPassSel p)]
     @ (if meiliEnabled p then [secretEnv ''MEILI_KEY'' (meiliKeySel p)] else [])
     @ (case re_passSel (redisDefault p) of
          Some s \<Rightarrow> [secretEnv (re_passEnv (redisDefault p)) s] | None \<Rightarrow> [])
     @ List.map_filter (\<lambda>rd. case map_of (redisRolesP p) (rdd_key rd) of
          Some ep \<Rightarrow> map_option (secretEnv (re_passEnv ep)) (re_passSel ep) | None \<Rightarrow> None) redisRoleDescs
     @ (if setupEnabled p then [secretEnv ''SETUP_PASSWORD'' (setupSel p)] else [])"

text \<open>The placeholders the init container's script replaces (the key list of \<^verbatim>\<open>renderConfigScript\<close>).\<close>

definition scriptKeys :: "string list" where
  "scriptKeys = [''DB_PASSWORD'', ''MEILI_KEY'', ''REDIS_PASSWORD'', ''REDIS_PASSWORD_JOBQUEUE'',
     ''REDIS_PASSWORD_PUBSUB'', ''REDIS_PASSWORD_TIMELINES'', ''REDIS_PASSWORD_REACTIONS'',
     ''SETUP_PASSWORD'']"

subsection \<open>What the sections of the plan are\<close>

text \<open>A section of \<^verbatim>\<open>resolve\<close> only sets its own fields.\<close>

lemma resolveDB_frame [simp]:
  "redisDefault (resolveDB m p) = redisDefault p" "redisRolesP (resolveDB m p) = redisRolesP p"
  "provider (resolveDB m p) = provider p" "meiliEnabled (resolveDB m p) = meiliEnabled p"
  "meiliManaged (resolveDB m p) = meiliManaged p" "meiliHost (resolveDB m p) = meiliHost p"
  "meiliPortP (resolveDB m p) = meiliPortP p" "meiliSSL (resolveDB m p) = meiliSSL p"
  "meiliIndex (resolveDB m p) = meiliIndex p" "meiliScope (resolveDB m p) = meiliScope p"
  "meiliKeySel (resolveDB m p) = meiliKeySel p" "setupEnabled (resolveDB m p) = setupEnabled p"
  "setupManaged (resolveDB m p) = setupManaged p" "setupSel (resolveDB m p) = setupSel p"
  by (simp_all add: resolveDB_def Let_def split: option.split)

lemma resolveRedis_frame [simp]:
  "dbManaged (resolveRedis m p) = dbManaged p" "dbHost (resolveRedis m p) = dbHost p"
  "dbPort (resolveRedis m p) = dbPort p" "dbName (resolveRedis m p) = dbName p"
  "dbUser (resolveRedis m p) = dbUser p" "dbPassSel (resolveRedis m p) = dbPassSel p"
  "dbReplications (resolveRedis m p) = dbReplications p" "dbSlaves (resolveRedis m p) = dbSlaves p"
  "provider (resolveRedis m p) = provider p" "meiliEnabled (resolveRedis m p) = meiliEnabled p"
  "meiliManaged (resolveRedis m p) = meiliManaged p" "meiliHost (resolveRedis m p) = meiliHost p"
  "meiliPortP (resolveRedis m p) = meiliPortP p" "meiliSSL (resolveRedis m p) = meiliSSL p"
  "meiliIndex (resolveRedis m p) = meiliIndex p" "meiliScope (resolveRedis m p) = meiliScope p"
  "meiliKeySel (resolveRedis m p) = meiliKeySel p"
  "setupEnabled (resolveRedis m p) = setupEnabled p"
  "setupManaged (resolveRedis m p) = setupManaged p" "setupSel (resolveRedis m p) = setupSel p"
  by (simp_all add: resolveRedis_def Let_def split: option.split)

lemma resolveSearch_frame [simp]:
  "dbManaged (resolveSearch m p) = dbManaged p" "dbHost (resolveSearch m p) = dbHost p"
  "dbPort (resolveSearch m p) = dbPort p" "dbName (resolveSearch m p) = dbName p"
  "dbUser (resolveSearch m p) = dbUser p" "dbPassSel (resolveSearch m p) = dbPassSel p"
  "dbReplications (resolveSearch m p) = dbReplications p"
  "dbSlaves (resolveSearch m p) = dbSlaves p" "redisDefault (resolveSearch m p) = redisDefault p"
  "redisRolesP (resolveSearch m p) = redisRolesP p"
  "setupEnabled (resolveSearch m p) = setupEnabled p"
  "setupManaged (resolveSearch m p) = setupManaged p" "setupSel (resolveSearch m p) = setupSel p"
  by (simp_all add: resolveSearch_def Let_def split: option.split)

lemma resolveObjectStorage_frame [simp]:
  "dbManaged (resolveObjectStorage m p) = dbManaged p"
  "dbHost (resolveObjectStorage m p) = dbHost p" "dbPort (resolveObjectStorage m p) = dbPort p"
  "dbName (resolveObjectStorage m p) = dbName p" "dbUser (resolveObjectStorage m p) = dbUser p"
  "dbPassSel (resolveObjectStorage m p) = dbPassSel p"
  "dbReplications (resolveObjectStorage m p) = dbReplications p"
  "dbSlaves (resolveObjectStorage m p) = dbSlaves p"
  "redisDefault (resolveObjectStorage m p) = redisDefault p"
  "redisRolesP (resolveObjectStorage m p) = redisRolesP p"
  "provider (resolveObjectStorage m p) = provider p"
  "meiliEnabled (resolveObjectStorage m p) = meiliEnabled p"
  "meiliManaged (resolveObjectStorage m p) = meiliManaged p"
  "meiliHost (resolveObjectStorage m p) = meiliHost p"
  "meiliPortP (resolveObjectStorage m p) = meiliPortP p"
  "meiliSSL (resolveObjectStorage m p) = meiliSSL p"
  "meiliIndex (resolveObjectStorage m p) = meiliIndex p"
  "meiliScope (resolveObjectStorage m p) = meiliScope p"
  "meiliKeySel (resolveObjectStorage m p) = meiliKeySel p"
  "setupEnabled (resolveObjectStorage m p) = setupEnabled p"
  "setupManaged (resolveObjectStorage m p) = setupManaged p"
  "setupSel (resolveObjectStorage m p) = setupSel p"
  by (simp_all add: resolveObjectStorage_def Let_def split: option.split)

lemma resolveDetector_frame [simp]:
  "dbManaged (resolveDetector m p) = dbManaged p" "dbHost (resolveDetector m p) = dbHost p"
  "dbPort (resolveDetector m p) = dbPort p" "dbName (resolveDetector m p) = dbName p"
  "dbUser (resolveDetector m p) = dbUser p" "dbPassSel (resolveDetector m p) = dbPassSel p"
  "dbReplications (resolveDetector m p) = dbReplications p"
  "dbSlaves (resolveDetector m p) = dbSlaves p"
  "redisDefault (resolveDetector m p) = redisDefault p"
  "redisRolesP (resolveDetector m p) = redisRolesP p" "provider (resolveDetector m p) = provider p"
  "meiliEnabled (resolveDetector m p) = meiliEnabled p"
  "meiliManaged (resolveDetector m p) = meiliManaged p"
  "meiliHost (resolveDetector m p) = meiliHost p" "meiliPortP (resolveDetector m p) = meiliPortP p"
  "meiliSSL (resolveDetector m p) = meiliSSL p" "meiliIndex (resolveDetector m p) = meiliIndex p"
  "meiliScope (resolveDetector m p) = meiliScope p"
  "meiliKeySel (resolveDetector m p) = meiliKeySel p"
  "setupEnabled (resolveDetector m p) = setupEnabled p"
  "setupManaged (resolveDetector m p) = setupManaged p"
  "setupSel (resolveDetector m p) = setupSel p"
  by (simp_all add: resolveDetector_def Let_def split: option.split)

lemma resolveIngress_frame [simp]:
  "dbManaged (resolveIngress m p) = dbManaged p" "dbHost (resolveIngress m p) = dbHost p"
  "dbPort (resolveIngress m p) = dbPort p" "dbName (resolveIngress m p) = dbName p"
  "dbUser (resolveIngress m p) = dbUser p" "dbPassSel (resolveIngress m p) = dbPassSel p"
  "dbReplications (resolveIngress m p) = dbReplications p"
  "dbSlaves (resolveIngress m p) = dbSlaves p" "redisDefault (resolveIngress m p) = redisDefault p"
  "redisRolesP (resolveIngress m p) = redisRolesP p" "provider (resolveIngress m p) = provider p"
  "meiliEnabled (resolveIngress m p) = meiliEnabled p"
  "meiliManaged (resolveIngress m p) = meiliManaged p"
  "meiliHost (resolveIngress m p) = meiliHost p" "meiliPortP (resolveIngress m p) = meiliPortP p"
  "meiliSSL (resolveIngress m p) = meiliSSL p" "meiliIndex (resolveIngress m p) = meiliIndex p"
  "meiliScope (resolveIngress m p) = meiliScope p"
  "meiliKeySel (resolveIngress m p) = meiliKeySel p"
  "setupEnabled (resolveIngress m p) = setupEnabled p"
  "setupManaged (resolveIngress m p) = setupManaged p" "setupSel (resolveIngress m p) = setupSel p"
  by (simp_all add: resolveIngress_def Let_def split: option.split)

lemma resolveSetup_frame [simp]:
  "dbManaged (resolveSetup m p) = dbManaged p" "dbHost (resolveSetup m p) = dbHost p"
  "dbPort (resolveSetup m p) = dbPort p" "dbName (resolveSetup m p) = dbName p"
  "dbUser (resolveSetup m p) = dbUser p" "dbPassSel (resolveSetup m p) = dbPassSel p"
  "dbReplications (resolveSetup m p) = dbReplications p" "dbSlaves (resolveSetup m p) = dbSlaves p"
  "redisDefault (resolveSetup m p) = redisDefault p"
  "redisRolesP (resolveSetup m p) = redisRolesP p" "provider (resolveSetup m p) = provider p"
  "meiliEnabled (resolveSetup m p) = meiliEnabled p"
  "meiliManaged (resolveSetup m p) = meiliManaged p" "meiliHost (resolveSetup m p) = meiliHost p"
  "meiliPortP (resolveSetup m p) = meiliPortP p" "meiliSSL (resolveSetup m p) = meiliSSL p"
  "meiliIndex (resolveSetup m p) = meiliIndex p" "meiliScope (resolveSetup m p) = meiliScope p"
  "meiliKeySel (resolveSetup m p) = meiliKeySel p"
  by (simp_all add: resolveSetup_def Let_def split: option.split)

lemma resolve_redis [simp]:
  "redisDefault (resolve m) = redisDefault (resolveRedis m zeroPlan)"
  "redisRolesP (resolve m) = redisRolesP (resolveRedis m zeroPlan)"
  by (simp_all add: resolve_def resolveRedis_def Let_def)

lemma resolve_db:
  "dbManaged (resolve m) = dbManaged (resolveDB m zeroPlan)"
  "dbHost (resolve m) = dbHost (resolveDB m zeroPlan)"
  "dbReplications (resolve m) = dbReplications (resolveDB m zeroPlan)"
  "dbSlaves (resolve m) = dbSlaves (resolveDB m zeroPlan)"
  "dbPassSel (resolve m) = dbPassSel (resolveDB m zeroPlan)"
  by (simp_all add: resolve_def)

lemma endpoint_passEnv [simp]:
  "re_passEnv (externalRedisEndpoint ext e) = e" "re_passEnv (managedRedisEndpoint m s e ha) = e"
  by (simp_all add: externalRedisEndpoint_def managedRedisEndpoint_def Let_def split: option.splits)

lemma default_passEnv [simp]: "re_passEnv (redisDefault (resolve m)) = ''REDIS_PASSWORD''"
  by (simp add: resolveRedis_def Let_def split: option.splits)

lemma map_of_map_filter_keyed:
  assumes "distinct (map key xs)" and "\<And>x y. x \<in> set xs \<Longrightarrow> f x = Some y \<Longrightarrow> fst y = key x" and "x \<in> set xs"
  shows "map_of (List.map_filter f xs) (key x) = map_option snd (f x)"
  using assms
proof (induction xs)
  case (Cons a xs)
  have keys: "key ` set xs \<inter> {key a} = {}" using Cons.prems(1) by auto
  have none: "map_of (List.map_filter f xs) (key a) = None"
    unfolding map_of_eq_None_iff List.map_filter_def
    using keys Cons.prems(2) by (auto simp: image_iff)
  show ?case
  proof (cases "x = a")
    case True
    with none Cons.prems(2) [of a] show ?thesis
      by (cases "f a") (auto simp: List.map_filter_simps)
  next
    case False
    with Cons.prems have x: "x \<in> set xs" by simp
    have ne: "key x \<noteq> key a" using keys x by (metis disjoint_iff image_eqI singletonI)
    have "map_of (List.map_filter f xs) (key x) = map_option snd (f x)"
      using Cons.IH x Cons.prems(1,2) by simp
    with ne Cons.prems(2) [of a] show ?thesis
      by (cases "f a") (auto simp: List.map_filter_simps)
  qed
qed simp

text \<open>Looking a role up in the plan is looking it up in the spec.\<close>

lemma role_lookup:
  assumes "rd \<in> set redisRoleDescs"
  shows "map_of (redisRolesP (resolve m)) (rdd_key rd) =
           Option.bind (rd_roles (redis (spec m))) (\<lambda>roles. map_option snd (roleEndpoint m roles rd))"
proof (cases "rd_roles (redis (spec m))")
  case None
  then show ?thesis by (simp add: resolveRedis_def Let_def)
next
  case (Some roles)
  have "map_of (List.map_filter (roleEndpoint m roles) redisRoleDescs) (rdd_key rd)
      = map_option snd (roleEndpoint m roles rd)"
    by (rule map_of_map_filter_keyed [OF distinct_redisRoleDescs(1) _ assms])
       (auto simp: roleEndpoint_def split: option.splits)
  with Some show ?thesis by (simp add: resolveRedis_def Let_def)
qed

lemma roleEndpoint_passEnv: "roleEndpoint m roles rd = Some (k, ep) \<Longrightarrow> re_passEnv ep = rdd_passEnv rd"
  by (cases "rdd_get rd roles") (auto simp: roleEndpoint_def split: option.split)

lemma role_passEnv:
  assumes "rd \<in> set redisRoleDescs" "map_of (redisRolesP (resolve m)) (rdd_key rd) = Some ep"
  shows "re_passEnv ep = rdd_passEnv rd"
proof -
  obtain roles x where "roleEndpoint m roles rd = Some x" "ep = snd x"
    using assms(2) unfolding role_lookup [OF assms(1)] by (auto simp: bind_eq_Some_conv)
  then show ?thesis using roleEndpoint_passEnv [of m roles rd "fst x" "snd x"] by simp
qed

lemma map_map_filter_names:
  assumes "\<And>x y. x \<in> set xs \<Longrightarrow> f x = Some y \<Longrightarrow> g y = h x"
  shows "map g (List.map_filter f xs) = map h (filter (\<lambda>x. f x \<noteq> None) xs)"
  using assms by (induction xs) (auto simp: List.map_filter_simps split: option.splits)

lemma role_env_names:
  "map ev_name (List.map_filter (\<lambda>rd. case map_of (redisRolesP (resolve m)) (rdd_key rd) of
      Some ep \<Rightarrow> map_option (secretEnv (re_passEnv ep)) (re_passSel ep) | None \<Rightarrow> None) redisRoleDescs)
   = map rdd_passEnv (filter (\<lambda>rd. (case map_of (redisRolesP (resolve m)) (rdd_key rd) of
      Some ep \<Rightarrow> map_option (secretEnv (re_passEnv ep)) (re_passSel ep) | None \<Rightarrow> None) \<noteq> None) redisRoleDescs)"
  by (rule map_map_filter_names) (auto simp: secretEnv_def role_passEnv split: option.splits)

lemma renderInitEnv_names:
  "distinct (map ev_name (renderInitEnv (resolve m)))"
  "set (map ev_name (renderInitEnv (resolve m))) \<subseteq> set scriptKeys"
proof -
  let ?R = "filter (\<lambda>rd. (case map_of (redisRolesP (resolve m)) (rdd_key rd) of
      Some ep \<Rightarrow> map_option (secretEnv (re_passEnv ep)) (re_passSel ep) | None \<Rightarrow> None) \<noteq> None) redisRoleDescs"
  have names: "map ev_name (renderInitEnv (resolve m)) =
      [''DB_PASSWORD''] @ (if meiliEnabled (resolve m) then [''MEILI_KEY''] else [])
      @ (if re_passSel (redisDefault (resolve m)) \<noteq> None then [''REDIS_PASSWORD''] else [])
      @ map rdd_passEnv ?R @ (if setupEnabled (resolve m) then [''SETUP_PASSWORD''] else [])"
    unfolding renderInitEnv_def map_append role_env_names default_passEnv
    by (simp add: secretEnv_def split: option.split)
  have sub: "set (map rdd_passEnv ?R) \<subseteq> rdd_passEnv ` set redisRoleDescs" by auto
  also have "\<dots> = {''REDIS_PASSWORD_JOBQUEUE'', ''REDIS_PASSWORD_PUBSUB'', ''REDIS_PASSWORD_TIMELINES'',
      ''REDIS_PASSWORD_REACTIONS''}"
    by (simp add: redisRoleDescs_def)
  finally have env: "set (map rdd_passEnv ?R) \<subseteq> \<dots>" .
  have dist: "distinct (map rdd_passEnv ?R)"
    by (rule distinct_map_filter) (rule distinct_redisRoleDescs)
  show "distinct (map ev_name (renderInitEnv (resolve m)))"
    unfolding names using env dist by auto
  show "set (map ev_name (renderInitEnv (resolve m))) \<subseteq> set scriptKeys"
    unfolding names scriptKeys_def using env by auto
qed

lemma set_map_filter_iff: "y \<in> set (List.map_filter f xs) \<longleftrightarrow> (\<exists>x\<in>set xs. f x = Some y)"
  by (induction xs) (auto simp: List.map_filter_simps split: option.splits)

lemma renderInitEnv_secrets:
  "set (List.map_filter (\<lambda>e. map_option sel_name (ev_secret e)) (renderInitEnv p)) =
     set (referencedSecretNames p)"
proof (rule set_eqI)
  fix n
  have role: "(\<exists>e\<in>set (List.map_filter (\<lambda>rd. case map_of (redisRolesP p) (rdd_key rd) of
          Some ep \<Rightarrow> map_option (secretEnv (re_passEnv ep)) (re_passSel ep) | None \<Rightarrow> None) xs).
        map_option sel_name (ev_secret e) = Some n) \<longleftrightarrow>
      n \<in> set (List.map_filter (\<lambda>rd. case map_of (redisRolesP p) (rdd_key rd) of
          Some ep \<Rightarrow> map_option sel_name (re_passSel ep) | None \<Rightarrow> None) xs)" for xs
    by (induction xs) (auto simp: List.map_filter_simps secretEnv_def split: option.splits)
  show "n \<in> set (List.map_filter (\<lambda>e. map_option sel_name (ev_secret e)) (renderInitEnv p)) \<longleftrightarrow>
      n \<in> set (referencedSecretNames p)"
    unfolding set_map_filter_iff [of n _ "renderInitEnv p"]
    unfolding renderInitEnv_def referencedSecretNames_def set_append bex_Un role set_remdups Un_iff
    by (cases "re_passSel (redisDefault p)") (auto simp: secretEnv_def)
qed

subsection \<open>The Meilisearch index name\<close>

lemma trimSet_props:
  "set (trimSet s cs) \<subseteq> set s"
  "trimSet s cs \<noteq> [] \<Longrightarrow> hd (trimSet s cs) \<notin> set cs \<and> last (trimSet s cs) \<notin> set cs"
proof -
  show "set (trimSet s cs) \<subseteq> set s"
    by (auto simp: trimSet_def trimRightSet_def trimLeftSet_def dest!: set_dropWhileD)
next
  let ?t = "trimLeftSet s cs"
  assume ne: "trimSet s cs \<noteq> []"
  then have ne2: "dropWhile (\<lambda>c. c \<in> set cs) (rev ?t) \<noteq> []"
    by (auto simp: trimSet_def trimRightSet_def)
  then have "last (trimSet s cs) \<notin> set cs"
    unfolding trimSet_def trimRightSet_def last_rev using hd_dropWhile [OF ne2] by blast
  moreover have "hd (trimSet s cs) = hd ?t"
  proof -
    have "?t = trimSet s cs @ rev (takeWhile (\<lambda>c. c \<in> set cs) (rev ?t))"
      unfolding trimSet_def trimRightSet_def rev_append [symmetric] by simp
    with ne show ?thesis by (metis hd_append2)
  qed
  moreover have "?t \<noteq> []" using ne2 by auto
  then have "hd ?t \<notin> set cs" unfolding trimLeftSet_def using hd_dropWhile by blast
  ultimately show "hd (trimSet s cs) \<notin> set cs \<and> last (trimSet s cs) \<notin> set cs" by simp
qed

lemma sanitizeRune_ok: "indexChar (sanitizeRune r)"
  by (auto simp: sanitizeRune_def indexChar_def split: list.split)

lemma sanitizeIndex_ok:
  "sanitizeIndex h \<noteq> []" "list_all indexChar (sanitizeIndex h)"
  "hd (sanitizeIndex h) \<noteq> CHR ''-''" "last (sanitizeIndex h) \<noteq> CHR ''-''"
proof -
  let ?s = "map sanitizeRune (runes h)"
  have all: "list_all indexChar ?s" by (simp add: list_all_iff sanitizeRune_ok)
  have dflt: "list_all indexChar ''misskey''" by (simp add: indexChar_def inRange_def byte_def)
  show "sanitizeIndex h \<noteq> []" by (simp add: sanitizeIndex_def Let_def)
  show "list_all indexChar (sanitizeIndex h)"
    using all dflt trimSet_props(1) [of ?s "''-''"]
    by (auto simp: sanitizeIndex_def Let_def list_all_iff)
  show "hd (sanitizeIndex h) \<noteq> CHR ''-''" "last (sanitizeIndex h) \<noteq> CHR ''-''"
    using trimSet_props(2) [of ?s "''-''"] by (auto simp: sanitizeIndex_def Let_def)
qed

subsection \<open>Well-formed plans\<close>

text \<open>
  What the readers of a plan rely on. An endpoint has a port, its sentinels have one too, and a
  master name is set only together with sentinels.
\<close>

definition endpointOk :: "string \<Rightarrow> redisEndpoint \<Rightarrow> bool" where
  "endpointOk passEnv ep \<longleftrightarrow> re_passEnv ep = passEnv \<and> re_port ep \<noteq> 0 \<and>
     list_all (\<lambda>s. rhp_port s \<noteq> 0) (re_sentinels ep) \<and> (re_sentinels ep = [] \<longrightarrow> re_masterName ep = []) \<and>
     (re_managed ep \<longrightarrow> re_passSel ep \<noteq> None)"

lemma endpoints_ok: "endpointOk e (externalRedisEndpoint ext e)" "endpointOk e (managedRedisEndpoint m s e ha)"
  by (auto simp: endpointOk_def externalRedisEndpoint_def managedRedisEndpoint_def zeroEndpoint_def int32OrDefault_def
      redisPort_def sentinelPort_def list_all_iff Let_def split: option.splits)

lemma resolved_role:
  assumes "(k, ep) \<in> set (redisRolesP (resolve m))"
  obtains rd where "rd \<in> set redisRoleDescs" "k = rdd_key rd" "endpointOk (rdd_passEnv rd) ep"
proof -
  from assms obtain roles where "(k, ep) \<in> set (List.map_filter (roleEndpoint m roles) redisRoleDescs)"
    by (auto simp: resolveRedis_def zeroPlan_def Let_def split: option.splits)
  then obtain rd where rd: "rd \<in> set redisRoleDescs" "roleEndpoint m roles rd = Some (k, ep)" unfolding set_map_filter_iff by blast
  then show thesis using that by (auto simp: roleEndpoint_def endpoints_ok split: option.splits)
qed

lemma resolved_roles_distinct: "distinct (map fst (redisRolesP (resolve m)))"
proof (cases "rd_roles (redis (spec m))")
  case (Some roles)
  have "map fst (List.map_filter (roleEndpoint m roles) redisRoleDescs) =
      map rdd_key (filter (\<lambda>rd. roleEndpoint m roles rd \<noteq> None) redisRoleDescs)"
    by (rule map_map_filter_names) (auto simp: roleEndpoint_def split: option.splits)
  with Some show ?thesis using distinct_redisRoleDescs(1) by (simp add: resolveRedis_def Let_def distinct_map_filter)
qed (simp add: resolveRedis_def zeroPlan_def Let_def)

text \<open>
  C20: a resolved plan is well formed, whatever the spec says. Every endpoint has a port; the
  default Redis and each role, at most one endpoint per role, read their password from the
  variable of that role; the variables of the init container have distinct names, all of them
  known to the render script; the Secrets behind them are exactly those whose versions enter the
  checksum that rolls the Pods; and an index name derived from the URL is never empty and is
  lower-case alphanumeric with inner dashes and underscores.
\<close>
theorem plan_well_formed:
  fixes m :: misskey
  defines "p \<equiv> resolve m"
  shows "dbPort p \<noteq> 0 \<and> list_all (\<lambda>s. de_port s \<noteq> 0) (dbSlaves p) \<and> (meiliEnabled p \<longrightarrow> meiliPortP p \<noteq> 0)
    \<and> endpointOk ''REDIS_PASSWORD'' (redisDefault p)
    \<and> distinct (map fst (redisRolesP p))
    \<and> (\<forall>(k, ep)\<in>set (redisRolesP p). \<exists>rd\<in>set redisRoleDescs. k = rdd_key rd \<and> endpointOk (rdd_passEnv rd) ep)
    \<and> distinct (map ev_name (renderInitEnv p)) \<and> set (map ev_name (renderInitEnv p)) \<subseteq> set scriptKeys
    \<and> set (List.map_filter (\<lambda>e. map_option sel_name (ev_secret e)) (renderInitEnv p)) = set (referencedSecretNames p)
    \<and> (meiliEnabled p \<and> ms_index (se_meilisearch (search (spec m))) = [] \<longrightarrow>
         meiliIndex p \<noteq> [] \<and> list_all indexChar (meiliIndex p) \<and> hd (meiliIndex p) \<noteq> CHR ''-'' \<and> last (meiliIndex p) \<noteq> CHR ''-'')"
proof -
  have db: "dbPort p \<noteq> 0 \<and> list_all (\<lambda>s. de_port s \<noteq> 0) (dbSlaves p)"
    by (simp add: p_def resolve_def resolveDB_def zeroPlan_def int32OrDefault_def postgresPort_def Let_def split: option.split)
  have me: "meiliEnabled p \<Longrightarrow> meiliPortP p \<noteq> 0"
    "meiliEnabled p \<Longrightarrow> ms_index (se_meilisearch (search (spec m))) = [] \<Longrightarrow> meiliIndex p = sanitizeIndex (hostFromURL (url (spec m)))"
    by (auto simp: p_def resolve_def resolveSearch_def zeroPlan_def int32OrDefault_def meiliPort_def stringOr_def Let_def
        split: option.splits if_splits)
  have rd: "endpointOk ''REDIS_PASSWORD'' (redisDefault p)"
    by (simp add: p_def resolveRedis_def endpoints_ok Let_def split: option.split)
  have "\<forall>(k, ep)\<in>set (redisRolesP p). \<exists>rd\<in>set redisRoleDescs. k = rdd_key rd \<and> endpointOk (rdd_passEnv rd) ep"
    unfolding p_def by (auto simp del: resolve_redis elim: resolved_role)
  with db me rd show ?thesis
    using resolved_roles_distinct [of m] renderInitEnv_names [of m] renderInitEnv_secrets [of p]
      sanitizeIndex_ok [of "hostFromURL (url (spec m))"] unfolding p_def by simp
qed

end
