(* ===== verification/Config.thy ===== *)
theory Config
  imports Plan
begin

section \<open>Rendered configuration (config.go)\<close>

text \<open>
  The text of \<^verbatim>\<open>default.yml\<close>, the Caddyfile and the maintenance page, the plan of the
  migration, and the reconcilers of the ConfigMaps and the setup Secret. The replacement of
  the placeholders by the init container's script (\<^verbatim>\<open>misskey_pod.go\<close>,
  \<^verbatim>\<open>renderConfigScript\<close>) is here too, since the safety of the rendered text depends on it.
\<close>

subsection \<open>Scalars\<close>

definition yq :: "string \<Rightarrow> string" where
  "yq s = jsonString s"

definition headerNameChar :: "char \<Rightarrow> bool" where
  "headerNameChar c \<longleftrightarrow> inRange 65 90 c \<or> inRange 97 122 c \<or> inRange 48 57 c \<or> c = CHR ''-''"

definition clientIPHeaderPattern :: "string \<Rightarrow> bool" where
  "clientIPHeaderPattern h \<longleftrightarrow> h \<noteq> [] \<and> list_all headerNameChar h"

text \<open>\<^verbatim>\<open>strings.TrimSpace(s) == ""\<close>: every rune of the string is white space.\<close>

definition spaceRunes :: "string list" where
  "spaceRunes = [[CHR 0x09], [CHR 0x0A], [CHR 0x0B], [CHR 0x0C], [CHR 0x0D], [CHR 0x20],
     [CHR 0xC2, CHR 0x85], [CHR 0xC2, CHR 0xA0], [CHR 0xE1, CHR 0x9A, CHR 0x80]]
     @ map (\<lambda>i. [CHR 0xE2, CHR 0x80, char_of (i::nat)]) ([0x80..<0x8B] @ [0xA8, 0xA9, 0xAF])
     @ [[CHR 0xE2, CHR 0x81, CHR 0x9F], [CHR 0xE3, CHR 0x80, CHR 0x80]]"

definition allSpace :: "string \<Rightarrow> bool" where
  "allSpace s \<longleftrightarrow> list_all (\<lambda>r. r \<in> set spaceRunes) (runes s)"

definition placeholder :: "string \<Rightarrow> string" where
  "placeholder k = ''${'' @ k @ ''}''"

subsection \<open>default.yml\<close>

definition renderRedisBlock :: "string \<Rightarrow> redisEndpoint \<Rightarrow> string" where
  "renderRedisBlock key ep =
     key @ '':'' @ nl @
     ''  host: '' @ yq (re_host ep) @ nl @
     ''  port: '' @ itoa (re_port ep) @ nl @
     (if re_db ep \<noteq> 0 then ''  db: '' @ itoa (re_db ep) @ nl else []) @
     (if length (re_sentinels ep) > 0 then
        ''  sentinels:'' @ nl @
        concat (map (\<lambda>s. ''    - host: '' @ yq (rhp_host s) @ nl @
                         ''      port: '' @ itoa (rhp_port s) @ nl) (re_sentinels ep)) @
        ''  name: '' @ yq (re_masterName ep) @ nl
      else []) @
     (if re_passSel ep \<noteq> None then
        ''  pass: '' @ placeholder (re_passEnv ep) @ nl @
        (if length (re_sentinels ep) > 0
         then ''  sentinelPassword: '' @ placeholder (re_passEnv ep) @ nl else [])
      else []) @
     (if re_enableTLS ep then ''  tls: {}'' @ nl else [])"

definition writeInt :: "string \<Rightarrow> int32 option \<Rightarrow> string" where
  "writeInt key v = (case v of None \<Rightarrow> [] | Some i \<Rightarrow> key @ '': '' @ itoa i @ nl)"

definition renderPerformance :: "performanceSpec \<Rightarrow> string" where
  "renderPerformance p =
     writeInt ''deliverJobConcurrency'' (pf_deliverJobConcurrency p) @
     writeInt ''inboxJobConcurrency'' (pf_inboxJobConcurrency p) @
     writeInt ''deliverJobPerSec'' (pf_deliverJobPerSec p) @
     writeInt ''inboxJobPerSec'' (pf_inboxJobPerSec p) @
     writeInt ''relationshipJobPerSec'' (pf_relationshipJobPerSec p) @
     writeInt ''deliverJobMaxAttempts'' (pf_deliverJobMaxAttempts p) @
     writeInt ''inboxJobMaxAttempts'' (pf_inboxJobMaxAttempts p)"

definition renderOutboundProxy :: "outboundProxySpec \<Rightarrow> string" where
  "renderOutboundProxy ob =
     (if ob_http ob \<noteq> [] then ''proxy: '' @ yq (ob_http ob) @ nl else []) @
     (if ob_smtp ob \<noteq> [] then ''proxySmtp: '' @ yq (ob_smtp ob) @ nl else []) @
     (if length (ob_bypassHosts ob) > 0
      then ''proxyBypassHosts: ['' @ joinWith '', '' (map yq (ob_bypassHosts ob)) @ '']'' @ nl else [])"

definition renderFiles :: "filesSpec \<Rightarrow> string" where
  "renderFiles f =
     (case fi_maxFileSize f of None \<Rightarrow> [] | Some i \<Rightarrow> ''maxFileSize: '' @ itoa i @ nl) @
     (if fi_mediaProxy f \<noteq> [] then ''mediaProxy: '' @ yq (fi_mediaProxy f) @ nl else [])"

definition renderSlave :: "dbEndpoint \<Rightarrow> string" where
  "renderSlave s =
     ''  - host: '' @ yq (de_host s) @ nl @
     ''    port: '' @ itoa (de_port s) @ nl @
     ''    db: '' @ yq (de_db s) @ nl @
     ''    user: '' @ yq (de_user s) @ nl @
     ''    pass: '' @ placeholder ''DB_PASSWORD'' @ nl"

definition renderDB :: "plan \<Rightarrow> string" where
  "renderDB p =
     ''db:'' @ nl @
     ''  host: '' @ yq (dbHost p) @ nl @
     ''  port: '' @ itoa (dbPort p) @ nl @
     ''  db: '' @ yq (dbName p) @ nl @
     ''  user: '' @ yq (dbUser p) @ nl @
     ''  pass: '' @ placeholder ''DB_PASSWORD'' @ nl @
     (if dbReplications p then
        ''dbReplications: true'' @ nl @ ''dbSlaves:'' @ nl @
        concat (map renderSlave (dbSlaves p)) @ nl
      else ''dbReplications: false'' @ nl @ nl)"

definition renderRedis :: "plan \<Rightarrow> string" where
  "renderRedis p =
     renderRedisBlock ''redis'' (redisDefault p) @
     concat (map (\<lambda>rd. case map_of (redisRolesP p) (rdd_key rd) of
       Some ep \<Rightarrow> renderRedisBlock (rdd_configKey rd) ep | None \<Rightarrow> []) redisRoleDescs) @ nl"

definition renderSearch :: "plan \<Rightarrow> string" where
  "renderSearch p =
     ''fulltextSearch:'' @ nl @
     ''  provider: '' @ provider p @ nl @
     (if meiliEnabled p then
        nl @ ''meilisearch:'' @ nl @
        ''  host: '' @ yq (meiliHost p) @ nl @
        ''  port: '' @ itoa (meiliPortP p) @ nl @
        ''  apiKey: '' @ placeholder ''MEILI_KEY'' @ nl @
        ''  ssl: '' @ formatBool (meiliSSL p) @ nl @
        ''  index: '' @ yq (meiliIndex p) @ nl @
        ''  scope: '' @ meiliScope p @ nl
      else []) @ nl"

definition renderDefaultYML :: "misskey \<Rightarrow> plan \<Rightarrow> string" where
  "renderDefaultYML m p =
     ''# Managed by cloudnative-misskey. Do not edit by hand.'' @ nl @
     ''url: '' @ yq (url (spec m)) @ nl @
     ''port: '' @ itoa misskeyPort @ nl @ nl @
     (if setupEnabled p then ''setupPassword: '' @ placeholder ''SETUP_PASSWORD'' @ nl @ nl else []) @
     renderDB p @
     renderRedis p @
     renderSearch p @
     ''id: '' @ [CHR 0x27] @ stringOr (idGenerationMethod (spec m)) ''aidx'' @ [CHR 0x27] @ nl @
     ''proxyRemoteFiles: '' @ formatBool (boolOr (fi_proxyRemoteFiles (files (spec m))) True) @ nl @
     ''signToActivityPubGet: true'' @ nl @
     renderPerformance (performance (spec m)) @
     renderOutboundProxy (outboundProxy (spec m)) @
     renderFiles (files (spec m)) @
     (if allSpace (extraConfig (spec m)) then []
      else nl @ ''# --- extraConfig ---'' @ nl @ trimRightSet (extraConfig (spec m)) nl @ nl)"

definition migratePlan :: "misskey \<Rightarrow> plan \<Rightarrow> plan" where
  "migratePlan m p =
     (let mp = (if dbManaged p then p\<lparr>dbHost := nameDBService m\<rparr> else p) in
      mp\<lparr>dbReplications := False, dbSlaves := []\<rparr>)"

subsection \<open>Caddyfile\<close>

definition tabs :: "nat \<Rightarrow> string" where
  "tabs n = replicate n (CHR 0x09)"

definition line :: "nat \<Rightarrow> string \<Rightarrow> string" where
  "line n s = tabs n @ s @ nl"

definition renderMaintenance :: "maintenanceSpec \<Rightarrow> string" where
  "renderMaintenance ma =
     (let st = (case ma_statusCode ma of Some sc \<Rightarrow> sc | None \<Rightarrow> 200) in
      nl @ line 1 ''handle_errors {'' @
      line 2 ''@backend_down `{err.status_code} in [500, 501, 502, 503, 504, 522]`'' @
      line 2 ''handle @backend_down {'' @
      line 3 ''@api path /api/*'' @
      line 3 ''handle @api {'' @
      line 4 (''respond '' @ [dq, dq] @ '' {err.status_code}'') @
      line 3 ''}'' @
      line 3 ''handle {'' @
      line 4 (''header Cache-Control '' @ [dq] @ ''no-store'' @ [dq]) @
      line 4 ''root * /usr/share/caddy'' @
      line 4 ''rewrite * /maintenance.html'' @
      line 4 ''file_server {'' @
      line 5 (''status '' @ itoa st) @
      line 4 ''}'' @
      line 3 ''}'' @
      line 2 ''}'' @
      line 1 ''}'')"

definition renderCaddyfile :: "misskey \<Rightarrow> string" where
  "renderCaddyfile m =
     line 0 ''{'' @
     line 1 ''servers {'' @
     line 2 ''trusted_proxies static private_ranges'' @
     line 2 ''metrics'' @
     line 1 ''}'' @
     line 0 ''}'' @ nl @
     line 0 ('':'' @ itoa proxyMetricsPort @ '' {'') @
     line 1 ''metrics /metrics'' @
     line 0 ''}'' @ nl @
     line 0 ('':'' @ itoa proxyPort @ '' {'') @
     line 1 ''encode gzip'' @
     line 1 (''header /assets Cache-Control '' @ [dq] @ ''public, max-age=31536000, immutable'' @ [dq]) @ nl @
     line 1 (''reverse_proxy '' @ nameApp m @ '':'' @ itoa misskeyPort @ '' {'') @
     (let h = px_clientIPHeader (proxy (spec m)) in
      if h \<noteq> [] \<and> clientIPHeaderPattern h then
        line 2 (''header_up X-Real-IP {header.'' @ h @ ''}'') @
        line 2 (''header_up X-Forwarded-For {header.'' @ h @ ''}'')
      else []) @
     line 2 ''header_up X-Forwarded-Host {host}'' @ nl @
     line 2 ''health_uri /api/server-info'' @
     line 2 ''health_interval 10s'' @
     line 2 ''health_timeout 2s'' @
     line 2 ''health_status 200'' @
     line 1 ''}'' @
     (if boolOr (ma_enabled (px_maintenance (proxy (spec m)))) True
      then renderMaintenance (px_maintenance (proxy (spec m))) else []) @
     line 0 ''}''"

subsection \<open>The maintenance page\<close>

definition reloadScript :: "int32 \<Rightarrow> string" where
  "reloadScript reloadSeconds =
     (if reloadSeconds > 0 then
        nl @ ''<script>setTimeout(function () { location.reload() }, '' @
        itoa (wrap32 (reloadSeconds * 1000)) @ '')</script>''
      else [])"

definition defaultMaintenanceHTML :: "int32 \<Rightarrow> string" where
  "defaultMaintenanceHTML reloadSeconds =
     ''<!doctype html>'' @ nl @
     ''<html lang='' @ [dq] @ ''en'' @ [dq] @ ''>'' @ nl @
     ''<head>'' @ nl @
     ''<meta charset='' @ [dq] @ ''utf-8'' @ [dq] @ ''>'' @ nl @
     ''<meta name='' @ [dq] @ ''viewport'' @ [dq] @ '' content='' @ [dq] @
       ''width=device-width, initial-scale=1'' @ [dq] @ ''>'' @ nl @
     ''<title>Under maintenance</title>'' @ reloadScript reloadSeconds @ nl @
     ''<style>body{font-family:system-ui,sans-serif;display:grid;place-items:center;height:100vh;margin:0;background:#f5f5f7;color:#333}main{text-align:center}</style>'' @ nl @
     ''</head>'' @ nl @
     ''<body><main><h1>Under maintenance</h1><p>This server is temporarily unavailable. Please try again shortly.</p></main></body>'' @ nl @
     ''</html>'' @ nl"

definition maintenanceHTMLContent :: "misskey \<Rightarrow> string" where
  "maintenanceHTMLContent m =
     (let ma = px_maintenance (proxy (spec m));
          reload = (case ma_reloadSeconds ma of Some r \<Rightarrow> r | None \<Rightarrow> 30) in
      stringOr (ma_html ma) (defaultMaintenanceHTML reload))"

subsection \<open>Reconcilers\<close>

definition reconcileConfigMaps :: "libs \<Rightarrow> misskey \<Rightarrow> plan \<Rightarrow> (error + unit) io" where
  "reconcileConfigMaps L m p =
     chk (applyObj L m (newObj KConfigMap (mnamespace m) (nameConfig m)) (\<lambda>cm.
       ret (setBody (BData ([(''default.yml'', renderDefaultYML m p)] @
              (if boolOr (px_enabled (proxy (spec m))) True
               then [(''Caddyfile'', renderCaddyfile m)] else [])))
            (withLabels (labelsFor m ''config'') cm)))) (\<lambda>_.
     chk (applyObj L m (newObj KConfigMap (mnamespace m) (nameMigrateConfig m)) (\<lambda>cm.
       ret (setBody (BData [(''default.yml'', renderDefaultYML m (migratePlan m p))])
            (withLabels (labelsFor m ''config'') cm)))) (\<lambda>_.
     if \<not> boolOr (px_enabled (proxy (spec m))) True \<or>
        \<not> boolOr (ma_enabled (px_maintenance (proxy (spec m)))) True then Ret (Inr ())
     else applyObj L m (newObj KConfigMap (mnamespace m) (nameMaintenanceHTML m)) (\<lambda>cm.
       ret (setBody (BData [(''maintenance.html'', maintenanceHTMLContent m)])
            (withLabels (labelsFor m ''maintenance'') cm)))))"

subsection \<open>The placeholder script of the init container\<close>

text \<open>\<^verbatim>\<open>s.split(p).join(v)\<close>: every non-overlapping occurrence of \<open>p\<close>, left to right.\<close>

function replaceAll :: "string \<Rightarrow> string \<Rightarrow> string \<Rightarrow> string" where
  "replaceAll pat rep s =
     (if s = [] \<or> pat = [] then s
      else if hasPrefix s pat then rep @ replaceAll pat rep (drop (length pat) s)
      else hd s # replaceAll pat rep (tl s))"
  by pat_completeness auto
termination
  by (relation "measure (\<lambda>(pat, rep, s). length s)") auto

declare replaceAll.simps [simp del]

text \<open>\<open>stringify\<close> is JavaScript's \<^verbatim>\<open>JSON.stringify\<close>, \<open>env\<close> the environment of the container.\<close>

definition renderConfigScript :: "(string \<Rightarrow> string) \<Rightarrow> (string \<Rightarrow> string option) \<Rightarrow> string \<Rightarrow> string" where
  "renderConfigScript stringify env tpl =
     foldl (\<lambda>s k. case env k of
        Some v \<Rightarrow> replaceAll (placeholder k) (stringify v) s | None \<Rightarrow> s) tpl scriptKeys"

end
