(* ===== verification/Pod.thy ===== *)
theory Pod
  imports Config
begin

section \<open>The Misskey Pod (misskey\_pod.go)\<close>

text \<open>
  The Pod template shared by the app, the worker and the migration Job: the init containers
  that copy the built files and substitute the placeholders of the config template, the
  volumes and mounts, and the role's environment, ports and probes. The lemmas say that
  every container the template runs is restricted and that every mount has its volume.
\<close>

definition roleApp :: string where "roleApp = ''app''"
definition roleWorker :: string where "roleWorker = ''worker''"

definition mountAt :: "string \<Rightarrow> string \<Rightarrow> volumeMount" where
  "mountAt n p = \<lparr>vm_name = n, vm_mountPath = p, vm_subPath = [], vm_readOnly = False\<rparr>"

definition configMapVolume :: "string \<Rightarrow> string \<Rightarrow> volume" where
  "configMapVolume n cm = \<lparr>vol_name = n, vol_source = ConfigMapVolume cm\<rparr>"

definition emptyDirVolume :: "string \<Rightarrow> volume" where
  "emptyDirVolume n = \<lparr>vol_name = n, vol_source = EmptyDirVolume\<rparr>"

definition httpProbe :: "string \<Rightarrow> int32 \<Rightarrow> int32 \<Rightarrow> int32 \<Rightarrow> probe" where
  "httpProbe path period timeout failure =
     \<lparr>pr_handler = HTTPGetProbe path (FromInt misskeyPort), pr_initialDelay = 0, pr_period = period,
      pr_timeout = timeout, pr_failure = failure\<rparr>"

text \<open>
  The text of the script is \<^verbatim>\<open>renderConfigScript\<close>; its effect is modelled in \<open>Config\<close>.
\<close>

definition renderConfigScriptText :: string where
  "renderConfigScriptText =
     ''const fs = require('' @ [CHR 0x27] @ ''fs'' @ [CHR 0x27] @ '');'' @ nl @
     ''let s = fs.readFileSync('' @ [CHR 0x27] @ ''/tpl/default.yml'' @ [CHR 0x27] @ '', '' @
       [CHR 0x27] @ ''utf8'' @ [CHR 0x27] @ '');'' @ nl @
     ''for (const k of ['' @ joinWith '', '' (map (\<lambda>k. [CHR 0x27] @ k @ [CHR 0x27]) scriptKeys) @ '']) {'' @ nl @
     ''  const v = process.env[k];'' @ nl @
     ''  if (v !== undefined) s = s.split('' @ [CHR 0x27] @ ''${'' @ [CHR 0x27] @ '' + k + '' @
       [CHR 0x27] @ ''}'' @ [CHR 0x27] @ '').join(JSON.stringify(v));'' @ nl @
     ''}'' @ nl @
     ''fs.writeFileSync('' @ [CHR 0x27] @ ''/shared/default.yml'' @ [CHR 0x27] @ '', s);''"

definition misskeyInitContainers :: "misskey \<Rightarrow> plan \<Rightarrow> container list" where
  "misskeyInitContainers m p =
     (let bp = runtimeBuiltPath m in
      (if bp \<noteq> [] then
         [zeroContainer\<lparr>c_name := ''prepare-built'', c_image := image (spec m),
            c_command := [''cp'', ''-r'', bp @ ''/.'', ''/tmp/built/''],
            c_securityContext := Some restrictedContainerSecurityContext,
            c_volumeMounts := [mountAt ''built-volume'' ''/tmp/built'']\<rparr>]
       else []) @
      [zeroContainer\<lparr>c_name := ''render-config'', c_image := image (spec m),
         c_command := [''node'', ''-e'', renderConfigScriptText],
         c_env := renderInitEnv p,
         c_securityContext := Some restrictedContainerSecurityContext,
         c_volumeMounts := [mountAt ''config-tpl'' ''/tpl'', mountAt ''config-rendered'' ''/shared'', tmpMount]\<rparr>])"

definition misskeyVolumes :: "misskey \<Rightarrow> string \<Rightarrow> volume list" where
  "misskeyVolumes m cfg =
     [configMapVolume ''config-tpl'' cfg, emptyDirVolume ''config-rendered'', tmpVolume] @
     (if runtimeBuiltPath m \<noteq> [] then [emptyDirVolume ''built-volume''] else [])"

definition misskeyConfigMounts :: "misskey \<Rightarrow> volumeMount list" where
  "misskeyConfigMounts m =
     [\<lparr>vm_name = ''config-rendered'', vm_mountPath = runtimeConfigPath m, vm_subPath = ''default.yml'',
       vm_readOnly = True\<rparr>, tmpMount] @
     (let bp = runtimeBuiltPath m in if bp \<noteq> [] then [mountAt ''built-volume'' bp] else [])"

definition misskeyMainContainer :: "libs \<Rightarrow> misskey \<Rightarrow> string \<Rightarrow> componentSpec \<Rightarrow> container" where
  "misskeyMainContainer L m role cmp =
     (let env = [plainEnv ''MK_DISABLE_CLUSTERING'' ''true'',
                 (if role = roleApp then plainEnv ''MK_ONLY_SERVER'' ''true'' else plainEnv ''MK_ONLY_QUEUE'' ''true'')];
          res = (if role = roleWorker then resourcesOr L (co_resources cmp) ''100m'' ''500Mi'' ''1Gi''
                 else resourcesOr L (co_resources cmp) ''100m'' ''400Mi'' ''800Mi'');
          c = zeroContainer\<lparr>c_name := role, c_image := image (spec m), c_command := runtimeStartCommand m,
                c_securityContext := Some restrictedContainerSecurityContext, c_resources := res,
                c_env := env,
                c_ports := (if role = roleApp then [\<lparr>cp_name = [], cp_port = misskeyPort\<rparr>] else []),
                c_volumeMounts := misskeyConfigMounts m\<rparr>;
          healthPath = runtimeHealthPath m in
      if role = roleApp then
        c\<lparr>c_startupProbe := Some (httpProbe healthPath 10 3 30),
          c_readinessProbe := Some (httpProbe healthPath 10 3 3),
          c_livenessProbe := Some (httpProbe healthPath 20 5 3)\<rparr>
      else c)"

definition buildMisskeyPodSpec :: "libs \<Rightarrow> misskey \<Rightarrow> plan \<Rightarrow> string \<Rightarrow> componentSpec \<Rightarrow> podSpec" where
  "buildMisskeyPodSpec L m p role cmp =
     zeroPodSpec\<lparr>ps_automountServiceAccountToken := Some False,
       ps_imagePullSecrets := imagePullSecrets (spec m),
       ps_securityContext := Some (nonRootPodSecurityContext (runtimeUID m)),
       ps_topologySpread := spreadConstraints (labelsFor m role),
       ps_nodeSelector := co_nodeSelector cmp,
       ps_tolerations := co_tolerations cmp,
       ps_initContainers := misskeyInitContainers m p,
       ps_containers := [misskeyMainContainer L m role cmp],
       ps_volumes := misskeyVolumes m (nameConfig m)\<rparr>"

subsection \<open>Well-formed Pods\<close>

text \<open>
  \<open>podOk\<close>: no service account token, a non-root seccomp-confined Pod, every container
  restricted (no privilege escalation, read-only root, all capabilities dropped), and every
  volume mount backed by a volume of the Pod or by a claim of the workload (\<open>claims\<close>).
\<close>

definition containerOk :: "string set \<Rightarrow> container \<Rightarrow> bool" where
  "containerOk vols c \<longleftrightarrow> c_securityContext c = Some restrictedContainerSecurityContext \<and>
     (\<forall>vm\<in>set (c_volumeMounts c). vm_name vm \<in> vols)"

definition podOk :: "string list \<Rightarrow> podSpec \<Rightarrow> bool" where
  "podOk claims p \<longleftrightarrow> ps_automountServiceAccountToken p = Some False \<and>
     (\<exists>uid. ps_securityContext p = Some (nonRootPodSecurityContext uid)) \<and>
     distinct (map vol_name (ps_volumes p) @ claims) \<and> ps_containers p \<noteq> [] \<and>
     (\<forall>c\<in>set (ps_initContainers p) \<union> set (ps_containers p).
        containerOk (set (map vol_name (ps_volumes p)) \<union> set claims) c)"

lemmas pod_ok_defs = podOk_def containerOk_def zeroPodSpec_def zeroContainer_def mountAt_def tmpMount_def
  tmpVolume_def configMapVolume_def emptyDirVolume_def

lemma misskey_init_ok:
  "c \<in> set (misskeyInitContainers m p) \<Longrightarrow> containerOk (vol_name ` set (misskeyVolumes m cfg)) c"
  by (auto simp: misskeyInitContainers_def misskeyVolumes_def pod_ok_defs Let_def split: if_splits)

lemma misskey_volumes_distinct: "distinct (map vol_name (misskeyVolumes m cfg))"
  by (simp add: misskeyVolumes_def pod_ok_defs)

lemma misskey_main_ok: "containerOk (vol_name ` set (misskeyVolumes m cfg)) (misskeyMainContainer L m role cmp)"
  by (auto simp: misskeyMainContainer_def misskeyVolumes_def misskeyConfigMounts_def pod_ok_defs Let_def
      split: if_splits)

lemma buildMisskeyPodSpec_ok: "podOk [] (buildMisskeyPodSpec L m p role cmp)"
  unfolding podOk_def buildMisskeyPodSpec_def
  using misskey_init_ok misskey_main_ok misskey_volumes_distinct
  by (auto simp: zeroPodSpec_def)

end
