(* ===== verification/Autoscaling.thy ===== *)
theory Autoscaling
  imports Plan
begin

section \<open>Autoscaling (autoscaling.go)\<close>

text \<open>
  App and worker scale by a native HorizontalPodAutoscaler, or by a KEDA ScaledObject when a
  queue or request-rate trigger is given; the two exclude each other and each is removed
  when the other is wanted. The lemmas show that a reconcile writes the autoscaler of its
  own kind only and always removes the other.
\<close>

record scaleConfig =
  sc_autoscaling :: autoscalingSpec
  sc_queues :: "queueScaleTrigger list"
  sc_rps :: "rpsTrigger option"

definition appScaleConfig :: "appAutoscalingSpec option \<Rightarrow> scaleConfig option" where
  "appScaleConfig a = (case a of None \<Rightarrow> None
     | Some a \<Rightarrow> Some \<lparr>sc_autoscaling = aa_autoscaling a, sc_queues = [], sc_rps = aa_rps a\<rparr>)"

definition workerScaleConfig :: "workerAutoscalingSpec option \<Rightarrow> scaleConfig option" where
  "workerScaleConfig a = (case a of None \<Rightarrow> None
     | Some a \<Rightarrow> Some \<lparr>sc_autoscaling = wa_autoscaling a, sc_queues = wa_queues a, sc_rps = None\<rparr>)"

definition autoscalingEnabled :: "scaleConfig option \<Rightarrow> bool" where
  "autoscalingEnabled a \<longleftrightarrow> a \<noteq> None"

definition autoscalingUsesKEDA :: "scaleConfig \<Rightarrow> bool" where
  "autoscalingUsesKEDA a \<longleftrightarrow> length (sc_queues a) > 0 \<or> sc_rps a \<noteq> None"

definition nameTriggerAuth :: "string \<Rightarrow> string" where
  "nameTriggerAuth targetName = targetName @ ''-redis-auth''"

definition resourceUtilMetric :: "string \<Rightarrow> int32 \<Rightarrow> hpaMetric" where
  "resourceUtilMetric n target = \<lparr>hm_resource = n, hm_averageUtilization = target\<rparr>"

definition buildHPASpec :: "string \<Rightarrow> scaleConfig \<Rightarrow> hpaObj" where
  "buildHPASpec targetName a =
     (let s = sc_autoscaling a;
          metrics = (case as_targetCPUUtilizationPercentage s of
                       Some t \<Rightarrow> [resourceUtilMetric ''cpu'' t] | None \<Rightarrow> [])
                  @ (case as_targetMemoryUtilizationPercentage s of
                       Some t \<Rightarrow> [resourceUtilMetric ''memory'' t] | None \<Rightarrow> []) in
      \<lparr>hpa_targetName = targetName, hpa_minReplicas = as_minReplicas s, hpa_maxReplicas = as_maxReplicas s,
       hpa_metrics = (if length metrics = 0 then [resourceUtilMetric ''cpu'' 80] else metrics)\<rparr>)"

definition jobQueueEndpoint :: "plan \<Rightarrow> redisEndpoint" where
  "jobQueueEndpoint p = (case map_of (redisRolesP p) ''jobQueue'' of Some ep \<Rightarrow> ep | None \<Rightarrow> redisDefault p)"

definition redisQueueListName :: "misskey \<Rightarrow> string \<Rightarrow> string" where
  "redisQueueListName m queue =
     hostFromURL (url (spec m)) @ '':queue:'' @ queue @ '':'' @ queue @ '':wait''"

definition defaultRPSQuery :: "misskey \<Rightarrow> string" where
  "defaultRPSQuery m = ''sum(rate(caddy_http_request_duration_seconds_count{namespace='' @
     quoteGo (mnamespace m) @ '',service='' @ quoteGo (nameProxy m) @ ''}[2m]))''"

definition redisTriggerAddress :: "redisEndpoint \<Rightarrow> string \<Rightarrow> string" where
  "redisTriggerAddress ep ns =
     (if re_managed ep then re_host ep @ ''.'' @ ns @ ''.svc:'' @ itoa (re_port ep)
      else re_host ep @ '':'' @ itoa (re_port ep))"

definition sentinelHostsPorts :: "redisEndpoint \<Rightarrow> string \<Rightarrow> string \<times> string" where
  "sentinelHostsPorts ep ns =
     (joinWith '','' (map (\<lambda>s. if re_managed ep then rhp_host s @ ''.'' @ ns @ ''.svc'' else rhp_host s) (re_sentinels ep)),
      joinWith '','' (map (\<lambda>s. itoa (rhp_port s)) (re_sentinels ep)))"

definition queueTrigger :: "misskey \<Rightarrow> string \<Rightarrow> redisEndpoint \<Rightarrow> queueScaleTrigger \<Rightarrow> json" where
  "queueTrigger m targetName ep q =
     (let sentinel = length (re_sentinels ep) > 0;
          listName = (if qs_listName q = [] then redisQueueListName m (qs_name q) else qs_listName q);
          base = [(''listName'', JStr listName), (''listLength'', JStr (itoa (qs_listLength q))),
                  (''databaseIndex'', JStr (itoa (re_db ep))), (''enableTLS'', JStr (formatBool (re_enableTLS ep)))];
          meta = base @ (if sentinel then
                   [(''hosts'', JStr (fst (sentinelHostsPorts ep (mnamespace m)))),
                    (''ports'', JStr (snd (sentinelHostsPorts ep (mnamespace m)))),
                    (''sentinelMaster'', JStr (re_masterName ep))]
                 else [(''address'', JStr (redisTriggerAddress ep (mnamespace m)))]) in
      JObj ([(''type'', JStr (if sentinel then ''redis-sentinel'' else ''redis'')), (''metadata'', JObj meta)]
        @ (if re_passSel ep \<noteq> None
           then [(''authenticationRef'', JObj [(''name'', JStr (nameTriggerAuth targetName))])] else [])))"

definition buildScaledObject ::
  "misskey \<Rightarrow> string \<Rightarrow> string \<Rightarrow> scaleConfig \<Rightarrow> redisEndpoint \<Rightarrow> kobj" where
  "buildScaledObject m component targetName a ep =
     (let s = sc_autoscaling a;
          triggers = map (queueTrigger m targetName ep) (sc_queues a)
            @ (case sc_rps a of None \<Rightarrow> []
               | Some rps \<Rightarrow> [JObj [(''type'', JStr ''prometheus''), (''metadata'', JObj
                   [(''serverAddress'', JStr (rps_serverAddress rps)),
                    (''query'', JStr (stringOr (rps_query rps) (defaultRPSQuery m))),
                    (''threshold'', JStr (itoa (rps_targetRPS rps)))])]])
            @ (case as_targetCPUUtilizationPercentage s of None \<Rightarrow> []
               | Some c \<Rightarrow> [JObj [(''type'', JStr ''cpu''), (''metadata'', JObj
                   [(''type'', JStr ''Utilization''), (''value'', JStr (itoa c))])]]);
          minReplicas = (case as_minReplicas s of Some i \<Rightarrow> i | None \<Rightarrow> 1) in
      setBody (BUnstructured (JObj [(''spec'', JObj
          [(''scaleTargetRef'', JObj [(''name'', JStr targetName)]),
           (''minReplicaCount'', JInt minReplicas), (''maxReplicaCount'', JInt (as_maxReplicas s)),
           (''triggers'', JList triggers)])]))
        (withLabels (labelsFor m component) (newObj KScaledObject (mnamespace m) targetName)))"

definition buildTriggerAuth :: "misskey \<Rightarrow> string \<Rightarrow> redisEndpoint \<Rightarrow> secretKeySelector \<Rightarrow> kobj" where
  "buildTriggerAuth m targetName ep sel =
     (let refOf = (\<lambda>param. JObj [(''parameter'', JStr param), (''name'', JStr (sel_name sel)), (''key'', JStr (sel_key sel))]) in
      setBody (BUnstructured (JObj [(''spec'', JObj [(''secretTargetRef'', JList
          ([refOf ''password''] @ (if length (re_sentinels ep) > 0 then [refOf ''sentinelPassword''] else [])))])]))
        (withLabels (labelsFor m ''autoscaler'') (newObj KTriggerAuthentication (mnamespace m) (nameTriggerAuth targetName))))"

definition deleteHPA :: "misskey \<Rightarrow> string \<Rightarrow> (error + unit) io" where
  "deleteHPA m targetName = deleteIfExists KHorizontalPodAutoscaler (mnamespace m) targetName"

definition deleteTriggerAuth :: "misskey \<Rightarrow> string \<Rightarrow> (error + unit) io" where
  "deleteTriggerAuth m targetName = deleteIfExists KTriggerAuthentication (mnamespace m) (nameTriggerAuth targetName)"

definition deleteScaledObject :: "misskey \<Rightarrow> string \<Rightarrow> (error + unit) io" where
  "deleteScaledObject m targetName =
     chk (deleteIfExists KScaledObject (mnamespace m) targetName) (\<lambda>_. deleteTriggerAuth m targetName)"

definition reconcileScaledObject ::
  "libs \<Rightarrow> misskey \<Rightarrow> string \<Rightarrow> string \<Rightarrow> scaleConfig \<Rightarrow> plan \<Rightarrow> (error + unit) io" where
  "reconcileScaledObject L m component targetName a p =
     (let ep = jobQueueEndpoint p in
      chk (case re_passSel ep of
             Some sel \<Rightarrow> if length (sc_queues a) > 0 then applySSA L m (buildTriggerAuth m targetName ep sel)
                         else deleteTriggerAuth m targetName
           | None \<Rightarrow> deleteTriggerAuth m targetName) (\<lambda>_.
        applySSA L m (buildScaledObject m component targetName a ep)))"

definition reconcileAutoscaler ::
  "libs \<Rightarrow> misskey \<Rightarrow> string \<Rightarrow> string \<Rightarrow> scaleConfig option \<Rightarrow> plan \<Rightarrow> (error + unit) io" where
  "reconcileAutoscaler L m component targetName a p =
     (case a of
        None \<Rightarrow> chk (deleteHPA m targetName) (\<lambda>_. deleteScaledObject m targetName)
      | Some a \<Rightarrow>
          if autoscalingUsesKEDA a then
            chk (deleteHPA m targetName) (\<lambda>_. reconcileScaledObject L m component targetName a p)
          else
            chk (deleteScaledObject m targetName) (\<lambda>_.
              applyObj L m (newObj KHorizontalPodAutoscaler (mnamespace m) targetName) (\<lambda>hpa.
                ret (setBody (BHPA (buildHPASpec targetName a)) (withLabels (labelsFor m component) hpa)))))"

subsection \<open>The two autoscalers exclude each other\<close>

definition autoscalerStore :: "kind \<Rightarrow> req \<times> resp \<Rightarrow> bool" where
  "autoscalerStore k e \<longleftrightarrow> (\<exists>ns n. stores (fst e) = Some (k, ns, n))"

definition deletedAt :: "kind \<Rightarrow> string \<Rightarrow> string \<Rightarrow> req \<times> resp \<Rightarrow> bool" where
  "deletedAt k ns n e \<longleftrightarrow> fst e = QDelete k ns n PropagationDefault \<and> gone (snd e)"

lemma deleteHPA_shows: "runs (deleteHPA m t) tr (Inr ()) \<Longrightarrow>
  \<exists>e\<in>set tr. deletedAt KHorizontalPodAutoscaler (mnamespace m) t e"
  by (auto simp: deleteHPA_def runs_deleteIfExists deletedAt_def)

lemma deleteScaledObject_shows: "runs (deleteScaledObject m t) tr (Inr ()) \<Longrightarrow>
  \<exists>e\<in>set tr. deletedAt KScaledObject (mnamespace m) t e"
  by (auto simp: deleteScaledObject_def deleteTriggerAuth_def runs_chk_Inr runs_deleteIfExists deletedAt_def)

lemma delete_calls [calls_intros]:
  "P (QDelete KHorizontalPodAutoscaler (mnamespace m) t PropagationDefault) \<Longrightarrow> calls P (deleteHPA m t)"
  "P (QDelete KTriggerAuthentication (mnamespace m) (nameTriggerAuth t) PropagationDefault) \<Longrightarrow> calls P (deleteTriggerAuth m t)"
  "P (QDelete KScaledObject (mnamespace m) t PropagationDefault) \<Longrightarrow>
   P (QDelete KTriggerAuthentication (mnamespace m) (nameTriggerAuth t) PropagationDefault) \<Longrightarrow> calls P (deleteScaledObject m t)"
  unfolding deleteHPA_def deleteTriggerAuth_def deleteScaledObject_def by (intro calls_intros; assumption)+

end
