(* ===== verification/Migration.thy ===== *)
theory Migration
  imports Pod
begin

section \<open>Database migration (migration.go)\<close>

text \<open>
  The migration runs once per image as a Job named after the image's hash; a pre-migration
  backup may gate its creation. \<open>job_gate\<close> is the contract the three Job-driven steps of the
  operator share (migration, object storage, detector settings): they answer \<^verbatim>\<open>true\<close> only
  if the API server just showed them a Job with a success, and in such a run they create and
  delete no such Job.
\<close>

subsection \<open>Jobs\<close>

definition newJob :: "misskey \<Rightarrow> string \<Rightarrow> strmap \<Rightarrow> strmap \<Rightarrow> podSpec \<Rightarrow> kobj" where
  "newJob m name labels anns pod =
     setBody (BJob (zeroJob\<lparr>job_backoffLimit := 20, job_parallelism := 1, job_completions := 1,
        job_templateLabels := labels, job_pod := pod\<rparr>))
       (withAnnotations anns (withLabels labels (newObj KJob (mnamespace m) name)))"

definition deleteBackground :: "kobj \<Rightarrow> (error + unit) io" where
  "deleteBackground j = bnd (kdelete (ko_kind j) (knamespace j) (kname j) PropagationBackground) (\<lambda>r. Ret (ignoreNotFound r))"

definition migrationChecksum :: "misskey \<Rightarrow> plan \<Rightarrow> (error + strmap) io" where
  "migrationChecksum m p =
     chk (referencedSecretVersions m p) (\<lambda>versions.
       Ret (Inr (checksumAnnotation ([renderDefaultYML m (migratePlan m p),
         formatBool (migrationConcurrentIndexes m)] @ versions))))"

definition buildMigrationJob :: "libs \<Rightarrow> misskey \<Rightarrow> plan \<Rightarrow> strmap \<Rightarrow> kobj" where
  "buildMigrationJob L m p anns =
     (let env = (if migrationConcurrentIndexes m
                 then [plainEnv ''MISSKEY_MIGRATION_CREATE_INDEX_CONCURRENTLY'' ''1''] else []);
          pod = zeroPodSpec\<lparr>ps_automountServiceAccountToken := Some False,
            ps_restartPolicy := ''OnFailure'',
            ps_imagePullSecrets := imagePullSecrets (spec m),
            ps_securityContext := Some (nonRootPodSecurityContext (runtimeUID m)),
            ps_initContainers := misskeyInitContainers m p,
            ps_containers := [zeroContainer\<lparr>c_name := ''migrate'', c_image := image (spec m),
              c_command := runtimeMigrateCommand m, c_env := env,
              c_securityContext := Some restrictedContainerSecurityContext,
              c_resources := resourcesOr L noResources ''100m'' ''400Mi'' ''800Mi'',
              c_volumeMounts := misskeyConfigMounts m\<rparr>],
            ps_volumes := misskeyVolumes m (nameMigrateConfig m)\<rparr> in
      newJob m (nameMigrate m) (labelsFor m ''migrate'') anns pod)"

definition cleanupOldMigrationJobs :: "misskey \<Rightarrow> (error + unit) io" where
  "cleanupOldMigrationJobs m =
     chk (klist KJob (mnamespace m) (selectorFor m ''migrate'')) (\<lambda>jobs.
       forE jobs (\<lambda>j. if kname j = nameMigrate m then Ret (Inr ()) else deleteBackground j))"

definition createOwned :: "libs \<Rightarrow> misskey \<Rightarrow> kobj \<Rightarrow> (error + unit) io" where
  "createOwned L m x = chk (Ret (l_setControllerReference L m x)) kcreate"

definition migrationJobAbsent :: "libs \<Rightarrow> misskey \<Rightarrow> plan \<Rightarrow> strmap \<Rightarrow> (error + bool) io" where
  "migrationJobAbsent L m p checksum =
     chk (createOwned L m (buildMigrationJob L m p checksum)) (\<lambda>_.
       eventThen L EventNormal ''MigrationStarted'' ''Migrate''
         (''created migration Job '' @ nameMigrate m @ '' (image '' @ image (spec m) @ '')'')
         (Ret (Inr False)))"

definition migrationJobFound :: "libs \<Rightarrow> misskey \<Rightarrow> strmap \<Rightarrow> kobj \<Rightarrow> (error + bool) io" where
  "migrationJobFound L m checksum j =
     (let job = jobOf j; done = Ret (Inr (job_statusSucceeded job \<ge> 1)) in
      if job_statusSucceeded job = 0 \<and> job_statusFailed job \<ge> 1 then
        (if mget (kannotations j) configChecksumAnnotation \<noteq> mget checksum configChecksumAnnotation then
           chk (deleteBackground j) (\<lambda>_.
             eventThen L EventNormal ''MigrationRetried'' ''Migrate''
               (''recreated failed migration Job '' @ kname j @ '' after a configuration change'')
               (Ret (Inr False)))
         else
           eventThen L EventWarning ''MigrationFailed'' ''Migrate''
             (''migration Job '' @ kname j @ '' failed ('' @ itoa (job_statusFailed job) @
              ''); delete the Job to retry with the same configuration'') done)
      else done)"

definition migrationJobStep :: "libs \<Rightarrow> misskey \<Rightarrow> plan \<Rightarrow> strmap \<Rightarrow> (error + bool) io" where
  "migrationJobStep L m p checksum =
     bnd (kget KJob (mnamespace m) (nameMigrate m)) (\<lambda>r. case r of
       Inl e \<Rightarrow> if isNotFound e then migrationJobAbsent L m p checksum else Ret (Inl e)
     | Inr j \<Rightarrow> migrationJobFound L m checksum j)"

definition reconcileMigration :: "libs \<Rightarrow> misskey \<Rightarrow> plan \<Rightarrow> (error + bool) io" where
  "reconcileMigration L m p =
     chk (cleanupOldMigrationJobs m) (\<lambda>_.
     chk (migrationChecksum m p) (\<lambda>checksum.
       migrationJobStep L m p checksum))"

subsection \<open>The pre-migration backup\<close>

definition preBackupEnabled :: "misskey \<Rightarrow> bool" where
  "preBackupEnabled m \<longleftrightarrow> mg_preBackup (migration (spec m)) = Some True"

definition buildPreMigrationBackup :: "misskey \<Rightarrow> kobj" where
  "buildPreMigrationBackup m =
     setBody (BUnstructured (JObj [(''spec'', JObj [(''cluster'', JObj [(''name'', JStr (nameDB m))])])]))
       (withLabels (labelsFor m ''premigrate'') (newObj KCnpgBackup (mnamespace m) (namePreBackup m)))"

definition cleanupOldPreMigrationBackups :: "misskey \<Rightarrow> (error + unit) io" where
  "cleanupOldPreMigrationBackups m =
     chk (klist KCnpgBackup (mnamespace m) (selectorFor m ''premigrate'')) (\<lambda>bs.
       forE bs (\<lambda>b. if kname b = namePreBackup m then Ret (Inr ())
         else bnd (kdelete (ko_kind b) (knamespace b) (kname b) PropagationDefault) (\<lambda>r. Ret (ignoreNotFound r))))"

definition preBackupStep :: "libs \<Rightarrow> misskey \<Rightarrow> (error + bool) io" where
  "preBackupStep L m =
     bnd (kget KCnpgBackup (mnamespace m) (namePreBackup m)) (\<lambda>r. case r of
       Inl e \<Rightarrow>
         if isNotFound e then
           chk (createOwned L m (buildPreMigrationBackup m)) (\<lambda>_.
             eventThen L EventNormal ''PreBackupStarted'' ''Migrate''
               (''created pre-migration Backup '' @ namePreBackup m @ '' (image '' @ image (spec m) @ '')'')
               (Ret (Inr False)))
         else Ret (Inl e)
     | Inr b \<Rightarrow>
         let phase = nestedString b [''status'', ''phase''] in
         if phase = ''completed'' then Ret (Inr True)
         else if phase = ''failed'' then
           eventThen L EventWarning ''PreBackupFailed'' ''Migrate''
             (''pre-migration Backup '' @ kname b @ '' failed; delete it to retry'') (Ret (Inr False))
         else Ret (Inr False))"

definition reconcilePreMigrationBackup :: "libs \<Rightarrow> misskey \<Rightarrow> plan \<Rightarrow> (error + bool) io" where
  "reconcilePreMigrationBackup L m p =
     (if \<not> preBackupEnabled m \<or> \<not> dbManaged p \<or> pg_backup (postgres (spec m)) = None then Ret (Inr True)
      else
        chk (cleanupOldPreMigrationBackups m) (\<lambda>_.
        bnd (kget KJob (mnamespace m) (nameMigrate m)) (\<lambda>r. case r of
          Inr _ \<Rightarrow> Ret (Inr True)
        | Inl e \<Rightarrow> if \<not> isNotFound e then Ret (Inl e) else preBackupStep L m)))"

subsection \<open>What the steps ask of the cluster\<close>

text \<open>Footprints: which requests the parts can make, whatever the answers.\<close>

lemma migrationChecksum_calls [calls_intros]:
  "(\<And>n. P (QGet KSecret (mnamespace m) n)) \<Longrightarrow> calls P (migrationChecksum m p)"
  unfolding migrationChecksum_def by (intro calls_intros)

lemma createOwned_calls [calls_intros]:
  "(\<And>y. l_setControllerReference L m x = Inr y \<Longrightarrow> P (QCreate y)) \<Longrightarrow> calls P (createOwned L m x)"
  unfolding createOwned_def by (cases "l_setControllerReference L m x") (auto intro!: calls_intros)

subsection \<open>The contract of a Job-driven step\<close>

definition jobSeen :: "misskey \<Rightarrow> (misskey \<Rightarrow> string \<Rightarrow> bool) \<Rightarrow> req \<times> resp \<Rightarrow> bool" where
  "jobSeen m isName e \<longleftrightarrow> (\<exists>n j. e = (QGet KJob (mnamespace m) n, RObj j) \<and> isName m n \<and>
     atKey KJob (mnamespace m) n j \<and> job_statusSucceeded (jobOf j) \<ge> 1)"

locale job_gate =
  fixes reconcile :: "libs \<Rightarrow> misskey \<Rightarrow> plan \<Rightarrow> (error + bool) io"
    and isName :: "misskey \<Rightarrow> string \<Rightarrow> bool"
    and foot :: "misskey \<Rightarrow> kind \<times> string \<times> string \<Rightarrow> bool"
  assumes seen: "runs (reconcile L m p) tr (Inr True) \<Longrightarrow> \<exists>e\<in>set tr. jobSeen m isName e"
    and footprint: "stable_owner L \<Longrightarrow> calls (\<lambda>q. \<forall>w. writes q = Some w \<longrightarrow> foot m w) (reconcile L m p)"
begin

lemma no_foreign_write:
  assumes "stable_owner L" "runs (reconcile L m p) tr res" "(q, r) \<in> set tr" "writes q = Some w"
  shows "foot m w"
  using calls_runs [OF footprint [OF assms(1)] assms(2,3)] assms(4) by blast

text \<open>
  Whatever a caller does only after the step answered true is preceded by the sight of a
  succeeded Job.
\<close>

lemma gates:
  assumes own: "stable_owner L" and run: "runs (chk (reconcile L m p) k) tr res"
    and no: "\<And>t x. runs (k False) t x \<Longrightarrow> \<forall>e\<in>set t. \<not> W e"
    and W: "\<And>q r. W (q, r) \<Longrightarrow> \<exists>w. writes q = Some w \<and> \<not> foot m w"
  shows "gated W (jobSeen m isName) tr"
proof -
  have quiet: "\<not> W e" if "runs (reconcile L m p) t x" "e \<in> set t" for t x e
  proof
    obtain q r where e: "e = (q, r)" by force
    assume "W e"
    with W e obtain w where "writes q = Some w" "\<not> foot m w" by blast
    with no_foreign_write [OF own that(1), of q r] that(2) e show False by blast
  qed
  from run show ?thesis
  proof (cases rule: runs_chkE)
    case (err e)
    then show ?thesis by (intro gated_none) (use quiet in blast)
  next
    case (ok t1 b t2)
    have g1: "gated W (jobSeen m isName) t1" by (rule gated_none) (use quiet ok(2) in blast)
    show ?thesis
    proof (cases b)
      case True
      with ok(1,2) g1 seen [of L m p t1] show ?thesis by (auto simp: gated_append)
    next
      case False
      with ok(3) have "runs (k False) t2 res" by simp
      from no [OF this] have "gated W (jobSeen m isName) t2" by (intro gated_none) blast
      with ok(1) g1 show ?thesis by (simp add: gated_append)
    qed
  qed
qed

end

subsection \<open>The migration keeps the contract\<close>

lemma stable_ownerD:
  assumes "stable_owner L" "l_setControllerReference L m x = Inr y"
  shows "ko_kind y = ko_kind x" "knamespace y = knamespace x" "kname y = kname x" "ko_body y = ko_body x"
    "klabels y = klabels x" "kannotations y = kannotations x"
  using assms unfolding stable_owner_def by blast+

lemma eventThen_runs: "runs (eventThen L ty a b c k) tr res \<Longrightarrow> \<exists>t. set t \<subseteq> set tr \<and> runs k t res"
  by (auto simp: eventThen_def event_def runs_bnd runs_Call_iff split: if_splits)

lemma newJob_simps [simp]:
  "ko_kind (newJob m n ls as pod) = KJob" "kname (newJob m n ls as pod) = n"
  "knamespace (newJob m n ls as pod) = mnamespace m" "klabels (newJob m n ls as pod) = ls"
  "kannotations (newJob m n ls as pod) = as"
  by (simp_all add: newJob_def)

lemma buildMigrationJob_simps [simp]:
  "ko_kind (buildMigrationJob L m p as) = KJob" "kname (buildMigrationJob L m p as) = nameMigrate m"
  "knamespace (buildMigrationJob L m p as) = mnamespace m" "kannotations (buildMigrationJob L m p as) = as"
  by (simp_all add: buildMigrationJob_def Let_def)

lemma deleteBackground_calls [calls_intros]:
  "P (QDelete (ko_kind j) (knamespace j) (kname j) PropagationBackground) \<Longrightarrow> calls P (deleteBackground j)"
  unfolding deleteBackground_def by (intro calls_intros)

lemma cleanupOldMigrationJobs_calls:
  assumes "P (QList KJob (mnamespace m) (selectorFor m ''migrate''))"
    and "\<And>j. listed KJob (mnamespace m) (selectorFor m ''migrate'') j \<Longrightarrow> kname j \<noteq> nameMigrate m \<Longrightarrow>
      P (QDelete KJob (knamespace j) (kname j) PropagationBackground)"
  shows "calls P (cleanupOldMigrationJobs m)"
  unfolding cleanupOldMigrationJobs_def
  using assms by (intro calls_intros) (auto simp: list_all_iff listed_def)

lemma migrationJobAbsent_no: "\<not> runs (migrationJobAbsent L m p cs) tr (Inr True)"
  by (auto simp: migrationJobAbsent_def runs_chk_Inr dest!: eventThen_runs)

lemma migrationJobFound_done:
  "runs (migrationJobFound L m cs j) tr (Inr True) \<Longrightarrow> job_statusSucceeded (jobOf j) \<ge> 1"
  by (auto simp: migrationJobFound_def runs_chk_Inr Let_def split: if_splits dest!: eventThen_runs)

lemma migrationJobStep_done:
  assumes "runs (migrationJobStep L m p cs) tr (Inr True)"
  shows "\<exists>e\<in>set tr. jobSeen m (\<lambda>m n. n = nameMigrate m) e"
proof -
  from assms obtain j t where "tr = (QGet KJob (mnamespace m) (nameMigrate m), RObj j) # t"
    "atKey KJob (mnamespace m) (nameMigrate m) j" "runs (migrationJobFound L m cs j) t (Inr True)"
    unfolding migrationJobStep_def
    by (cases rule: runs_kget) (auto simp: migrationJobAbsent_no split: if_splits)
  with migrationJobFound_done [of L m cs j t] show ?thesis by (auto simp: jobSeen_def)
qed

lemma reconcileMigration_runs:
  assumes "runs (reconcileMigration L m p) tr (Inr x)"
  obtains t1 t2 t3 cs where "tr = t1 @ t2 @ t3" "runs (cleanupOldMigrationJobs m) t1 (Inr ())"
    "runs (migrationChecksum m p) t2 (Inr cs)" "runs (migrationJobStep L m p cs) t3 (Inr x)"
  using assms unfolding reconcileMigration_def runs_chk_Inr by auto

lemma reconcileMigration_done:
  assumes "runs (reconcileMigration L m p) tr (Inr True)"
  shows "\<exists>e\<in>set tr. jobSeen m (\<lambda>m n. n = nameMigrate m) e"
proof -
  obtain t1 t2 t3 cs where "tr = t1 @ t2 @ t3" "runs (migrationJobStep L m p cs) t3 (Inr True)"
    by (rule reconcileMigration_runs [OF assms])
  with migrationJobStep_done [of L m p cs t3] show ?thesis by auto
qed

lemma reconcileMigration_foot:
  assumes "stable_owner L"
  shows "calls (\<lambda>q. \<forall>w. writes q = Some w \<longrightarrow> fst w = KJob) (reconcileMigration L m p)"
  unfolding reconcileMigration_def migrationJobStep_def migrationJobAbsent_def migrationJobFound_def Let_def
  by (intro calls_intros cleanupOldMigrationJobs_calls)
     (auto simp: listed_def atKey_def dest: stable_ownerD [OF assms])

interpretation migration_gate: job_gate reconcileMigration "\<lambda>m n. n = nameMigrate m" "\<lambda>m w. fst w = KJob"
proof unfold_locales
  show "\<exists>e\<in>set tr. jobSeen m (\<lambda>m n. n = nameMigrate m) e" if "runs (reconcileMigration L m p) tr (Inr True)" for L m p tr
    using reconcileMigration_done [OF that] .
  show "calls (\<lambda>q. \<forall>w. writes q = Some w \<longrightarrow> fst w = KJob) (reconcileMigration L m p)" if "stable_owner L" for L m p
    using reconcileMigration_foot [OF that] .
qed

lemma migrationJobFound_delete:
  assumes "runs (migrationJobFound L m cs j) tr res" "(QDelete k ns n pol, r) \<in> set tr"
  shows "job_statusSucceeded (jobOf j) = 0 \<and> job_statusFailed (jobOf j) \<ge> 1 \<and>
    mget (kannotations j) configChecksumAnnotation \<noteq> mget cs configChecksumAnnotation"
proof (rule ccontr)
  assume no: "\<not> ?thesis"
  have "calls (\<lambda>q. q \<noteq> QDelete k ns n pol) (migrationJobFound L m cs j)"
    using no unfolding migrationJobFound_def Let_def
    by (auto simp: eventThen_def event_def)
  from calls_runs [OF this assms] show False by simp
qed

subsection \<open>Properties of the migration\<close>

text \<open>
  C25: a failed migration is never repeated on the same input. The operator deletes the
  current migration Job only after reading it without a success, with a failure, and with a
  checksum that differs from the one of the configuration and Secrets it just read.
\<close>
theorem failed_migration_kept:
  assumes "runs (reconcileMigration L m p) tr res"
    and "(QDelete KJob ns (nameMigrate m) pol, r) \<in> set tr"
  shows "\<exists>j cs t. (QGet KJob (mnamespace m) (nameMigrate m), RObj j) \<in> set tr \<and>
    job_statusSucceeded (jobOf j) = 0 \<and> job_statusFailed (jobOf j) \<ge> 1 \<and>
    runs (migrationChecksum m p) t (Inr cs) \<and> set t \<subseteq> set tr \<and>
    mget (kannotations j) configChecksumAnnotation \<noteq> mget cs configChecksumAnnotation"
proof -
  let ?e = "(QDelete KJob ns (nameMigrate m) pol, r)"
  have "calls (\<lambda>q. q \<noteq> fst ?e) (cleanupOldMigrationJobs m)"
    by (rule cleanupOldMigrationJobs_calls) auto
  then have c1: "?e \<notin> set t" if "runs (cleanupOldMigrationJobs m) t a" for t a
    using calls_runs [OF _ that] by fastforce
  have "calls (\<lambda>q. q \<noteq> fst ?e) (migrationChecksum m p)" by (intro calls_intros) simp
  then have c2: "?e \<notin> set t" if "runs (migrationChecksum m p) t a" for t a
    using calls_runs [OF _ that] by fastforce
  obtain t1 u t2 where tr: "tr = t1 @ t2" and k2: "?e \<in> set t2"
    "runs (chk (migrationChecksum m p) (migrationJobStep L m p)) t2 res"
    using assms unfolding reconcileMigration_def by (rule runs_chk_after) (use c1 in blast)+
  obtain t3 cs t4 where t2: "t2 = t3 @ t4" and cs: "runs (migrationChecksum m p) t3 (Inr cs)"
    and k4: "runs (migrationJobStep L m p cs) t4 res" "?e \<in> set t4"
    using k2(2,1) by (rule runs_chk_after) (use c2 in blast)+
  have absent: "?e \<notin> set t" if "runs (migrationJobAbsent L m p cs) t a" for t a
  proof -
    have "calls (\<lambda>q. q \<noteq> fst ?e) (migrationJobAbsent L m p cs)"
      unfolding migrationJobAbsent_def by (intro calls_intros) auto
    from calls_runs [OF this that] show ?thesis by fastforce
  qed
  from k4(1) obtain j t where "t4 = (QGet KJob (mnamespace m) (nameMigrate m), RObj j) # t"
    "runs (migrationJobFound L m cs j) t res"
    unfolding migrationJobStep_def
    using k4(2) absent by (cases rule: runs_kget) (auto split: if_splits)
  with migrationJobFound_delete [of L m cs j t res] k4(2) tr t2 cs show ?thesis by fastforce
qed

end
