(* ===== verification/ObjectStorage.thy ===== *)
theory ObjectStorage
  imports Migration
begin

section \<open>Object storage settings (objectstorage.go)\<close>

text \<open>
  The operator writes the object-storage settings into Misskey's \<^verbatim>\<open>meta\<close> row by a psql Job.
  Column names come from the spec, so they are checked as SQL identifiers; values never
  enter the SQL text: they travel as environment variables that psql quotes itself. The
  lemmas make both precise, and show the Job step to be an instance of \<open>job_gate\<close>.
\<close>

subsection \<open>Assignments\<close>

definition metaRowID :: string where "metaRowID = ''x''"

definition identStart :: "char \<Rightarrow> bool" where
  "identStart c \<longleftrightarrow> inRange 65 90 c \<or> inRange 97 122 c \<or> c = CHR ''_''"

definition identChar :: "char \<Rightarrow> bool" where
  "identChar c \<longleftrightarrow> identStart c \<or> inRange 48 57 c"

definition identRe :: "string \<Rightarrow> bool" where
  "identRe s \<longleftrightarrow> s \<noteq> [] \<and> identStart (hd s) \<and> list_all identChar (tl s)"

definition safeIdent :: "string \<Rightarrow> error + unit" where
  "safeIdent n = (if identRe n then Inr () else Inl (ErrMsg (''invalid SQL identifier '' @ quoteGo n)))"

record objAssign =
  oa_column :: string
  oa_literal :: string
  oa_envName :: string
  oa_psqlVar :: string
  oa_value :: string
  oa_secret :: "secretKeySelector option"

definition zeroAssign :: objAssign where
  "zeroAssign = \<lparr>oa_column = [], oa_literal = [], oa_envName = [], oa_psqlVar = [], oa_value = [], oa_secret = None\<rparr>"

text \<open>The accumulator: the columns used so far and the assignments, in order.\<close>

type_synonym objAcc = "string list \<times> objAssign list"

definition addAssign :: "plan \<Rightarrow> string \<Rightarrow> (string \<Rightarrow> objAssign) \<Rightarrow> objAcc \<Rightarrow> error + objAcc" where
  "addAssign p logical mk acc =
     (let c = mget (objColumns p) logical in
      case safeIdent c of
        Inl e \<Rightarrow> Inl e
      | Inr _ \<Rightarrow> Inr (c # fst acc, snd acc @ [mk c]))"

definition addLiteral :: "plan \<Rightarrow> string \<Rightarrow> string \<Rightarrow> objAcc \<Rightarrow> error + objAcc" where
  "addLiteral p logical lit = addAssign p logical (\<lambda>c. zeroAssign\<lparr>oa_column := c, oa_literal := lit\<rparr>)"

definition addString :: "plan \<Rightarrow> string \<Rightarrow> string \<Rightarrow> objAcc \<Rightarrow> error + objAcc" where
  "addString p logical val = addAssign p logical (\<lambda>c.
     if val = [] then zeroAssign\<lparr>oa_column := c, oa_literal := ''NULL''\<rparr>
     else zeroAssign\<lparr>oa_column := c, oa_envName := ''OBJVAL_'' @ logical, oa_psqlVar := ''v_'' @ logical,
            oa_value := val\<rparr>)"

definition addSecret :: "plan \<Rightarrow> string \<Rightarrow> secretKeySelector \<Rightarrow> objAcc \<Rightarrow> error + objAcc" where
  "addSecret p logical sel = addAssign p logical (\<lambda>c.
     zeroAssign\<lparr>oa_column := c, oa_envName := ''OBJVAL_'' @ logical, oa_psqlVar := ''v_'' @ logical,
       oa_secret := Some sel\<rparr>)"

fun seqE :: "('s \<Rightarrow> 'e + 's) list \<Rightarrow> 's \<Rightarrow> 'e + 's" where
  "seqE [] s = Inr s"
| "seqE (f # fs) s = (case f s of Inl e \<Rightarrow> Inl e | Inr s' \<Rightarrow> seqE fs s')"

definition portLiteral :: "int32 option \<Rightarrow> string" where
  "portLiteral p = (case p of None \<Rightarrow> ''NULL'' | Some i \<Rightarrow> itoa i)"

definition standardSteps :: "plan \<Rightarrow> (objAcc \<Rightarrow> error + objAcc) list" where
  "standardSteps p =
     [addLiteral p ''useObjectStorage'' ''true'',
      addString p ''bucket'' (objBucket p),
      addString p ''endpoint'' (objEndpoint p),
      addString p ''region'' (objRegion p),
      addString p ''prefix'' (objPrefix p),
      addString p ''baseUrl'' (objBaseURL p),
      addLiteral p ''port'' (portLiteral (objPort p)),
      addSecret p ''accessKey'' (objAccessKeySel p),
      addSecret p ''secretKey'' (objSecretKeySel p),
      addLiteral p ''useSSL'' (formatBool (objUseSSL p)),
      addLiteral p ''useProxy'' (formatBool (objUseProxy p)),
      addLiteral p ''setPublicRead'' (formatBool (objSetPublicRead p)),
      addLiteral p ''s3ForcePathStyle'' (formatBool (objForcePathStyle p))]"

definition addExtra :: "plan \<Rightarrow> nat \<times> string \<Rightarrow> objAcc \<Rightarrow> error + objAcc" where
  "addExtra p ik acc =
     (case ik of (i, k) \<Rightarrow>
        case safeIdent k of
          Inl e \<Rightarrow> Inl e
        | Inr _ \<Rightarrow>
            if k \<in> set (fst acc)
            then Inl (ErrMsg (''extraColumns key '' @ quoteGo k @ '' collides with a standard object storage column''))
            else Inr (k # fst acc, snd acc @ [zeroAssign\<lparr>oa_column := k,
                   oa_envName := ''OBJEXTRA_'' @ itoa (int i), oa_psqlVar := ''x_'' @ itoa (int i),
                   oa_value := mget (objExtra p) k\<rparr>]))"

definition objectStorageAssignments :: "plan \<Rightarrow> error + objAssign list" where
  "objectStorageAssignments p =
     (let keys = mkeys (objExtra p) in
      case seqE (standardSteps p @ map (addExtra p) (enumerate 0 keys)) ([], []) of
        Inl e \<Rightarrow> Inl e
      | Inr acc \<Rightarrow> Inr (snd acc))"

subsection \<open>SQL and environment\<close>

definition sqlAssignment :: "bool \<Rightarrow> objAssign \<Rightarrow> string" where
  "sqlAssignment isLast a =
     (let sep = (if isLast then [] else '','') in
      if oa_envName a \<noteq> [] then
        ''  '' @ quoteGo (oa_column a) @ '' = :'' @ [CHR 0x27] @ oa_psqlVar a @ [CHR 0x27] @ sep @ nl
      else ''  '' @ quoteGo (oa_column a) @ '' = '' @ oa_literal a @ sep @ nl)"

definition renderObjectStorageSQL :: "objAssign list \<Rightarrow> string" where
  "renderObjectStorageSQL assigns =
     ''-- Managed by cloudnative-misskey. Do not edit by hand.'' @ nl @
     [CHR 0x5C] @ ''set ON_ERROR_STOP on'' @ nl @
     concat (map (\<lambda>a. if oa_envName a \<noteq> []
       then [CHR 0x5C] @ ''getenv '' @ oa_psqlVar a @ '' '' @ oa_envName a @ nl else []) assigns) @
     ''INSERT INTO meta (id) VALUES ('' @ [CHR 0x27] @ metaRowID @ [CHR 0x27] @ '') ON CONFLICT (id) DO NOTHING;'' @ nl @
     ''UPDATE meta SET'' @ nl @
     concat (map (\<lambda>(i, a). sqlAssignment (Suc i = length assigns) a) (enumerate 0 assigns)) @
     ''WHERE id = '' @ [CHR 0x27] @ metaRowID @ [CHR 0x27] @ '';'' @ nl"

definition objectStorageJobEnv :: "objAssign list \<Rightarrow> envVar list" where
  "objectStorageJobEnv assigns = List.map_filter (\<lambda>a.
     if oa_envName a = [] then None
     else Some (case oa_secret a of
       Some s \<Rightarrow> secretEnv (oa_envName a) s | None \<Rightarrow> plainEnv (oa_envName a) (oa_value a))) assigns"

subsection \<open>The hash of the inputs\<close>

definition credentialSecretVersion :: "string \<Rightarrow> string \<Rightarrow> string io" where
  "credentialSecretVersion ns n =
     bnd (kget KSecret ns n) (\<lambda>r. Ret (n @ '':'' @ (case r of
       Inr s \<Rightarrow> om_resourceVersion (ko_meta s) | Inl _ \<Rightarrow> ''missing'')))"

fun mapIO :: "('x \<Rightarrow> 'a io) \<Rightarrow> 'x list \<Rightarrow> 'a list io" where
  "mapIO f [] = Ret []"
| "mapIO f (x # xs) = bnd (f x) (\<lambda>a. bnd (mapIO f xs) (\<lambda>as. Ret (a # as)))"

definition credentialSecretVersions :: "misskey \<Rightarrow> plan \<Rightarrow> string list io" where
  "credentialSecretVersions m p =
     bnd (mapIO (credentialSecretVersion (mnamespace m))
            (remdups [sel_name (objAccessKeySel p), sel_name (objSecretKeySel p)]))
       (\<lambda>vs. Ret (sort vs))"

definition objectStorageHash :: "misskey \<Rightarrow> plan \<Rightarrow> string \<Rightarrow> objAssign list \<Rightarrow> string io" where
  "objectStorageHash m p sql assigns =
     bnd (credentialSecretVersions m p) (\<lambda>vs.
       Ret (hexEncode (sha256 (checksumInput ([sql] @
         map (\<lambda>a. oa_column a @ ''='' @ oa_value a)
             (filter (\<lambda>a. oa_envName a \<noteq> [] \<and> oa_secret a = None) assigns) @ vs)))))"

subsection \<open>The Job\<close>

definition cleanupObjectStorageJobs :: "misskey \<Rightarrow> string \<Rightarrow> (error + unit) io" where
  "cleanupObjectStorageJobs m keep =
     chk (klist KJob (mnamespace m) (selectorFor m ''objstorage'')) (\<lambda>jobs.
       forE jobs (\<lambda>j. if kname j = keep then Ret (Inr ()) else deleteBackground j))"

definition cleanupObjectStorage :: "misskey \<Rightarrow> (error + unit) io" where
  "cleanupObjectStorage m =
     chk (cleanupObjectStorageJobs m []) (\<lambda>_.
       deleteIfExists KConfigMap (mnamespace m) (nameObjectStorageSQL m))"

definition psqlEnv :: "misskey \<Rightarrow> plan \<Rightarrow> envVar list" where
  "psqlEnv m p =
     (let mp = migratePlan m p in
      [plainEnv ''PGHOST'' (dbHost mp), plainEnv ''PGPORT'' (itoa (dbPort mp)),
       plainEnv ''PGDATABASE'' (dbName mp), plainEnv ''PGUSER'' (dbUser mp),
       secretEnv ''PGPASSWORD'' (dbPassSel mp), plainEnv ''HOME'' ''/tmp''])"

definition psqlPod :: "libs \<Rightarrow> misskey \<Rightarrow> string \<Rightarrow> string \<Rightarrow> string \<Rightarrow> string \<Rightarrow> envVar list \<Rightarrow> podSpec" where
  "psqlPod L m name img file cm env =
     zeroPodSpec\<lparr>ps_automountServiceAccountToken := Some False, ps_restartPolicy := ''OnFailure'',
       ps_imagePullSecrets := imagePullSecrets (spec m),
       ps_securityContext := Some (nonRootPodSecurityContext genericNonRootUID),
       ps_containers := [zeroContainer\<lparr>c_name := name, c_image := img,
         c_command := [''psql'', ''-1'', ''-f'', ''/sql/'' @ file], c_env := env,
         c_securityContext := Some restrictedContainerSecurityContext,
         c_resources := resourcesOr L noResources ''50m'' ''64Mi'' ''128Mi'',
         c_volumeMounts := [\<lparr>vm_name = ''sql'', vm_mountPath = ''/sql'', vm_subPath = [], vm_readOnly = True\<rparr>, tmpMount]\<rparr>],
       ps_volumes := [configMapVolume ''sql'' cm, tmpVolume]\<rparr>"

definition buildObjectStorageJob :: "libs \<Rightarrow> misskey \<Rightarrow> plan \<Rightarrow> string \<Rightarrow> envVar list \<Rightarrow> kobj" where
  "buildObjectStorageJob L m p name objEnv =
     newJob m name (labelsFor m ''objstorage'') []
       (psqlPod L m ''objectstorage'' (objImage p) ''objectstorage.sql'' (nameObjectStorageSQL m)
          (psqlEnv m p @ objEnv))"

definition objectStorageJobAbsent :: "libs \<Rightarrow> misskey \<Rightarrow> plan \<Rightarrow> string \<Rightarrow> objAssign list \<Rightarrow> (error + bool) io" where
  "objectStorageJobAbsent L m p jobName assigns =
     chk (createOwned L m (buildObjectStorageJob L m p jobName (objectStorageJobEnv assigns))) (\<lambda>_.
       eventThen L EventNormal ''ObjectStorageConfiguring'' ''Configure''
         (''created object storage meta Job '' @ jobName) (Ret (Inr False)))"

definition objectStorageJobFound :: "libs \<Rightarrow> kobj \<Rightarrow> (error + bool) io" where
  "objectStorageJobFound L j =
     (let job = jobOf j; done = Ret (Inr (job_statusSucceeded job \<ge> 1)) in
      if job_statusSucceeded job = 0 \<and> job_statusFailed job \<ge> 1 then
        eventThen L EventWarning ''ObjectStorageFailed'' ''Configure''
          (''object storage meta Job '' @ kname j @ '' failed ('' @ itoa (job_statusFailed job) @
           ''); delete the Job to retry'') done
      else done)"

definition objectStorageApply :: "libs \<Rightarrow> misskey \<Rightarrow> plan \<Rightarrow> objAssign list \<Rightarrow> string \<Rightarrow> (error + bool) io" where
  "objectStorageApply L m p assigns jobName =
     chk (cleanupObjectStorageJobs m jobName) (\<lambda>_.
     chk (applyObj L m (newObj KConfigMap (mnamespace m) (nameObjectStorageSQL m)) (\<lambda>cm.
       ret (setBody (BData [(''objectstorage.sql'', renderObjectStorageSQL assigns)])
            (withLabels (labelsFor m ''objstorage'') cm)))) (\<lambda>_.
     bnd (kget KJob (mnamespace m) jobName) (\<lambda>r. case r of
       Inl e \<Rightarrow> if isNotFound e then objectStorageJobAbsent L m p jobName assigns else Ret (Inl e)
     | Inr j \<Rightarrow> objectStorageJobFound L j)))"

definition reconcileObjectStorage :: "libs \<Rightarrow> misskey \<Rightarrow> plan \<Rightarrow> (error + bool) io" where
  "reconcileObjectStorage L m p =
     (case objectStorageAssignments p of
        Inl e \<Rightarrow> Ret (Inl e)
      | Inr assigns \<Rightarrow>
          bnd (objectStorageHash m p (renderObjectStorageSQL assigns) assigns) (\<lambda>hash.
            objectStorageApply L m p assigns (nameObjectStorage m hash)))"

subsection \<open>What the assignments are\<close>

text \<open>
  The thirteen standard columns as a table of logical names and assignments, and the exact
  outcome: either some identifier is bad or an extra column collides, or the assignments are
  the standard ones followed by the extra ones in key order.
\<close>

definition litAssign :: "string \<Rightarrow> string \<Rightarrow> objAssign" where
  "litAssign lit c = zeroAssign\<lparr>oa_column := c, oa_literal := lit\<rparr>"

definition strAssign :: "string \<Rightarrow> string \<Rightarrow> string \<Rightarrow> objAssign" where
  "strAssign logical val c =
     (if val = [] then zeroAssign\<lparr>oa_column := c, oa_literal := ''NULL''\<rparr>
      else zeroAssign\<lparr>oa_column := c, oa_envName := ''OBJVAL_'' @ logical, oa_psqlVar := ''v_'' @ logical,
             oa_value := val\<rparr>)"

definition secAssign :: "string \<Rightarrow> secretKeySelector \<Rightarrow> string \<Rightarrow> objAssign" where
  "secAssign logical sel c = zeroAssign\<lparr>oa_column := c, oa_envName := ''OBJVAL_'' @ logical,
     oa_psqlVar := ''v_'' @ logical, oa_secret := Some sel\<rparr>"

definition standardTable :: "plan \<Rightarrow> (string \<times> (string \<Rightarrow> objAssign)) list" where
  "standardTable p =
     [(''useObjectStorage'', litAssign ''true''),
      (''bucket'', strAssign ''bucket'' (objBucket p)),
      (''endpoint'', strAssign ''endpoint'' (objEndpoint p)),
      (''region'', strAssign ''region'' (objRegion p)),
      (''prefix'', strAssign ''prefix'' (objPrefix p)),
      (''baseUrl'', strAssign ''baseUrl'' (objBaseURL p)),
      (''port'', litAssign (portLiteral (objPort p))),
      (''accessKey'', secAssign ''accessKey'' (objAccessKeySel p)),
      (''secretKey'', secAssign ''secretKey'' (objSecretKeySel p)),
      (''useSSL'', litAssign (formatBool (objUseSSL p))),
      (''useProxy'', litAssign (formatBool (objUseProxy p))),
      (''setPublicRead'', litAssign (formatBool (objSetPublicRead p))),
      (''s3ForcePathStyle'', litAssign (formatBool (objForcePathStyle p)))]"

lemma add_mk:
  "addLiteral p l lit = addAssign p l (litAssign lit)" "addString p l val = addAssign p l (strAssign l val)"
  "addSecret p l sel = addAssign p l (secAssign l sel)"
  by (simp_all add: addLiteral_def addString_def addSecret_def litAssign_def [abs_def] strAssign_def [abs_def]
      secAssign_def [abs_def])

lemma standardSteps_table: "standardSteps p = map (\<lambda>(l, mk). addAssign p l mk) (standardTable p)"
  unfolding standardSteps_def standardTable_def add_mk by simp

definition extraAssign :: "plan \<Rightarrow> nat \<times> string \<Rightarrow> objAssign" where
  "extraAssign p ik = zeroAssign\<lparr>oa_column := snd ik, oa_envName := ''OBJEXTRA_'' @ itoa (int (fst ik)),
     oa_psqlVar := ''x_'' @ itoa (int (fst ik)), oa_value := mget (objExtra p) (snd ik)\<rparr>"

lemma seqE_append: "seqE (xs @ ys) s = (case seqE xs s of Inl e \<Rightarrow> Inl e | Inr s' \<Rightarrow> seqE ys s')"
  by (induction xs arbitrary: s) (auto split: sum.split)

lemma safeIdent_Inr: "safeIdent c = Inr u \<longleftrightarrow> identRe c"
  by (auto simp: safeIdent_def)

lemma addAssign_cases:
  "identRe (mget (objColumns p) l) \<Longrightarrow>
     addAssign p l mk acc = Inr (mget (objColumns p) l # fst acc, snd acc @ [mk (mget (objColumns p) l)])"
  "\<not> identRe (mget (objColumns p) l) \<Longrightarrow> \<exists>e. addAssign p l mk acc = Inl e"
  by (simp_all add: addAssign_def Let_def safeIdent_def)

lemma addExtra_cases:
  "identRe k \<and> k \<notin> set (fst acc) \<Longrightarrow>
     addExtra p (i, k) acc = Inr (k # fst acc, snd acc @ [extraAssign p (i, k)])"
  "\<not> (identRe k \<and> k \<notin> set (fst acc)) \<Longrightarrow> \<exists>e. addExtra p (i, k) acc = Inl e"
  by (auto simp: addExtra_def safeIdent_def extraAssign_def)

lemma seqE_table:
  "seqE (map (\<lambda>(l, mk). addAssign p l mk) tab) acc = Inr acc' \<longleftrightarrow>
     (\<forall>l\<in>set (map fst tab). identRe (mget (objColumns p) l)) \<and>
     acc' = (rev (map (mget (objColumns p) \<circ> fst) tab) @ fst acc,
             snd acc @ map (\<lambda>(l, mk). mk (mget (objColumns p) l)) tab)"
proof (induction tab arbitrary: acc)
  case Nil
  show ?case by (cases acc) auto
next
  case (Cons x tab)
  obtain l mk where x: "x = (l, mk)" by force
  show ?case
  proof (cases "identRe (mget (objColumns p) l)")
    case True
    then show ?thesis by (simp add: x addAssign_cases(1) Cons.IH)
  next
    case False
    with addAssign_cases(2) [of p l mk acc] show ?thesis by (auto simp: x)
  qed
qed

lemma seqE_extra:
  "distinct ks \<Longrightarrow> seqE (map (addExtra p) (enumerate n ks)) acc = Inr acc' \<longleftrightarrow>
     (\<forall>k\<in>set ks. identRe k \<and> k \<notin> set (fst acc)) \<and>
     acc' = (rev ks @ fst acc, snd acc @ map (extraAssign p) (enumerate n ks))"
proof (induction ks arbitrary: n acc)
  case Nil
  show ?case by (cases acc) auto
next
  case (Cons k ks)
  show ?case
  proof (cases "identRe k \<and> k \<notin> set (fst acc)")
    case True
    with Cons.prems show ?thesis by (auto simp: addExtra_cases(1) Cons.IH)
  next
    case False
    with addExtra_cases(2) [of k acc p n] show ?thesis by auto
  qed
qed

lemma assignments_Inr:
  "objectStorageAssignments p = Inr as \<longleftrightarrow>
     (\<forall>l\<in>set (map fst (standardTable p)). identRe (mget (objColumns p) l)) \<and>
     (\<forall>k\<in>set (mkeys (objExtra p)). identRe k \<and> k \<notin> mget (objColumns p) ` set (map fst (standardTable p))) \<and>
     as = map (\<lambda>(l, mk). mk (mget (objColumns p) l)) (standardTable p)
          @ map (extraAssign p) (enumerate 0 (mkeys (objExtra p)))"
proof -
  let ?s = "seqE (map (\<lambda>(l, mk). addAssign p l mk) (standardTable p)) ([], [])"
  show ?thesis
  proof (cases ?s)
    case (Inl e)
    then have "\<not> (\<forall>l\<in>set (map fst (standardTable p)). identRe (mget (objColumns p) l))"
      using seqE_table [of p "standardTable p" "([], [])"] by (metis sum.distinct(1))
    with Inl show ?thesis
      by (simp add: objectStorageAssignments_def standardSteps_table seqE_append Let_def)
  next
    case (Inr acc)
    let ?k = "mkeys (objExtra p)"
    have a: "(\<forall>l\<in>set (map fst (standardTable p)). identRe (mget (objColumns p) l)) \<and>
        acc = (rev (map (mget (objColumns p) \<circ> fst) (standardTable p)),
               map (\<lambda>(l, mk). mk (mget (objColumns p) l)) (standardTable p))"
      using Inr seqE_table [of p "standardTable p" "([], [])" acc] by simp
    have "objectStorageAssignments p = Inr as \<longleftrightarrow>
        (\<exists>acc'. seqE (map (addExtra p) (enumerate 0 ?k)) acc = Inr acc' \<and> as = snd acc')"
      using Inr by (auto simp: objectStorageAssignments_def standardSteps_table seqE_append Let_def
          split: sum.split)
    also have "\<dots> \<longleftrightarrow> (\<forall>k\<in>set ?k. identRe k \<and> k \<notin> set (fst acc)) \<and>
        as = snd acc @ map (extraAssign p) (enumerate 0 ?k)"
      by (simp add: seqE_extra)
    finally show ?thesis using a by (auto simp: image_image)
  qed
qed

subsection \<open>Nothing of a value enters the SQL\<close>

definition literalText :: "string \<Rightarrow> bool" where
  "literalText t \<longleftrightarrow> t \<in> {''true'', ''false'', ''NULL''} \<or> (\<exists>i. t = itoa i)"

definition assignOk :: "objAssign \<Rightarrow> bool" where
  "assignOk a \<longleftrightarrow> identRe (oa_column a) \<and>
     (if oa_envName a = [] then literalText (oa_literal a)
      else list_all identChar (oa_psqlVar a) \<and> list_all identChar (oa_envName a))"

lemma identChar_itoa: "list_all identChar (itoa (int i))"
  using digits10_digit by (auto simp: itoa_def list_all_iff identChar_def inRange_def byte_def)

lemma literalText_intros:
  "literalText ''true''" "literalText ''NULL''" "literalText (formatBool b)" "literalText (portLiteral q)"
  by (auto simp: literalText_def formatBool_def portLiteral_def split: option.split)

lemma assign_mk_ok:
  "identRe c \<Longrightarrow> literalText lit \<Longrightarrow> assignOk (litAssign lit c)"
  "identRe c \<Longrightarrow> list_all identChar l \<Longrightarrow> assignOk (strAssign l v c)"
  "identRe c \<Longrightarrow> list_all identChar l \<Longrightarrow> assignOk (secAssign l sel c)"
  "identRe k \<Longrightarrow> assignOk (extraAssign p (i, k))"
  by (auto simp: assignOk_def litAssign_def strAssign_def secAssign_def extraAssign_def zeroAssign_def
      literalText_intros identChar_def identStart_def inRange_def byte_def identChar_itoa)

lemma table_logicals_ok: "(l, mk) \<in> set (standardTable p) \<Longrightarrow> list_all identChar l"
  by (auto simp: standardTable_def identChar_def identStart_def inRange_def byte_def)

lemma table_kinds:
  "(l, mk) \<in> set (standardTable p) \<Longrightarrow>
     (\<exists>lit. mk = litAssign lit \<and> literalText lit) \<or> (\<exists>v. mk = strAssign l v) \<or> (\<exists>sel. mk = secAssign l sel)"
  using literalText_intros by (auto simp: standardTable_def)

lemma table_assign_ok: "(l, mk) \<in> set (standardTable p) \<Longrightarrow> identRe c \<Longrightarrow> assignOk (mk c)"
  using table_kinds [of l mk p] table_logicals_ok [of l mk p] by (auto intro: assign_mk_ok)

lemma assignments_ok:
  assumes "objectStorageAssignments p = Inr as" "a \<in> set as"
  shows "assignOk a"
proof -
  let ?std = "map (\<lambda>(l, mk). mk (mget (objColumns p) l)) (standardTable p)"
  let ?ext = "map (extraAssign p) (enumerate 0 (mkeys (objExtra p)))"
  from assms have cols: "\<And>l. l \<in> set (map fst (standardTable p)) \<Longrightarrow> identRe (mget (objColumns p) l)"
    and keys: "\<And>k. k \<in> set (mkeys (objExtra p)) \<Longrightarrow> identRe k" and as: "as = ?std @ ?ext"
    unfolding assignments_Inr by blast+
  from assms(2) as consider "a \<in> set ?std" | "a \<in> set ?ext" unfolding as set_append by blast
  then show ?thesis
  proof cases
    case 1
    then obtain l mk where lm: "(l, mk) \<in> set (standardTable p)" "a = mk (mget (objColumns p) l)" by auto
    then have "identRe (mget (objColumns p) l)" by (intro cols) force
    with lm table_assign_ok show ?thesis by simp
  next
    case 2
    then obtain i k where ik: "(i, k) \<in> set (enumerate 0 (mkeys (objExtra p)))" "a = extraAssign p (i, k)" by auto
    then have "k \<in> set (mkeys (objExtra p))" unfolding in_set_enumerate_eq by (auto simp del: set_mkeys)
    with keys ik assign_mk_ok(4) show ?thesis by simp
  qed
qed

text \<open>Environment names are pairwise distinct, so no value can shadow another.\<close>

definition envNames :: "objAssign list \<Rightarrow> string list" where
  "envNames as = filter (\<lambda>n. n \<noteq> []) (map oa_envName as)"

lemma envNames_standard:
  "set (envNames (map (\<lambda>(l, mk). mk (col l)) (standardTable p))) \<subseteq> {n. \<exists>l. n = ''OBJVAL_'' @ l}"
  "distinct (envNames (map (\<lambda>(l, mk). mk (col l)) (standardTable p)))"
  by (simp_all add: standardTable_def envNames_def litAssign_def strAssign_def secAssign_def zeroAssign_def)

lemma envNames_extra:
  "envNames (map (extraAssign p) (enumerate n ks)) = map (\<lambda>i. ''OBJEXTRA_'' @ itoa (int i)) [n..<n + length ks]"
  by (induction ks arbitrary: n) (auto simp: envNames_def extraAssign_def upt_conv_Cons simp del: upt_Suc)

lemma assignments_env_distinct:
  assumes "objectStorageAssignments p = Inr as"
  shows "distinct (envNames as)"
proof -
  let ?std = "map (\<lambda>(l, mk). mk (mget (objColumns p) l)) (standardTable p)"
  let ?ext = "map (extraAssign p) (enumerate 0 (mkeys (objExtra p)))"
  have as: "envNames as = envNames ?std @ envNames ?ext"
    using assms unfolding assignments_Inr by (simp add: envNames_def)
  have "distinct (envNames ?ext)"
    unfolding envNames_extra by (auto simp: distinct_map inj_on_def itoa_nat_inj)
  moreover have "set (envNames ?std) \<inter> set (envNames ?ext) = {}"
    using envNames_standard(1) [of "mget (objColumns p)" p] unfolding envNames_extra by auto
  ultimately show ?thesis using envNames_standard(2) as by simp
qed

text \<open>
  The SQL text is a function of columns, literals and variable names alone.
\<close>

definition sqlShape :: "objAssign \<Rightarrow> objAssign" where
  "sqlShape a = a\<lparr>oa_value := [], oa_secret := None\<rparr>"

lemma renderObjectStorageSQL_shape: "renderObjectStorageSQL (map sqlShape as) = renderObjectStorageSQL as"
proof -
  have A: "map (\<lambda>(i, a). sqlAssignment (Suc i = n) a) (enumerate k (map sqlShape as)) =
        map (\<lambda>(i, a). sqlAssignment (Suc i = n) a) (enumerate k as)" for n k
    by (induction as arbitrary: k) (auto simp: sqlAssignment_def sqlShape_def)
  have B: "map (\<lambda>a. if oa_envName a \<noteq> [] then [CHR 0x5C] @ ''getenv '' @ oa_psqlVar a @ '' '' @ oa_envName a @ nl else [])
      (map sqlShape as) = map (\<lambda>a. if oa_envName a \<noteq> [] then [CHR 0x5C] @ ''getenv '' @ oa_psqlVar a @ '' '' @ oa_envName a @ nl else []) as"
    by (simp add: sqlShape_def)
  show ?thesis unfolding renderObjectStorageSQL_def A B length_map by (rule refl)
qed

text \<open>\<open>sameFields p q\<close>: the plans differ at most in the text of values that are set in both.\<close>

definition sameFields :: "plan \<Rightarrow> plan \<Rightarrow> bool" where
  "sameFields p q \<longleftrightarrow> objColumns p = objColumns q \<and> mkeys (objExtra p) = mkeys (objExtra q) \<and>
     objPort p = objPort q \<and> objUseSSL p = objUseSSL q \<and> objUseProxy p = objUseProxy q \<and>
     objSetPublicRead p = objSetPublicRead q \<and> objForcePathStyle p = objForcePathStyle q \<and>
     (objBucket p = []) = (objBucket q = []) \<and> (objEndpoint p = []) = (objEndpoint q = []) \<and>
     (objRegion p = []) = (objRegion q = []) \<and> (objPrefix p = []) = (objPrefix q = []) \<and>
     (objBaseURL p = []) = (objBaseURL q = [])"

lemma assign_shape:
  "sqlShape (strAssign l v c) = (if v = [] then litAssign ''NULL'' c
     else zeroAssign\<lparr>oa_column := c, oa_envName := ''OBJVAL_'' @ l, oa_psqlVar := ''v_'' @ l\<rparr>)"
  "sqlShape (secAssign l sel c) = zeroAssign\<lparr>oa_column := c, oa_envName := ''OBJVAL_'' @ l, oa_psqlVar := ''v_'' @ l\<rparr>"
  "sqlShape (litAssign t c) = litAssign t c"
  by (simp_all add: strAssign_def secAssign_def sqlShape_def litAssign_def zeroAssign_def)

lemma table_shape:
  assumes "sameFields p q"
  shows "map (\<lambda>(l, mk). (l, sqlShape (mk (col l)))) (standardTable p) =
         map (\<lambda>(l, mk). (l, sqlShape (mk (col l)))) (standardTable q)"
  using assms unfolding sameFields_def standardTable_def by (simp only: list.map prod.case assign_shape simp_thms)

lemma sameFields_shape:
  assumes "sameFields p q" "objectStorageAssignments p = Inr as" "objectStorageAssignments q = Inr bs"
  shows "map sqlShape as = map sqlShape bs"
proof -
  have "map snd (map (\<lambda>(l, mk). (l, sqlShape (mk (col l)))) (standardTable p)) =
        map snd (map (\<lambda>(l, mk). (l, sqlShape (mk (col l)))) (standardTable q))" for col
    using table_shape [OF assms(1)] by simp
  then have std: "map sqlShape (map (\<lambda>(l, mk). mk (col l)) (standardTable p)) =
      map sqlShape (map (\<lambda>(l, mk). mk (col l)) (standardTable q))" for col
    by (simp add: case_prod_unfold comp_def)
  have ext: "map sqlShape (map (extraAssign p) xs) = map sqlShape (map (extraAssign q) xs)" for xs
    by (simp add: sqlShape_def extraAssign_def)
  have eq: "objColumns p = objColumns q" "mkeys (objExtra p) = mkeys (objExtra q)"
    using assms(1) by (simp_all add: sameFields_def)
  from assms(2,3) show ?thesis unfolding assignments_Inr eq using std ext by simp
qed

lemma sameFields_ok:
  "sameFields p q \<Longrightarrow> (\<exists>as. objectStorageAssignments p = Inr as) \<longleftrightarrow> (\<exists>bs. objectStorageAssignments q = Inr bs)"
proof -
  assume sf: "sameFields p q"
  have "map fst (standardTable p) = map fst (standardTable q)" by (simp add: standardTable_def)
  moreover have "objColumns p = objColumns q" "mkeys (objExtra p) = mkeys (objExtra q)"
    using sf by (simp_all add: sameFields_def)
  ultimately show ?thesis unfolding assignments_Inr by simp
qed

subsection \<open>The Job step keeps the contract of a Job gate\<close>

definition isObjectStorageJob :: "misskey \<Rightarrow> string \<Rightarrow> bool" where
  "isObjectStorageJob m n \<longleftrightarrow> (\<exists>h. n = nameObjectStorage m h)"

lemma objectStorageJob_done:
  assumes "runs (bnd (kget KJob (mnamespace m) n) (\<lambda>r. case r of
       Inl e \<Rightarrow> if isNotFound e then objectStorageJobAbsent L m p n as else Ret (Inl e)
     | Inr j \<Rightarrow> objectStorageJobFound L j)) tr (Inr True)" "isObjectStorageJob m n"
  shows "\<exists>e\<in>set tr. jobSeen m isObjectStorageJob e"
proof -
  have no: "\<not> runs (objectStorageJobAbsent L m p n as) t (Inr True)" for t
    by (auto simp: objectStorageJobAbsent_def runs_chk_Inr dest!: eventThen_runs)
  have yes: "job_statusSucceeded (jobOf j) \<ge> 1" if "runs (objectStorageJobFound L j) t (Inr True)" for j t
    using that by (auto simp: objectStorageJobFound_def Let_def split: if_splits dest!: eventThen_runs)
  from assms(1) obtain j t where "tr = (QGet KJob (mnamespace m) n, RObj j) # t"
    "atKey KJob (mnamespace m) n j" "runs (objectStorageJobFound L j) t (Inr True)"
    by (cases rule: runs_kget) (auto simp: no split: if_splits)
  with yes [of j t] assms(2) show ?thesis by (auto simp: jobSeen_def)
qed

lemma reconcileObjectStorage_done:
  assumes "runs (reconcileObjectStorage L m p) tr (Inr True)"
  shows "\<exists>e\<in>set tr. jobSeen m isObjectStorageJob e"
proof -
  obtain as where as: "objectStorageAssignments p = Inr as"
    using assms by (cases "objectStorageAssignments p") (auto simp: reconcileObjectStorage_def)
  obtain t0 h t where "tr = t0 @ t" and k: "runs (objectStorageApply L m p as (nameObjectStorage m h)) t (Inr True)"
    using assms unfolding reconcileObjectStorage_def as sum.case runs_bnd by blast
  then have t: "set t \<subseteq> set tr" "runs (objectStorageApply L m p as (nameObjectStorage m h)) t (Inr True)" by auto
  obtain t' where "set t' \<subseteq> set t" "runs (bnd (kget KJob (mnamespace m) (nameObjectStorage m h)) (\<lambda>r. case r of
       Inl e \<Rightarrow> if isNotFound e then objectStorageJobAbsent L m p (nameObjectStorage m h) as else Ret (Inl e)
     | Inr j \<Rightarrow> objectStorageJobFound L j)) t' (Inr True)"
  proof -
    obtain t1 t2 t3 where "t = t1 @ t2 @ t3" "runs (bnd (kget KJob (mnamespace m) (nameObjectStorage m h)) (\<lambda>r. case r of
       Inl e \<Rightarrow> if isNotFound e then objectStorageJobAbsent L m p (nameObjectStorage m h) as else Ret (Inl e)
     | Inr j \<Rightarrow> objectStorageJobFound L j)) t3 (Inr True)"
      using t(2) unfolding objectStorageApply_def runs_chk_Inr by blast
    then show thesis using that by auto
  qed
  with objectStorageJob_done [of m "nameObjectStorage m h" L p as t'] t(1) show ?thesis
    unfolding isObjectStorageJob_def by blast
qed

lemma mapIO_calls [calls_intros]: "(\<And>x. x \<in> set xs \<Longrightarrow> calls P (f x)) \<Longrightarrow> calls P (mapIO f xs)"
  by (induction xs) (auto intro!: calls_bnd)

lemma objectStorageHash_calls [calls_intros]:
  "(\<And>n. P (QGet KSecret (mnamespace m) n)) \<Longrightarrow> calls P (objectStorageHash m p sql as)"
  unfolding objectStorageHash_def credentialSecretVersions_def credentialSecretVersion_def
  by (intro calls_intros) auto

lemma cleanupObjectStorageJobs_calls:
  assumes "P (QList KJob (mnamespace m) (selectorFor m ''objstorage''))"
    and "\<And>j. listed KJob (mnamespace m) (selectorFor m ''objstorage'') j \<Longrightarrow> kname j \<noteq> keep \<Longrightarrow>
      P (QDelete KJob (knamespace j) (kname j) PropagationBackground)"
  shows "calls P (cleanupObjectStorageJobs m keep)"
  unfolding cleanupObjectStorageJobs_def
  using assms by (intro calls_intros) (auto simp: list_all_iff listed_def)

lemma ret_runs [simp]: "runs (ret x) t y \<longleftrightarrow> t = [] \<and> y = Inr x"
  by (auto simp: ret_def)

lemma ret_calls [calls_intros]: "calls P (ret x)"
  by (simp add: ret_def)

lemma reconcileObjectStorage_foot:
  assumes "stable_owner L"
  shows "calls (\<lambda>q. \<forall>w. writes q = Some w \<longrightarrow> fst w \<in> {KJob, KConfigMap}) (reconcileObjectStorage L m p)"
  unfolding reconcileObjectStorage_def objectStorageApply_def objectStorageJobAbsent_def
    objectStorageJobFound_def Let_def
  by (intro calls_intros cleanupObjectStorageJobs_calls)
     (auto simp: atKey_def buildObjectStorageJob_def dest: stable_ownerD [OF assms])

interpretation object_storage_gate:
  job_gate reconcileObjectStorage isObjectStorageJob "\<lambda>m w. fst w \<in> {KJob, KConfigMap}"
proof unfold_locales
  show "\<exists>e\<in>set tr. jobSeen m isObjectStorageJob e" if "runs (reconcileObjectStorage L m p) tr (Inr True)" for L m p tr
    using reconcileObjectStorage_done [OF that] .
  show "calls (\<lambda>q. \<forall>w. writes q = Some w \<longrightarrow> fst w \<in> {KJob, KConfigMap}) (reconcileObjectStorage L m p)"
    if "stable_owner L" for L m p
    using reconcileObjectStorage_foot [OF that] .
qed

subsection \<open>Properties\<close>


text \<open>
  The SQL text is independent of the values. Two plans with the same columns, switches
  and port that set the same values, whatever their text and whatever the credentials, are
  accepted alike and give byte for byte the same SQL.
\<close>
theorem object_storage_sql_value_independent:
  assumes "sameFields p q" "objectStorageAssignments p = Inr as"
  shows "\<exists>bs. objectStorageAssignments q = Inr bs \<and> renderObjectStorageSQL bs = renderObjectStorageSQL as"
proof -
  obtain bs where bs: "objectStorageAssignments q = Inr bs" using sameFields_ok [OF assms(1)] assms(2) by blast
  have "map sqlShape as = map sqlShape bs" by (rule sameFields_shape [OF assms bs])
  then have "renderObjectStorageSQL bs = renderObjectStorageSQL as" by (metis renderObjectStorageSQL_shape)
  with bs show ?thesis by blast
qed

text \<open>
  Two standard columns that are mapped to one name are not rejected: only extra columns are
  checked for collisions.
\<close>
theorem standard_column_collision_accepted:
  "case objectStorageAssignments (zeroPlan\<lparr>objColumns :=
      mset ''endpoint'' ''objectStorageBucket'' objectStorageColumnDefaults\<rparr>) of
     Inr as \<Rightarrow> \<not> distinct (map oa_column as) | Inl _ \<Rightarrow> False"
  by code_simp

text \<open>
  An unreachable API server looks like a missing Secret here, unlike in \<^verbatim>\<open>secretVersion\<close>: the
  version of a credential that could not be read for any reason is \<^verbatim>\<open>missing\<close>, so the hash of
  the inputs, and with it the Job, changes on a transient error.
\<close>
theorem credential_error_reads_as_missing:
  "runs (credentialSecretVersion ns n) [(QGet KSecret ns n, RErr (ErrOther ''timeout''))] (n @ '':missing'')"
  "runs (secretVersion ns n) [(QGet KSecret ns n, RErr (ErrOther ''timeout''))] (Inl (ErrOther ''timeout''))"
  by (simp_all add: credentialSecretVersion_def secretVersion_def kget_def runs_Call_iff)

end
