(* ===== verification/Secrets.thy ===== *)
theory Secrets
  imports Common
begin

section \<open>Secrets the operator generates\<close>

text \<open>
  Four components keep a random credential in a Secret of the instance: the setup password
  (\<^verbatim>\<open>config.go\<close>), the Meilisearch master key (\<^verbatim>\<open>meilisearch.go\<close>), the Redis password
  (\<^verbatim>\<open>redisha.go\<close>) and the detector's API key (\<^verbatim>\<open>sensitive_detector.go\<close>). Each runs its
  own closure inside \<^verbatim>\<open>CreateOrUpdate\<close>; the locale \<open>generated_secret\<close> is the contract
  they share (a credential changes only when it is absent or a rotation was asked for), and
  the lemmas proved in it hold for all four.
\<close>

definition randomHex :: "nat \<Rightarrow> (error + string) io" where
  "randomHex n = chk (randRead n) (\<lambda>buf. Ret (Inr (hexEncode buf)))"

subsection \<open>The closures and their reconcilers\<close>

definition setupSecretMutate :: "misskey \<Rightarrow> kobj \<Rightarrow> (error + kobj) io" where
  "setupSecretMutate m s0 =
     (let s = withLabels (labelsFor m ''setup'') s0; d = dataOf s in
      chk (if map_of d setupPasswordID = None \<or> rotationRequested m s
           then chk (randomHex 16) (\<lambda>pw. ret (setBody (BData (mset setupPasswordID pw d)) s))
           else ret (setBody (BData d) s))
        (\<lambda>s1. ret (markRotation m s1)))"

definition reconcileSetupSecret :: "libs \<Rightarrow> misskey \<Rightarrow> (error + unit) io" where
  "reconcileSetupSecret L m =
     applyObj L m (newObj KSecret (mnamespace m) (nameSetup m)) (setupSecretMutate m)"

definition meiliSecretMutate :: "misskey \<Rightarrow> kobj \<Rightarrow> (error + kobj) io" where
  "meiliSecretMutate m s0 =
     (let s = withLabels (labelsFor m ''meilisearch'') s0; d = dataOf s in
      chk (if map_of d meiliMasterKeyID = None \<or> rotationRequested m s
           then chk (randomHex 32) (\<lambda>key. ret (setBody (BData (mset meiliMasterKeyID key d)) s))
           else ret (setBody (BData d) s))
        (\<lambda>s1. ret (markRotation m s1)))"

definition reconcileMeiliSecret :: "libs \<Rightarrow> misskey \<Rightarrow> (error + unit) io" where
  "reconcileMeiliSecret L m =
     (if ms_masterKeySecret (se_meilisearch (search (spec m))) \<noteq> None then Ret (Inr ())
      else applyObj L m (newObj KSecret (mnamespace m) (nameMeili m)) (meiliSecretMutate m))"

definition redisAuthSecretMutate :: "misskey \<Rightarrow> kobj \<Rightarrow> (error + kobj) io" where
  "redisAuthSecretMutate m s0 =
     (let s = withLabels (labelsFor m ''redis'') s0; d = dataOf s in
      chk (if map_of d ''password'' = None \<or> rotationRequested m s
           then chk (randomHex 24) (\<lambda>pw. ret (setBody (BData (mset ''password'' pw d)) s))
           else ret (setBody (BData d) s))
        (\<lambda>s1. ret (markRotation m s1)))"

definition reconcileRedisAuthSecret :: "libs \<Rightarrow> misskey \<Rightarrow> (error + unit) io" where
  "reconcileRedisAuthSecret L m =
     applyObj L m (newObj KSecret (mnamespace m) (nameRedisAuthSecret m)) (redisAuthSecretMutate m)"

definition sensitiveDetectorComponent :: string where
  "sensitiveDetectorComponent = ''sensitive-detector''"

definition detectorSecretMutate :: "misskey \<Rightarrow> kobj \<Rightarrow> (error + kobj) io" where
  "detectorSecretMutate m s0 =
     (let s = withLabels (labelsFor m sensitiveDetectorComponent) s0; d = dataOf s in
      chk (if map_of d sensitiveDetectorAPIKeyID = None \<or> rotationRequested m s
           then chk (randomHex 32) (\<lambda>key. ret (setBody (BData (mset sensitiveDetectorAPIKeyID key d)) s))
           else ret (setBody (BData d) s))
        (\<lambda>s1. ret (markRotation m s1)))"

definition reconcileSensitiveDetectorSecret :: "libs \<Rightarrow> misskey \<Rightarrow> (error + unit) io" where
  "reconcileSensitiveDetectorSecret L m =
     (case sensitiveDetector (spec m) of
        None \<Rightarrow> Ret (Inr ())
      | Some d \<Rightarrow>
          if sd_external d \<noteq> None \<or> sd_apiKeySecret d \<noteq> None then Ret (Inr ())
          else applyObj L m (newObj KSecret (mnamespace m) (nameSensitiveDetector m))
                 (detectorSecretMutate m))"

subsection \<open>The contract\<close>

text \<open>
  \<open>credential keyID s\<close> is the value the Secret carries. The assumptions describe one run of
  the closure on the Secret \<open>s\<close> the API server handed out: it keeps a credential that is
  there unless a rotation is pending, otherwise it draws \<open>nbytes\<close> random bytes and stores their
  hexadecimal form; other keys stay, nothing else is asked of the environment, and no
  rotation is pending afterwards.
\<close>

definition credential :: "string \<Rightarrow> kobj \<Rightarrow> string option" where
  "credential keyID s = map_of (dataOf s) keyID"

text \<open>\<open>lawful_credential\<close>: how a stored Secret \<open>x\<close> may differ from the one read, \<open>s\<close>.\<close>

definition lawful_credential ::
  "string \<Rightarrow> nat \<Rightarrow> misskey \<Rightarrow> (req \<times> resp) list \<Rightarrow> kobj \<Rightarrow> kobj \<Rightarrow> bool" where
  "lawful_credential keyID nbytes m tr s x \<longleftrightarrow>
     (if credential keyID s = None \<or> rotationRequested m s
      then \<exists>buf. (QRandom nbytes, RStr buf) \<in> set tr \<and> credential keyID x = Some (hexEncode buf)
      else credential keyID x = credential keyID s)"

locale generated_secret =
  fixes mutate :: "misskey \<Rightarrow> kobj \<Rightarrow> (error + kobj) io" and keyID :: string and nbytes :: nat
  assumes keeps: "runs (mutate m s) tr (Inr s') \<Longrightarrow> credential keyID s \<noteq> None \<Longrightarrow>
      \<not> rotationRequested m s \<Longrightarrow> tr = [] \<and> credential keyID s' = credential keyID s"
    and draws: "runs (mutate m s) tr (Inr s') \<Longrightarrow>
      credential keyID s = None \<or> rotationRequested m s \<Longrightarrow>
      \<exists>buf. tr = [(QRandom nbytes, RStr buf)] \<and> credential keyID s' = Some (hexEncode buf)"
    and frame: "runs (mutate m s) tr (Inr s') \<Longrightarrow>
      ko_kind s' = ko_kind s \<and> knamespace s' = knamespace s \<and> kname s' = kname s \<and>
      (\<forall>k. k \<noteq> keyID \<longrightarrow> credential k s' = credential k s)"
    and settles: "runs (mutate m s) tr (Inr s') \<Longrightarrow> \<not> rotationRequested m s'"
    and quiet: "calls quietStore (mutate m s)"
begin

lemma has_credential: "runs (mutate m s) tr (Inr s') \<Longrightarrow> credential keyID s' \<noteq> None"
  using keeps [of m s tr s'] draws [of m s tr s'] by fastforce

lemma lawful: "runs (mutate m s) tr (Inr s') \<Longrightarrow> lawful_credential keyID nbytes m tr s s'"
  unfolding lawful_credential_def using keeps [of m s tr s'] draws [of m s tr s'] by auto

text \<open>A second pass over what the first one stored changes nothing and draws nothing.\<close>

lemma stable:
  assumes "runs (mutate m s) tr (Inr s')" and "runs (mutate m s') tr' (Inr s'')"
  shows "tr' = [] \<and> credential keyID s'' = credential keyID s'"
  using keeps [OF assms(2) has_credential [OF assms(1)] settles [OF assms(1)]] .

text \<open>
  Through \<^verbatim>\<open>CreateOrUpdate\<close>: whatever Secret the server hands out, the one that is stored
  differs from it lawfully, and keeps its other keys and its name.
\<close>

lemma stored:
  assumes own: "stable_owner L"
    and run: "runs (applyObj L m obj (mutate m)) tr res"
    and st: "(QStore x, r) \<in> set tr"
  shows "\<exists>s. (QFetch obj, RObj s) \<in> set tr \<and> lawful_credential keyID nbytes m tr s x \<and> kname x = kname obj
      \<and> (\<forall>k. k \<noteq> keyID \<longrightarrow> credential k x = credential k s)"
proof -
  obtain s t new where s: "(QFetch obj, RObj s) \<in> set tr" "atKey (ko_kind obj) (knamespace obj) (kname obj) s" and g: "runs (mutate m s) t (Inr new)"
    and sub: "set t \<subseteq> set tr" and own': "l_setControllerReference L m new = Inr x"
    by (rule applyObj_stored [OF run st quiet])
  have x: "kname x = kname new" "ko_body x = ko_body new"
    using own own' unfolding stable_owner_def by blast+
  then have "credential k x = credential k new" for k
    by (simp add: credential_def dataOf_def)
  with s x lawful [OF g] sub frame [OF g] show ?thesis
    unfolding lawful_credential_def by (intro exI [of _ s]) (auto simp: atKey_def split: if_splits)
qed

end

subsection \<open>The four generated Secrets keep the contract\<close>

lemmas secret_run_simps = runs_chk_Inr runs_Ret_iff ret_def randomHex_def randRead_def runs_Call_iff Let_def

lemma rotationRequested_kept [simp]:
  "rotationRequested m (withLabels l s) = rotationRequested m s"
  "rotationRequested m (setBody b s) = rotationRequested m s"
  by (simp_all add: rotationRequested_def)

lemma dataOf_kept [simp]:
  "dataOf (withLabels l s) = dataOf s" "dataOf (setBody (BData d) s) = d"
  "dataOf (markRotation m s) = dataOf s"
  by (simp_all add: dataOf_def)

text \<open>
  The four closures are one schema in the component label, the key and the size of the draw;
  the contract is discharged once for the schema and the closures are its instances.
\<close>

definition secretSchema :: "string \<Rightarrow> string \<Rightarrow> nat \<Rightarrow> misskey \<Rightarrow> kobj \<Rightarrow> (error + kobj) io" where
  "secretSchema cmpt keyID nbytes m s0 =
     (let s = withLabels (labelsFor m cmpt) s0; d = dataOf s in
      chk (if map_of d keyID = None \<or> rotationRequested m s
           then chk (randomHex nbytes) (\<lambda>v. ret (setBody (BData (mset keyID v d)) s))
           else ret (setBody (BData d) s))
        (\<lambda>s1. ret (markRotation m s1)))"

lemma secretSchema_generated: "generated_secret (secretSchema cmpt keyID nbytes) keyID nbytes"
proof unfold_locales
  fix m s tr s'
  assume run: "runs (secretSchema cmpt keyID nbytes m s) tr (Inr s')"
  show "\<exists>buf. tr = [(QRandom nbytes, RStr buf)] \<and> credential keyID s' = Some (hexEncode buf)"
    if "credential keyID s = None \<or> rotationRequested m s"
    using run that by (auto simp: secretSchema_def secret_run_simps credential_def)
  show "tr = [] \<and> credential keyID s' = credential keyID s"
    if "credential keyID s \<noteq> None" "\<not> rotationRequested m s"
    using run that by (auto simp: secretSchema_def secret_run_simps credential_def)
  show "ko_kind s' = ko_kind s \<and> knamespace s' = knamespace s \<and> kname s' = kname s \<and>
      (\<forall>k. k \<noteq> keyID \<longrightarrow> credential k s' = credential k s)"
    using run by (auto simp: secretSchema_def secret_run_simps credential_def split: if_splits)
  show "\<not> rotationRequested m s'"
    using run by (auto simp: secretSchema_def secret_run_simps split: if_splits)
next
  fix m s
  show "calls quietStore (secretSchema cmpt keyID nbytes m s)"
    by (auto simp: secretSchema_def Let_def ret_def randomHex_def randRead_def quietStore_def
        intro!: calls_intros)
qed

lemma secret_closures:
  "setupSecretMutate = secretSchema ''setup'' setupPasswordID 16"
  "meiliSecretMutate = secretSchema ''meilisearch'' meiliMasterKeyID 32"
  "redisAuthSecretMutate = secretSchema ''redis'' ''password'' 24"
  "detectorSecretMutate = secretSchema sensitiveDetectorComponent sensitiveDetectorAPIKeyID 32"
  by (intro ext; simp add: secretSchema_def setupSecretMutate_def meiliSecretMutate_def
      redisAuthSecretMutate_def detectorSecretMutate_def)+

interpretation setup_secret: generated_secret setupSecretMutate setupPasswordID 16
  unfolding secret_closures by (rule secretSchema_generated)

interpretation meili_secret: generated_secret meiliSecretMutate meiliMasterKeyID 32
  unfolding secret_closures by (rule secretSchema_generated)

interpretation redis_secret: generated_secret redisAuthSecretMutate "''password''" 24
  unfolding secret_closures by (rule secretSchema_generated)

interpretation detector_secret: generated_secret detectorSecretMutate sensitiveDetectorAPIKeyID 32
  unfolding secret_closures by (rule secretSchema_generated)

end
