(* ===== verification/Detector.thy ===== *)
theory Detector
  imports ObjectStorage Secrets
begin

section \<open>Sensitive-media detector: settings in the meta row (sensitive\_detector.go)\<close>

text \<open>
  The detector's settings are written by a psql Job like the object storage's. A ConfigMap
  records that settings were ever written, so that switching the detector off can reset
  them; \<^verbatim>\<open>sensitiveDetectorConfigState\<close> caches its existence during one reconcile. The
  detector's own workload is in \<open>DetectorLife\<close>.
\<close>

subsection \<open>SQL, environment and hash\<close>

definition sqlSet :: "string \<Rightarrow> string \<Rightarrow> bool \<Rightarrow> string" where
  "sqlSet column v cont = ''  '' @ quoteGo column @ '' = '' @ v @ (if cont then '','' else []) @ nl"

definition sqlQuoted :: "string \<Rightarrow> string" where
  "sqlQuoted s = [CHR 0x27] @ s @ [CHR 0x27]"

definition getenvLine :: "string \<Rightarrow> string \<Rightarrow> string" where
  "getenvLine v e = [CHR 0x5C] @ ''getenv '' @ v @ '' '' @ e @ nl"

definition renderSensitiveDetectorConfigSQL :: "misskey \<Rightarrow> string" where
  "renderSensitiveDetectorConfigSQL m =
     ''-- Managed by cloudnative-misskey. Do not edit by hand.'' @ nl @
     [CHR 0x5C] @ ''set ON_ERROR_STOP on'' @ nl @
     (if sensitiveDetector (spec m) \<noteq> None then
        getenvLine ''sensitive_detector_mode'' ''SENSITIVE_DETECTOR_MODE'' @
        getenvLine ''sensitive_detector_sensitivity'' ''SENSITIVE_DETECTOR_SENSITIVITY'' @
        getenvLine ''sensitive_detector_url'' ''SENSITIVE_DETECTOR_URL'' @
        getenvLine ''sensitive_detector_key'' ''SENSITIVE_DETECTOR_API_KEY''
      else []) @
     ''INSERT INTO meta (id) VALUES ('' @ sqlQuoted metaRowID @ '') ON CONFLICT (id) DO NOTHING;'' @ nl @
     ''UPDATE meta SET'' @ nl @
     (case sensitiveDetector (spec m) of
        Some d \<Rightarrow>
          sqlSet ''sensitiveMediaDetection'' ('':'' @ sqlQuoted ''sensitive_detector_mode'') True @
          sqlSet ''sensitiveMediaDetectionSensitivity'' ('':'' @ sqlQuoted ''sensitive_detector_sensitivity'') True @
          sqlSet ''setSensitiveFlagAutomatically'' (formatBool (sd_setSensitiveFlagAutomatically d)) True @
          sqlSet ''enableSensitiveMediaDetectionForVideos'' (formatBool (sd_enableForVideos d)) True @
          sqlSet ''sensitiveMediaDetectionApiUrl'' ('':'' @ sqlQuoted ''sensitive_detector_url'') True @
          sqlSet ''sensitiveMediaDetectionApiKey'' ('':'' @ sqlQuoted ''sensitive_detector_key'') True @
          sqlSet ''sensitiveMediaDetectionTimeout'' (itoa (int32OrDefault (sd_timeoutMilliseconds d) 60000)) True @
          sqlSet ''sensitiveMediaDetectionMaxImagesPerRequest'' (itoa (int32OrDefault (sd_maxImagesPerRequest d) 4)) False
      | None \<Rightarrow>
          sqlSet ''sensitiveMediaDetection'' (sqlQuoted ''none'') True @
          sqlSet ''sensitiveMediaDetectionSensitivity'' (sqlQuoted ''medium'') True @
          sqlSet ''setSensitiveFlagAutomatically'' ''false'' True @
          sqlSet ''enableSensitiveMediaDetectionForVideos'' ''false'' True @
          sqlSet ''sensitiveMediaDetectionApiUrl'' ''NULL'' True @
          sqlSet ''sensitiveMediaDetectionApiKey'' ''NULL'' True @
          sqlSet ''sensitiveMediaDetectionTimeout'' ''60000'' True @
          sqlSet ''sensitiveMediaDetectionMaxImagesPerRequest'' ''4'' False) @
     ''WHERE id = '' @ sqlQuoted metaRowID @ '';'' @ nl"

definition sensitiveDetectorConfigJobEnv :: "misskey \<Rightarrow> plan \<Rightarrow> envVar list" where
  "sensitiveDetectorConfigJobEnv m p =
     (case sensitiveDetector (spec m) of
        None \<Rightarrow> []
      | Some d \<Rightarrow>
          [plainEnv ''SENSITIVE_DETECTOR_MODE'' (sd_mode d),
           plainEnv ''SENSITIVE_DETECTOR_SENSITIVITY'' (stringOr (sd_sensitivity d) ''medium''),
           plainEnv ''SENSITIVE_DETECTOR_URL'' (sensitiveDetectorURL p),
           secretEnv ''SENSITIVE_DETECTOR_API_KEY'' (sensitiveDetectorAPIKeySel p)])"

definition sensitiveDetectorConfigHash :: "misskey \<Rightarrow> plan \<Rightarrow> string \<Rightarrow> (error + string) io" where
  "sensitiveDetectorConfigHash m p sql =
     (let mp = migratePlan m p;
          head = [sql, dbHost mp, itoa (dbPort mp), dbName mp, dbUser mp, sel_name (dbPassSel mp), sel_key (dbPassSel mp)];
          pulls = itoa (int (length (imagePullSecrets (spec m)))) # imagePullSecrets (spec m) in
      chk (secretVersion (mnamespace m) (sel_name (dbPassSel mp))) (\<lambda>dbv.
        case sensitiveDetector (spec m) of
          None \<Rightarrow> Ret (Inr (hexEncode (sha256 (checksumInput (head @ [dbv] @ pulls)))))
        | Some d \<Rightarrow>
            chk (secretVersion (mnamespace m) (sel_name (sensitiveDetectorAPIKeySel p))) (\<lambda>v.
              Ret (Inr (hexEncode (sha256 (checksumInput (head @ [dbv] @ pulls @
                [sd_mode d, stringOr (sd_sensitivity d) ''medium'', sensitiveDetectorURL p,
                 sel_name (sensitiveDetectorAPIKeySel p), sel_key (sensitiveDetectorAPIKeySel p),
                 sensitiveDetectorConfigImage p, v]))))))))"

subsection \<open>The Job\<close>

definition buildSensitiveDetectorConfigJob :: "libs \<Rightarrow> misskey \<Rightarrow> plan \<Rightarrow> string \<Rightarrow> envVar list \<Rightarrow> kobj" where
  "buildSensitiveDetectorConfigJob L m p name env =
     newJob m name (labelsFor m ''sensitive-detector-config'') []
       (psqlPod L m ''sensitive-detector-config''
          (if sensitiveDetectorConfigImage p = [] then ''ghcr.io/cloudnative-pg/postgresql:17''
           else sensitiveDetectorConfigImage p)
          ''sensitive-detector.sql'' (nameSensitiveDetectorConfig m) (psqlEnv m p @ env))"

definition cleanupSensitiveDetectorConfigJobs :: "misskey \<Rightarrow> string \<Rightarrow> (error + unit) io" where
  "cleanupSensitiveDetectorConfigJobs m keep =
     chk (klist KJob (mnamespace m) (selectorFor m ''sensitive-detector-config'')) (\<lambda>jobs.
       forE jobs (\<lambda>j. if kname j = keep then Ret (Inr ()) else deleteBackground j))"

record sensitiveDetectorConfigState =
  ds_checked :: bool
  ds_exists :: bool
  ds_err :: "error option"

definition freshDetectorState :: sensitiveDetectorConfigState where
  "freshDetectorState = \<lparr>ds_checked = False, ds_exists = False, ds_err = None\<rparr>"

definition hasSensitiveDetectorConfigState :: "misskey \<Rightarrow> (error + bool) io" where
  "hasSensitiveDetectorConfigState m =
     bnd (kget KConfigMap (mnamespace m) (nameSensitiveDetectorConfig m)) (\<lambda>r. case r of
       Inr _ \<Rightarrow> Ret (Inr True)
     | Inl e \<Rightarrow> if isNotFound e then Ret (Inr False) else Ret (Inl e))"

definition readSensitiveDetectorConfigState ::
  "misskey \<Rightarrow> sensitiveDetectorConfigState \<Rightarrow> sensitiveDetectorConfigState io" where
  "readSensitiveDetectorConfigState m st =
     (if ds_checked st then Ret st
      else bnd (hasSensitiveDetectorConfigState m) (\<lambda>r. case r of
        Inr b \<Rightarrow> Ret \<lparr>ds_checked = True, ds_exists = b, ds_err = None\<rparr>
      | Inl e \<Rightarrow> Ret \<lparr>ds_checked = True, ds_exists = False, ds_err = Some e\<rparr>))"

definition detectorJobAbsent :: "libs \<Rightarrow> misskey \<Rightarrow> plan \<Rightarrow> string \<Rightarrow> (error + bool) io" where
  "detectorJobAbsent L m p jobName =
     chk (createOwned L m (buildSensitiveDetectorConfigJob L m p jobName (sensitiveDetectorConfigJobEnv m p))) (\<lambda>_.
       eventThen L EventNormal ''SensitiveDetectorConfiguring'' ''Configure''
         (''created Sensitive Detector meta Job '' @ jobName) (Ret (Inr False)))"

definition detectorJobFound :: "libs \<Rightarrow> kobj \<Rightarrow> (error + bool) io" where
  "detectorJobFound L j =
     (let job = jobOf j; done = Ret (Inr (job_statusSucceeded job \<ge> 1)) in
      if job_statusSucceeded job = 0 \<and> job_statusFailed job \<ge> 1 then
        eventThen L EventWarning ''SensitiveDetectorConfigFailed'' ''Configure''
          (''Sensitive Detector meta Job '' @ kname j @ '' failed ('' @ itoa (job_statusFailed job) @
           ''); delete the Job to retry'') done
      else done)"

text \<open>
  The part of \<^verbatim>\<open>reconcileSensitiveDetectorConfig\<close> that runs when there is something to
  write, in two halves: up to the ConfigMap (after which the state says that it exists), and
  the Job.
\<close>

definition detectorConfigPrepare :: "libs \<Rightarrow> misskey \<Rightarrow> plan \<Rightarrow> (error + string) io" where
  "detectorConfigPrepare L m p =
     (let sql = renderSensitiveDetectorConfigSQL m in
      chk (sensitiveDetectorConfigHash m p sql) (\<lambda>hash.
      let jobName = nameSensitiveDetectorConfigJob m hash in
      chk (cleanupSensitiveDetectorConfigJobs m jobName) (\<lambda>_.
      chk (applyObj L m (newObj KConfigMap (mnamespace m) (nameSensitiveDetectorConfig m)) (\<lambda>cm.
        ret (setBody (BData [(''sensitive-detector.sql'', sql), (''desired-hash'', hash),
               (''enabled'', formatBool (sensitiveDetector (spec m) \<noteq> None))])
             (withLabels (labelsFor m ''sensitive-detector-config'') cm)))) (\<lambda>_.
      Ret (Inr jobName)))))"

definition detectorConfigJob :: "libs \<Rightarrow> misskey \<Rightarrow> plan \<Rightarrow> string \<Rightarrow> (error + bool) io" where
  "detectorConfigJob L m p jobName =
     bnd (kget KJob (mnamespace m) jobName) (\<lambda>r. case r of
       Inl e \<Rightarrow> if isNotFound e then detectorJobAbsent L m p jobName else Ret (Inl e)
     | Inr j \<Rightarrow> detectorJobFound L j)"

text \<open>The state the caller passed by pointer is part of the result.\<close>

definition reconcileSensitiveDetectorConfig ::
  "libs \<Rightarrow> misskey \<Rightarrow> plan \<Rightarrow> sensitiveDetectorConfigState \<Rightarrow>
     (sensitiveDetectorConfigState \<times> (error + bool)) io" where
  "reconcileSensitiveDetectorConfig L m p st0 =
     bnd (readSensitiveDetectorConfigState m st0) (\<lambda>st.
       case ds_err st of
         Some e \<Rightarrow> Ret (st, Inl e)
       | None \<Rightarrow>
           if sensitiveDetector (spec m) = None \<and> \<not> ds_exists st then Ret (st, Inr True)
           else bnd (detectorConfigPrepare L m p) (\<lambda>r. case r of
             Inl e \<Rightarrow> Ret (st, Inl e)
           | Inr jobName \<Rightarrow> bnd (detectorConfigJob L m p jobName) (\<lambda>r. Ret (st\<lparr>ds_exists := True\<rparr>, r))))"

definition cleanupSensitiveDetectorConfigState :: "misskey \<Rightarrow> (error + unit) io" where
  "cleanupSensitiveDetectorConfigState m =
     chk (cleanupSensitiveDetectorConfigJobs m []) (\<lambda>_.
       deleteIfExists KConfigMap (mnamespace m) (nameSensitiveDetectorConfig m))"

definition sensitiveDetectorConfigComplete :: "misskey \<Rightarrow> bool io" where
  "sensitiveDetectorConfigComplete m =
     bnd (kget KConfigMap (mnamespace m) (nameSensitiveDetectorConfig m)) (\<lambda>r. case r of
       Inl _ \<Rightarrow> Ret False
     | Inr cm \<Rightarrow>
         let hash = mget (dataOf cm) ''desired-hash'' in
         if length hash < 10 then Ret False
         else bnd (kget KJob (mnamespace m) (nameSensitiveDetectorConfigJob m hash)) (\<lambda>r. case r of
           Inl _ \<Rightarrow> Ret False
         | Inr j \<Rightarrow> Ret (job_statusSucceeded (jobOf j) \<ge> 1)))"

subsection \<open>The Job step keeps the contract of a Job gate\<close>

definition isDetectorConfigJob :: "misskey \<Rightarrow> string \<Rightarrow> bool" where
  "isDetectorConfigJob m n \<longleftrightarrow> (\<exists>h. n = nameSensitiveDetectorConfigJob m h)"

definition detectorConfigApply :: "libs \<Rightarrow> misskey \<Rightarrow> plan \<Rightarrow> (error + bool) io" where
  "detectorConfigApply L m p = chk (detectorConfigPrepare L m p) (detectorConfigJob L m p)"

lemma detectorConfigPrepare_name:
  "runs (detectorConfigPrepare L m p) tr (Inr n) \<Longrightarrow> isDetectorConfigJob m n"
  unfolding detectorConfigPrepare_def Let_def runs_chk_Inr isDetectorConfigJob_def by auto

lemma detectorConfigJob_done:
  assumes "runs (detectorConfigJob L m p n) tr (Inr True)" "isDetectorConfigJob m n"
  shows "\<exists>e\<in>set tr. jobSeen m isDetectorConfigJob e"
proof -
  have no: "\<not> runs (detectorJobAbsent L m p n) t (Inr True)" for t
    by (auto simp: detectorJobAbsent_def runs_chk_Inr dest!: eventThen_runs)
  have yes: "job_statusSucceeded (jobOf j) \<ge> 1" if "runs (detectorJobFound L j) t (Inr True)" for j t
    using that by (auto simp: detectorJobFound_def Let_def split: if_splits dest!: eventThen_runs)
  from assms(1) obtain j t where "tr = (QGet KJob (mnamespace m) n, RObj j) # t"
    "atKey KJob (mnamespace m) n j" "runs (detectorJobFound L j) t (Inr True)"
    unfolding detectorConfigJob_def by (cases rule: runs_kget) (auto simp: no split: if_splits)
  with yes [of j t] assms(2) show ?thesis by (auto simp: jobSeen_def)
qed

lemma cleanupSensitiveDetectorConfigJobs_calls [calls_intros]:
  assumes "P (QList KJob (mnamespace m) (selectorFor m ''sensitive-detector-config''))"
    and "\<And>j. listed KJob (mnamespace m) (selectorFor m ''sensitive-detector-config'') j \<Longrightarrow> kname j \<noteq> keep \<Longrightarrow>
      P (QDelete KJob (knamespace j) (kname j) PropagationBackground)"
  shows "calls P (cleanupSensitiveDetectorConfigJobs m keep)"
  unfolding cleanupSensitiveDetectorConfigJobs_def
  using assms by (intro calls_intros) (auto simp: list_all_iff listed_def)

lemma sensitiveDetectorConfigHash_calls [calls_intros]:
  "(\<And>n. P (QGet KSecret (mnamespace m) n)) \<Longrightarrow> calls P (sensitiveDetectorConfigHash m p sql)"
  unfolding sensitiveDetectorConfigHash_def Let_def by (intro calls_intros) auto

lemma detectorConfigApply_foot:
  assumes "stable_owner L"
  shows "calls (\<lambda>q. \<forall>w. writes q = Some w \<longrightarrow> fst w \<in> {KJob, KConfigMap}) (detectorConfigApply L m p)"
  unfolding detectorConfigApply_def detectorConfigPrepare_def detectorConfigJob_def detectorJobAbsent_def
    detectorJobFound_def Let_def
  by (intro calls_intros)
     (auto simp: atKey_def buildSensitiveDetectorConfigJob_def dest: stable_ownerD [OF assms])

interpretation detector_gate:
  job_gate detectorConfigApply isDetectorConfigJob "\<lambda>m w. fst w \<in> {KJob, KConfigMap}"
proof unfold_locales
  show "\<exists>e\<in>set tr. jobSeen m isDetectorConfigJob e" if run: "runs (detectorConfigApply L m p) tr (Inr True)" for L m p tr
  proof -
    obtain t1 n t2 where "tr = t1 @ t2" "runs (detectorConfigPrepare L m p) t1 (Inr n)"
      "runs (detectorConfigJob L m p n) t2 (Inr True)"
      using run unfolding detectorConfigApply_def runs_chk_Inr by blast
    with detectorConfigJob_done [of L m p n t2] detectorConfigPrepare_name [of L m p t1 n] show ?thesis by auto
  qed
  show "calls (\<lambda>q. \<forall>w. writes q = Some w \<longrightarrow> fst w \<in> {KJob, KConfigMap}) (detectorConfigApply L m p)"
    if "stable_owner L" for L m p
    using detectorConfigApply_foot [OF that] .
qed

text \<open>With its state threaded through, the reconciler is that gate, except when nothing was ever written.\<close>

lemma reconcileSensitiveDetectorConfig_cases:
  assumes "runs (reconcileSensitiveDetectorConfig L m p st0) tr (st', res)"
  obtains (state_error) e where "res = Inl e" "\<forall>w. \<forall>(q, r)\<in>set tr. writes q \<noteq> Some w"
  | (never_written) "res = Inr True" "sensitiveDetector (spec m) = None" "\<not> ds_exists st'"
      "\<forall>w. \<forall>(q, r)\<in>set tr. writes q \<noteq> Some w"
  | (step) t1 t2 where "tr = t1 @ t2" "\<forall>w. \<forall>(q, r)\<in>set t1. writes q \<noteq> Some w"
      "runs (detectorConfigApply L m p) t2 res"
proof -
  obtain t1 st t2 where tr: "tr = t1 @ t2" and rd: "runs (readSensitiveDetectorConfigState m st0) t1 st"
    and k: "runs (case ds_err st of
         Some e \<Rightarrow> Ret (st, Inl e)
       | None \<Rightarrow>
           if sensitiveDetector (spec m) = None \<and> \<not> ds_exists st then Ret (st, Inr True)
           else bnd (detectorConfigPrepare L m p) (\<lambda>r. case r of
             Inl e \<Rightarrow> Ret (st, Inl e)
           | Inr jobName \<Rightarrow> bnd (detectorConfigJob L m p jobName) (\<lambda>r. Ret (st\<lparr>ds_exists := True\<rparr>, r)))) t2 (st', res)"
    using assms unfolding reconcileSensitiveDetectorConfig_def runs_bnd by blast
  have "calls (\<lambda>q. \<forall>w. writes q \<noteq> Some w) (readSensitiveDetectorConfigState m st0)"
    unfolding readSensitiveDetectorConfigState_def hasSensitiveDetectorConfigState_def by (intro calls_intros) auto
  then have quiet: "\<forall>w. \<forall>(q, r)\<in>set t1. writes q \<noteq> Some w" using calls_runs [OF _ rd] by fastforce
  show thesis
  proof (cases "ds_err st")
    case (Some e)
    with k tr quiet show thesis by (intro state_error) auto
  next
    case None
    show thesis
    proof (cases "sensitiveDetector (spec m) = None \<and> \<not> ds_exists st")
      case True
      with k None tr quiet show thesis by (intro never_written) auto
    next
      case False
      with k None have "runs (bnd (detectorConfigPrepare L m p) (\<lambda>r. case r of
             Inl e \<Rightarrow> Ret (st, Inl e)
           | Inr jobName \<Rightarrow> bnd (detectorConfigJob L m p jobName) (\<lambda>r. Ret (st\<lparr>ds_exists := True\<rparr>, r)))) t2 (st', res)"
        by simp
      then have "runs (detectorConfigApply L m p) t2 res"
        unfolding detectorConfigApply_def runs_bnd runs_chk by (force split: sum.splits simp: runs_bnd)
      with tr quiet show thesis by (intro step)
    qed
  qed
qed

end
