(* ===== verification/Workloads.thy ===== *)
theory Workloads
  imports Pod Autoscaling Detector
begin

section \<open>App and worker Deployments (workloads.go)\<close>

text \<open>
  The Deployment, PodDisruptionBudget, Service and autoscaler of the app and the worker, the
  checksum annotation that rolls their Pods, and what \<^verbatim>\<open>spec.suspend\<close> does to them. A
  closure that Go runs on an object it captured is a function from the object handed out by
  \<^verbatim>\<open>CreateOrUpdate\<close> to the object to store; fields the closure does not assign keep the
  stored value.
\<close>

subsection \<open>Shared closures\<close>

definition serviceOf :: "kobj \<Rightarrow> serviceSpec" where
  "serviceOf x = (case ko_body x of BService s \<Rightarrow> s | _ \<Rightarrow> \<lparr>svc_clusterIP = [], svc_selector = [], svc_ports = []\<rparr>)"

definition servicePortTo :: "string \<Rightarrow> int32 \<Rightarrow> int32 \<Rightarrow> servicePort" where
  "servicePortTo name port target = \<lparr>svp_name = name, svp_port = port, svp_targetPort = Some (FromInt target)\<rparr>"

definition setService :: "misskey \<Rightarrow> string \<Rightarrow> servicePort list \<Rightarrow> kobj \<Rightarrow> kobj" where
  "setService m component ports svc =
     setBody (BService ((serviceOf svc)\<lparr>svc_selector := selectorFor m component, svc_ports := ports\<rparr>))
       (withLabels (labelsFor m component) svc)"

definition reconcilePDB :: "libs \<Rightarrow> misskey \<Rightarrow> string \<Rightarrow> (error + unit) io" where
  "reconcilePDB L m component =
     applyObj L m (newObj KPodDisruptionBudget (mnamespace m) (mname m @ ''-'' @ component)) (\<lambda>pdb.
       ret (setBody (BPDB \<lparr>pdb_maxUnavailable = 1, pdb_selector = selectorFor m component\<rparr>)
         (withLabels (labelsFor m component) pdb)))"

definition rollingZeroDowntime :: deploymentStrategy where
  "rollingZeroDowntime = \<lparr>dst_type = ''RollingUpdate'', dst_maxUnavailable = 0, dst_maxSurge = 1\<rparr>"

definition setDeployment ::
  "misskey \<Rightarrow> string \<Rightarrow> int32 option \<Rightarrow> podSpec \<Rightarrow> strmap \<Rightarrow> kobj \<Rightarrow> kobj" where
  "setDeployment m component replicas pod annotations dep =
     (let d = deploymentOf dep in
      setBody (BDeployment (d\<lparr>
          dep_replicas := (case replicas of None \<Rightarrow> dep_replicas d | Some r \<Rightarrow> Some r),
          dep_strategy := Some rollingZeroDowntime,
          dep_selector := selectorFor m component,
          dep_templateLabels := labelsFor m component,
          dep_templateAnnotations := mmerge (dep_templateAnnotations d) annotations,
          dep_pod := pod\<rparr>))
        (withLabels (labelsFor m component) dep))"

subsection \<open>The checksum that rolls the Pods\<close>

definition misskeyChecksum :: "misskey \<Rightarrow> plan \<Rightarrow> (error + strmap) io" where
  "misskeyChecksum m p =
     chk (referencedSecretVersions m p) (\<lambda>versions.
     bnd (if objAutoConfigure p then
            (case objectStorageAssignments p of
               Inr assigns \<Rightarrow> bnd (objectStorageHash m p (renderObjectStorageSQL assigns) assigns) (\<lambda>h. Ret [h])
             | Inl _ \<Rightarrow> Ret [])
          else Ret []) (\<lambda>obj.
     chk (if sensitiveDetectorEnabled p then
            chk (sensitiveDetectorConfigHash m p (renderSensitiveDetectorConfigSQL m)) (\<lambda>h. Ret (Inr [h]))
          else Ret (Inr [])) (\<lambda>det.
     Ret (Inr (checksumAnnotation (renderDefaultYML m p # versions @ obj @ det))))))"

subsection \<open>App and worker\<close>

definition reconcileAppService :: "libs \<Rightarrow> misskey \<Rightarrow> (error + unit) io" where
  "reconcileAppService L m =
     applyObj L m (newObj KService (mnamespace m) (nameApp m)) (\<lambda>svc.
       ret (setService m roleApp [servicePortTo ''http'' misskeyPort misskeyPort] svc))"

definition staticReplicas :: "componentSpec \<Rightarrow> scaleConfig option \<Rightarrow> int32 option" where
  "staticReplicas co a = (if autoscalingEnabled a then None else replicasOr (co_replicas co) 1)"

definition resumeReplicas :: "componentSpec \<Rightarrow> scaleConfig option \<Rightarrow> kobj \<Rightarrow> int32 option" where
  "resumeReplicas co a dep =
     (case staticReplicas co a of
        Some r \<Rightarrow> Some r
      | None \<Rightarrow>
          if om_resourceVersion (ko_meta dep) = [] \<or> dep_replicas (deploymentOf dep) = None \<or>
             dep_replicas (deploymentOf dep) \<noteq> Some 0
          then None
          else (case a of Some s \<Rightarrow> replicasOr (as_minReplicas (sc_autoscaling s)) 1 | None \<Rightarrow> None))"

definition reconcileApp :: "libs \<Rightarrow> misskey \<Rightarrow> plan \<Rightarrow> (error + unit) io" where
  "reconcileApp L m p =
     (let sc = appScaleConfig (ap_autoscaling (app (spec m))); co = ap_component (app (spec m)) in
      chk (applyObj L m (newObj KDeployment (mnamespace m) (nameApp m)) (\<lambda>dep.
        chk (misskeyChecksum m p) (\<lambda>cs.
          ret (setDeployment m roleApp (resumeReplicas co sc dep) (buildMisskeyPodSpec L m p roleApp co) cs dep)))) (\<lambda>_.
      chk (reconcilePDB L m roleApp) (\<lambda>_.
      reconcileAutoscaler L m roleApp (nameApp m) sc p)))"

definition reconcileWorker :: "libs \<Rightarrow> misskey \<Rightarrow> plan \<Rightarrow> (error + unit) io" where
  "reconcileWorker L m p =
     (let sc = workerScaleConfig (wk_autoscaling (worker (spec m))); co = wk_component (worker (spec m)) in
      chk (applyObj L m (newObj KDeployment (mnamespace m) (nameWorker m)) (\<lambda>dep.
        chk (misskeyChecksum m p) (\<lambda>cs.
          ret (setDeployment m roleWorker (resumeReplicas co sc dep) (buildMisskeyPodSpec L m p roleWorker co) cs dep)))) (\<lambda>_.
      chk (reconcilePDB L m roleWorker) (\<lambda>_.
      reconcileAutoscaler L m roleWorker (nameWorker m) sc p)))"

subsection \<open>Suspending\<close>

definition scaledToZero :: "kobj \<Rightarrow> kobj" where
  "scaledToZero dep = setBody (BDeployment ((deploymentOf dep)\<lparr>dep_replicas := Some 0\<rparr>)) dep"

definition suspendWorkload :: "libs \<Rightarrow> misskey \<Rightarrow> string \<Rightarrow> (error + unit) io" where
  "suspendWorkload L m name =
     chk (deleteHPA m name) (\<lambda>_.
     chk (deleteScaledObject m name) (\<lambda>_.
     bnd (kget KDeployment (mnamespace m) name) (\<lambda>r. case r of
       Inl e \<Rightarrow> if isNotFound e then Ret (Inr ()) else Ret (Inl e)
     | Inr dep \<Rightarrow>
         if dep_replicas (deploymentOf dep) \<noteq> Some 0 then
           chk (kupdate (scaledToZero dep)) (\<lambda>_.
             eventThen L EventNormal ''Suspended'' ''Suspend'' (''scaled '' @ name @ '' to 0 replicas'') (Ret (Inr ())))
         else Ret (Inr ()))))"

definition suspendWorkloads :: "libs \<Rightarrow> misskey \<Rightarrow> plan \<Rightarrow> (error + unit) io" where
  "suspendWorkloads L m p =
     forE ([nameApp m, nameWorker m] @ (if sensitiveDetectorManaged p then [nameSensitiveDetector m] else []))
       (suspendWorkload L m)"

end
