(* ===== verification/Footprint.thy ===== *)
theory Footprint
  imports Workloads
begin

section \<open>Footprints: what each reconciler may write\<close>

text \<open>
  \<open>within m F q\<close> bounds one request: it writes nothing, or an object in the instance's own
  namespace whose kind and name satisfy \<open>F\<close>. Every reconciler gets a lemma with its exact
  footprint; the properties of the whole reconcile loop (confinement to the namespace, user
  Secrets left alone, Deployments rolled only behind their gates) are read off these lemmas.
\<close>

definition within :: "misskey \<Rightarrow> (kind \<Rightarrow> string \<Rightarrow> bool) \<Rightarrow> req \<Rightarrow> bool" where
  "within m F q \<longleftrightarrow> orderly q \<and> (\<forall>k ns n. writes q = Some (k, ns, n) \<longrightarrow> ns = mnamespace m \<and> F k n)"

named_theorems foot_intros

lemma within_read [simp]: "readOnly q \<Longrightarrow> within m F q"
  by (simp add: within_def readOnly_def)

lemma within_mono: "calls (within m F) p \<Longrightarrow> (\<And>k n. F k n \<Longrightarrow> G k n) \<Longrightarrow> calls (within m G) p"
  by (erule calls_mono) (auto simp: within_def)

lemma within_run:
  assumes "calls (within m F) p" "runs p tr a" "(q, r) \<in> set tr" "writes q = Some (k, ns, n)"
  shows "ns = mnamespace m \<and> F k n"
  using calls_runs [OF assms(1-3)] assms(4) by (simp add: within_def)

lemmas struct_intros = calls_kget calls_klist calls_bnd calls_chk calls_whenE calls_if calls_chks calls_forE
  calls_Ret calls_sum calls_option event_calls eventThen_calls kube_calls ret_calls

lemma applyObj_within [foot_intros]:
  assumes "stable_owner L" "knamespace obj = mnamespace m" "F (ko_kind obj) (kname obj)"
    and "\<And>s. atKey (ko_kind obj) (mnamespace m) (kname obj) s \<Longrightarrow> calls (within m F) (mutate s)"
    and "\<And>s t new. atKey (ko_kind obj) (mnamespace m) (kname obj) s \<Longrightarrow> runs (mutate s) t (Inr new) \<Longrightarrow>
      atKey (ko_kind obj) (mnamespace m) (kname obj) new"
  shows "calls (within m F) (applyObj L m obj mutate)"
proof (rule applyObj_calls)
  show "within m F (QStore x)" if "atKey (ko_kind obj) (knamespace obj) (kname obj) s"
    "runs (mutate s) t (Inr new)" "l_setControllerReference L m new = Inr x" for s t new x
    using assms(3) assms(5) [of s t new] that assms(2) stable_ownerD(1,2,3) [OF assms(1) that(3)]
    by (simp add: within_def atKey_def)
qed (use assms in auto)

lemma owned_within:
  "stable_owner L \<Longrightarrow> l_setControllerReference L m x = Inr y \<Longrightarrow>
     within m F (QApply y) = within m F (QApply x) \<and> within m F (QCreate y) = within m F (QCreate x)"
  using stable_ownerD(1-3) [of L m x y] by (simp add: within_def)

lemma applySSA_within [foot_intros]:
  assumes "stable_owner L" "knamespace obj = mnamespace m" "F (ko_kind obj) (kname obj)"
  shows "calls (within m F) (applySSA L m obj)"
  by (rule applySSA_calls) (use assms owned_within [OF assms(1)] in \<open>auto simp: within_def\<close>)

lemma createOwned_within [foot_intros]:
  assumes "stable_owner L" "knamespace obj = mnamespace m" "F (ko_kind obj) (kname obj)"
  shows "calls (within m F) (createOwned L m obj)"
  unfolding createOwned_def
  by (cases "l_setControllerReference L m obj")
     (use assms owned_within [OF assms(1)] in \<open>auto simp: kcreate_def within_def\<close>)

lemma deleteIfExists_within [foot_intros]:
  "F k n \<Longrightarrow> calls (within m F) (deleteIfExists k (mnamespace m) n)"
  by (rule deleteIfExists_calls) (simp add: within_def)

lemma deleteBackground_within [foot_intros]:
  "knamespace j = mnamespace m \<Longrightarrow> F (ko_kind j) (kname j) \<Longrightarrow> calls (within m F) (deleteBackground j)"
  by (rule deleteBackground_calls) (simp add: within_def)

text \<open>Reading the Misskey itself, and retrying on conflicts.\<close>

lemma asMisskey_meta: "asMisskey x = Inr m \<Longrightarrow> mk_meta m = ko_meta x"
  by (auto simp: asMisskey_def split: body.splits)

lemma runs_getMisskey:
  "runs (getMisskey ns n) t (Inr m) \<Longrightarrow> mnamespace m = ns \<and> mname m = n"
  by (auto simp: getMisskey_def runs_chk_Inr kget_def runs_Call_iff atKey_def dest!: asMisskey_meta [OF sym])

lemma calls_getMisskey:
  assumes "P (QGet KMisskey ns n)"
    and "\<And>m. mnamespace m = ns \<Longrightarrow> mname m = n \<Longrightarrow> calls P (f m)"
  shows "calls P (chk (getMisskey ns n) f)"
proof -
  have "calls P (getMisskey ns n)" unfolding getMisskey_def by (intro struct_intros) (use assms in auto)
  then show ?thesis using assms(2) by (rule calls_chk_runs) (auto dest: runs_getMisskey)
qed

lemma calls_retryOnConflict: "calls P f \<Longrightarrow> calls P (retryOnConflict n f)"
  by (induction n) (auto intro!: struct_intros)

lemma retryOnConflict_success:
  "runs (retryOnConflict n f) tr (Inr a) \<Longrightarrow> \<exists>t. runs f t (Inr a) \<and> set t \<subseteq> set tr"
proof (induction n arbitrary: tr)
  case (Suc n)
  then obtain t1 x t2 where tr: "tr = t1 @ t2" and x: "runs f t1 x"
    and k: "runs (case x of Inl e \<Rightarrow> if isConflict e then retryOnConflict n f else Ret (Inl e)
                          | Inr a \<Rightarrow> Ret (Inr a)) t2 (Inr a)"
    by (auto simp: runs_bnd)
  show ?case
  proof (cases x)
    case (Inl e)
    with k have "runs (retryOnConflict n f) t2 (Inr a)" by (auto split: if_splits)
    from Suc.IH [OF this] tr show ?thesis by auto
  next
    case (Inr b)
    with k x tr show ?thesis by auto
  qed
qed auto

lemma guarded_kget:
  assumes "\<And>r. \<not> W (QGet k ns n, r)" "\<And>e. guarded W G (f (Inl e))"
    and "\<And>x. atKey k ns n x \<Longrightarrow> G (QGet k ns n, RObj x) \<or> guarded W G (f (Inr x))"
  shows "guarded W G (bnd (kget k ns n) f)"
  unfolding guarded_def
proof (intro allI impI)
  fix tr a
  assume "runs (bnd (kget k ns n) f) tr a"
  then show "gated W G tr"
  proof (cases rule: runs_kget)
    case (err r e t)
    with assms(1) guardedD [OF assms(2)] show ?thesis by auto
  next
    case (ok x t)
    with assms(1) assms(3) [OF ok(2)] show ?thesis by (auto dest: guardedD)
  qed
qed

lemma atKey_edits [simp]:
  "atKey k ns n (setBody b x) = atKey k ns n x" "atKey k ns n (withLabels l x) = atKey k ns n x"
  "atKey k ns n (withAnnotations l x) = atKey k ns n x"
  by (simp_all add: atKey_def)

lemma set_edits [simp]:
  "atKey k ns n (setService m c ps x) = atKey k ns n x"
  "atKey k ns n (setDeployment m c r pod an x) = atKey k ns n x"
  "ko_kind (setDeployment m c r pod an x) = ko_kind x" "kname (setDeployment m c r pod an x) = kname x"
  by (simp_all add: setService_def setDeployment_def Let_def)

lemma atKey_markRotation [simp]: "atKey k ns n (markRotation m x) = atKey k ns n x"
  by (simp add: markRotation_def Let_def)

subsection \<open>Generated Secrets\<close>

lemma secret_mutate_within:
  "calls (within m F) (setupSecretMutate m' s)" "calls (within m F) (meiliSecretMutate m' s)"
  "calls (within m F) (redisAuthSecretMutate m' s)" "calls (within m F) (detectorSecretMutate m' s)"
  unfolding setupSecretMutate_def meiliSecretMutate_def redisAuthSecretMutate_def detectorSecretMutate_def
    randomHex_def Let_def ret_def by (intro calls_intros; simp)+

lemma secret_mutate_key:
  "runs (setupSecretMutate m s) t (Inr new) \<Longrightarrow> atKey k ns n s \<Longrightarrow> atKey k ns n new"
  "runs (meiliSecretMutate m s) t (Inr new) \<Longrightarrow> atKey k ns n s \<Longrightarrow> atKey k ns n new"
  "runs (redisAuthSecretMutate m s) t (Inr new) \<Longrightarrow> atKey k ns n s \<Longrightarrow> atKey k ns n new"
  "runs (detectorSecretMutate m s) t (Inr new) \<Longrightarrow> atKey k ns n s \<Longrightarrow> atKey k ns n new"
  unfolding setupSecretMutate_def meiliSecretMutate_def redisAuthSecretMutate_def detectorSecretMutate_def
    Let_def runs_chk_Inr by (auto simp: runs_chk_Inr split: if_splits)

definition generatedSecret :: "misskey \<Rightarrow> kind \<Rightarrow> string \<Rightarrow> bool" where
  "generatedSecret m k n \<longleftrightarrow>
     k = KSecret \<and> n \<in> {nameSetup m, nameMeili m, nameRedisAuthSecret m, nameSensitiveDetector m}"

lemma secrets_within [foot_intros]:
  assumes "stable_owner L"
  shows "calls (within m (generatedSecret m)) (reconcileSetupSecret L m)"
    "calls (within m (generatedSecret m)) (reconcileMeiliSecret L m)"
    "calls (within m (generatedSecret m)) (reconcileRedisAuthSecret L m)"
    "calls (within m (generatedSecret m)) (reconcileSensitiveDetectorSecret L m)"
  unfolding reconcileSetupSecret_def reconcileMeiliSecret_def reconcileRedisAuthSecret_def
    reconcileSensitiveDetectorSecret_def
  by (auto intro!: applyObj_within [OF assms] struct_intros secret_mutate_within split: option.splits
      simp: generatedSecret_def elim: secret_mutate_key)

subsection \<open>Config maps, migration, object storage and detector settings\<close>

lemma reconcileConfigMaps_within [foot_intros]:
  assumes "stable_owner L"
  shows "calls (within m (\<lambda>k n. k = KConfigMap)) (reconcileConfigMaps L m p)"
  unfolding reconcileConfigMaps_def Let_def
  by (intro struct_intros applyObj_within [OF assms] deleteIfExists_within) auto

lemma reconcileMigration_within [foot_intros]:
  assumes "stable_owner L" "mnamespace m \<noteq> []"
  shows "calls (within m (\<lambda>k n. k = KJob)) (reconcileMigration L m p)"
  unfolding reconcileMigration_def migrationJobStep_def migrationJobAbsent_def migrationJobFound_def Let_def
  by (intro struct_intros cleanupOldMigrationJobs_calls createOwned_within [OF assms(1)] deleteBackground_within
      migrationChecksum_calls)
     (use assms in \<open>auto simp: within_def listed_def atKey_def\<close>)

lemma reconcileObjectStorage_within [foot_intros]:
  assumes "stable_owner L" "mnamespace m \<noteq> []"
  shows "calls (within m (\<lambda>k n. k \<in> {KJob, KConfigMap})) (reconcileObjectStorage L m p)"
  unfolding reconcileObjectStorage_def objectStorageApply_def objectStorageJobAbsent_def objectStorageJobFound_def Let_def
  by (intro struct_intros cleanupObjectStorageJobs_calls createOwned_within [OF assms(1)] applyObj_within [OF assms(1)] objectStorageHash_calls)
     (use assms in \<open>auto simp: within_def listed_def buildObjectStorageJob_def\<close>)

lemma cleanupObjectStorage_within [foot_intros]:
  assumes "mnamespace m \<noteq> []"
  shows "calls (within m (\<lambda>k n. k \<in> {KJob, KConfigMap})) (cleanupObjectStorage m)"
  unfolding cleanupObjectStorage_def
  by (intro struct_intros cleanupObjectStorageJobs_calls deleteIfExists_within)
     (use assms in \<open>auto simp: within_def listed_def\<close>)

lemma preBackup_within [foot_intros]:
  assumes "stable_owner L" "mnamespace m \<noteq> []"
  shows "calls (within m (\<lambda>k n. k = KCnpgBackup)) (reconcilePreMigrationBackup L m p)"
  unfolding reconcilePreMigrationBackup_def cleanupOldPreMigrationBackups_def preBackupStep_def Let_def
  by (intro struct_intros createOwned_within [OF assms(1)])
     (use assms in \<open>auto simp: within_def listed_def list_all_iff buildPreMigrationBackup_def split: sum.splits intro!: struct_intros deleteBackground_within\<close>)

lemma detectorConfig_within [foot_intros]:
  assumes "stable_owner L" "mnamespace m \<noteq> []"
  shows "calls (within m (\<lambda>k n. k \<in> {KJob, KConfigMap})) (reconcileSensitiveDetectorConfig L m p st)"
  unfolding reconcileSensitiveDetectorConfig_def readSensitiveDetectorConfigState_def hasSensitiveDetectorConfigState_def
    detectorConfigPrepare_def detectorConfigJob_def detectorJobAbsent_def detectorJobFound_def Let_def
  by (intro struct_intros cleanupSensitiveDetectorConfigJobs_calls sensitiveDetectorConfigHash_calls
      createOwned_within [OF assms(1)] applyObj_within [OF assms(1)])
     (use assms in \<open>auto simp: within_def listed_def buildSensitiveDetectorConfigJob_def\<close>)

subsection \<open>Autoscalers, app and worker\<close>

definition autoscalerKinds :: "kind set" where
  "autoscalerKinds = {KHorizontalPodAutoscaler, KScaledObject, KTriggerAuthentication}"

lemma build_keys [simp]:
  "ko_kind (buildTriggerAuth m t ep sel) = KTriggerAuthentication" "knamespace (buildTriggerAuth m t ep sel) = mnamespace m"
  "ko_kind (buildScaledObject m c t a ep) = KScaledObject" "knamespace (buildScaledObject m c t a ep) = mnamespace m"
  "kname (buildScaledObject m c t a ep) = t"
  by (simp_all add: buildTriggerAuth_def buildScaledObject_def Let_def)

lemma autoscaler_within [foot_intros]:
  assumes "stable_owner L"
  shows "calls (within m (\<lambda>k n. k \<in> autoscalerKinds)) (reconcileAutoscaler L m c t a p)"
  unfolding reconcileAutoscaler_def reconcileScaledObject_def deleteHPA_def deleteScaledObject_def deleteTriggerAuth_def Let_def
  by (intro struct_intros applySSA_within [OF assms] applyObj_within [OF assms] deleteIfExists_within)
     (auto simp: autoscalerKinds_def)

lemma misskeyChecksum_calls [calls_intros]:
  assumes "\<And>n. P (QGet KSecret (mnamespace m) n)"
  shows "calls P (misskeyChecksum m p)"
  unfolding misskeyChecksum_def
  by (intro struct_intros objectStorageHash_calls sensitiveDetectorConfigHash_calls referencedSecretVersions_calls) (use assms in auto)

definition workloadOf :: "misskey \<Rightarrow> string \<Rightarrow> kind \<Rightarrow> string \<Rightarrow> bool" where
  "workloadOf m name k n \<longleftrightarrow> k = KDeployment \<and> n = name \<or> k = KPodDisruptionBudget \<or> k \<in> autoscalerKinds"

lemma reconcilePDB_within [foot_intros]:
  "stable_owner L \<Longrightarrow> F KPodDisruptionBudget (mname m @ ''-'' @ c) \<Longrightarrow> calls (within m F) (reconcilePDB L m c)"
  unfolding reconcilePDB_def by (intro applyObj_within struct_intros) auto

lemma app_within [foot_intros]:
  assumes "stable_owner L"
  shows "calls (within m (workloadOf m (nameApp m))) (reconcileApp L m p)"
    and "calls (within m (workloadOf m (nameWorker m))) (reconcileWorker L m p)"
  unfolding reconcileApp_def reconcileWorker_def Let_def
  by (intro struct_intros applyObj_within [OF assms] reconcilePDB_within [OF assms]
      within_mono [OF autoscaler_within [OF assms]] misskeyChecksum_calls;
      auto simp: workloadOf_def runs_chk_Inr)+

lemma appService_within [foot_intros]:
  "stable_owner L \<Longrightarrow> calls (within m (\<lambda>k n. k = KService \<and> n = nameApp m)) (reconcileAppService L m)"
  unfolding reconcileAppService_def by (intro applyObj_within struct_intros) auto

lemma suspend_within [foot_intros]:
  "calls (within m (\<lambda>k n. k \<in> insert KDeployment autoscalerKinds)) (suspendWorkloads L m p)"
  unfolding suspendWorkloads_def suspendWorkload_def deleteHPA_def deleteScaledObject_def deleteTriggerAuth_def
  by (intro struct_intros deleteIfExists_within)
     (auto simp: autoscalerKinds_def within_def scaledToZero_def atKey_def)

end
