(* ===== verification/Stateful.thy ===== *)
theory Stateful
  imports Footprint
begin

section \<open>StatefulSets and their volumes (statefulset.go, meilisearch.go, monitoring.go)\<close>

text \<open>
  \<^verbatim>\<open>applyStatefulSet\<close> works around immutable volume claim templates: a changed template is
  applied by deleting the StatefulSet with orphan propagation (Pods and volumes stay) and
  creating it again, after growing the existing claims. The properties say that no volume
  claim is ever deleted or shrunk and that a StatefulSet is deleted in no other way and for
  no other reason. MeiliSearch, the first client, is in the last sections, with the parts of
  monitoring that the stateful Pods use.
\<close>

subsection \<open>Volume claims\<close>

definition derefString :: "string option \<Rightarrow> string" where
  "derefString p = (case p of Some s \<Rightarrow> s | None \<Rightarrow> [])"

definition storageRequest :: "volumeClaim \<Rightarrow> quantity" where
  "storageRequest c = (case vc_storage c of Some q \<Rightarrow> q | None \<Rightarrow> 0)"

definition claimDiffers :: "volumeClaim \<Rightarrow> volumeClaim \<Rightarrow> bool" where
  "claimDiffers c d \<longleftrightarrow> vc_name c \<noteq> vc_name d \<or>
     derefString (vc_storageClass c) \<noteq> derefString (vc_storageClass d) \<or> storageRequest c \<noteq> storageRequest d"

definition volumeClaimTemplatesChanged :: "volumeClaim list \<Rightarrow> volumeClaim list \<Rightarrow> bool" where
  "volumeClaimTemplatesChanged current desired \<longleftrightarrow>
     length current \<noteq> length desired \<or> list_ex (\<lambda>(c, d). claimDiffers c d) (zip current desired)"

definition claimOf :: "kobj \<Rightarrow> volumeClaim" where
  "claimOf x = (case ko_body x of BClaim c \<Rightarrow> c
     | _ \<Rightarrow> \<lparr>vc_name = [], vc_accessModes = [], vc_storageClass = None, vc_storage = None\<rparr>)"

text \<open>
  The API server rejects a claim without a storage request, so the map the source assigns
  into is never nil.
\<close>

definition grownClaim :: "quantity \<Rightarrow> kobj \<Rightarrow> kobj" where
  "grownClaim want pvc = setBody (BClaim ((claimOf pvc)\<lparr>vc_storage := Some want\<rparr>)) pvc"

definition expandClaim :: "libs \<Rightarrow> misskey \<Rightarrow> kobj \<Rightarrow> volumeClaim \<Rightarrow> quantity \<Rightarrow> nat \<Rightarrow> unit io" where
  "expandClaim L m sts tpl want i =
     (let name = vc_name tpl @ ''-'' @ kname sts @ ''-'' @ itoa (int i) in
      bnd (kget KPersistentVolumeClaim (knamespace sts) name) (\<lambda>r. case r of
        Inl _ \<Rightarrow> Ret ()
      | Inr pvc \<Rightarrow>
          if want \<le> storageRequest (claimOf pvc) then Ret ()
          else bnd (kupdate (grownClaim want pvc)) (\<lambda>r. case r of
            Inr _ \<Rightarrow> Ret ()
          | Inl e \<Rightarrow> event L EventWarning ''PVCExpandFailed'' ''ApplyStatefulSet''
              (''failed to expand PVC '' @ name @ '' to '' @ l_quantityString L want @ '': '' @ errText e))))"

definition eachIO :: "'x list \<Rightarrow> ('x \<Rightarrow> unit io) \<Rightarrow> unit io" where
  "eachIO xs f = bnd (mapIO f xs) (\<lambda>_. Ret ())"

definition expandStatefulSetPVCs :: "libs \<Rightarrow> misskey \<Rightarrow> kobj \<Rightarrow> volumeClaim list \<Rightarrow> unit io" where
  "expandStatefulSetPVCs L m sts desired =
     (let replicas = (case sts_replicas (statefulSetOf sts) of Some r \<Rightarrow> r | None \<Rightarrow> 1) in
      eachIO desired (\<lambda>tpl. case vc_storage tpl of
        None \<Rightarrow> Ret ()
      | Some want \<Rightarrow> eachIO [0..<nat replicas] (expandClaim L m sts tpl want)))"

subsection \<open>Applying a StatefulSet\<close>

text \<open>
  \<^verbatim>\<open>wait.PollUntilContextTimeout\<close>: the condition is tried until it holds or the time is up;
  \<open>l_pollSteps\<close> is the number of tries that fit into the time-out.
\<close>

fun pollGone :: "nat \<Rightarrow> kind \<Rightarrow> string \<Rightarrow> string \<Rightarrow> bool io" where
  "pollGone 0 k ns n = Ret False"
| "pollGone (Suc i) k ns n = bnd (kget k ns n) (\<lambda>r. case r of
     Inl e \<Rightarrow> if isNotFound e then Ret True else pollGone i k ns n
   | Inr _ \<Rightarrow> pollGone i k ns n)"

definition stillTerminating :: "string \<Rightarrow> error" where
  "stillTerminating n = ErrMsg (''statefulset '' @ n @ '' is terminating, waiting to recreate'')"

definition recreateStatefulSet ::
  "libs \<Rightarrow> misskey \<Rightarrow> kobj \<Rightarrow> kobj \<Rightarrow> volumeClaim list \<Rightarrow> (error + unit) io" where
  "recreateStatefulSet L m sts existing desired =
     bnd (expandStatefulSetPVCs L m existing desired) (\<lambda>_.
     chk (bnd (kdelete KStatefulSet (knamespace existing) (kname existing) PropagationOrphan) (\<lambda>r. case r of
            Inl e \<Rightarrow> if isNotFound e then Ret (Inr ()) else Ret (Inl e)
          | Inr _ \<Rightarrow> Ret (Inr ()))) (\<lambda>_.
     eventThen L EventNormal ''StatefulSetRecreated'' ''ApplyStatefulSet''
       (''recreating StatefulSet '' @ kname sts @ '' to apply volume claim changes (pods and PVCs are retained)'')
       (bnd (pollGone (l_pollSteps L) KStatefulSet (knamespace sts) (kname sts)) (\<lambda>b.
          if b then Ret (Inr ()) else Ret (Inl (stillTerminating (kname sts)))))))"

definition applyStatefulSet ::
  "libs \<Rightarrow> misskey \<Rightarrow> kobj \<Rightarrow> (kobj \<Rightarrow> (error + kobj) io) \<Rightarrow> (error + unit) io" where
  "applyStatefulSet L m obj mutate =
     chk (mutate obj) (\<lambda>sts.
     (let desired = sts_volumeClaims (statefulSetOf sts) in
      bnd (kget KStatefulSet (knamespace sts) (kname sts)) (\<lambda>r. case r of
        Inl e \<Rightarrow> if isNotFound e then applyObj L m sts mutate else Ret (Inl e)
      | Inr existing \<Rightarrow>
          if om_deletionTimestamp (ko_meta existing) \<noteq> None then Ret (Inl (stillTerminating (kname sts)))
          else chk (if volumeClaimTemplatesChanged (sts_volumeClaims (statefulSetOf existing)) desired
                    then recreateStatefulSet L m sts existing desired else Ret (Inr ())) (\<lambda>_.
                 applyObj L m sts mutate))))"

subsection \<open>Monitoring switches the stateful Pods read\<close>

definition redisExporterPort :: int32 where "redisExporterPort = 9121"

definition monitoringEnabled :: "misskey \<Rightarrow> bool" where
  "monitoringEnabled m = boolOr (mo_enabled (monitoring (spec m))) False"

definition monitoringInterval :: "misskey \<Rightarrow> string" where
  "monitoringInterval m = stringOr (mo_interval (monitoring (spec m))) ''30s''"

definition redisExporterContainer :: "libs \<Rightarrow> misskey \<Rightarrow> container" where
  "redisExporterContainer L m = zeroContainer\<lparr>
     c_name := ''metrics'',
     c_image := stringOr (mo_redisExporterImage (monitoring (spec m))) ''oliver006/redis_exporter:v1.62.0-alpine'',
     c_env := [plainEnv ''REDIS_ADDR'' (''redis://localhost:'' @ itoa redisPort),
               secretEnv ''REDIS_PASSWORD'' (redisAuthSecretKeySelector m)],
     c_ports := [\<lparr>cp_name = ''metrics'', cp_port = redisExporterPort\<rparr>],
     c_securityContext := Some restrictedContainerSecurityContext,
     c_resources := resourcesOr L noResources ''10m'' ''16Mi'' ''64Mi''\<rparr>"

subsection \<open>MeiliSearch\<close>

definition dataClaim :: "string option \<Rightarrow> quantity \<Rightarrow> volumeClaim" where
  "dataClaim cls q = \<lparr>vc_name = ''data'', vc_accessModes = [''ReadWriteOnce''], vc_storageClass = cls, vc_storage = Some q\<rparr>"

definition setStatefulSet ::
  "misskey \<Rightarrow> string \<Rightarrow> string \<Rightarrow> strmap \<Rightarrow> podSpec \<Rightarrow> volumeClaim list \<Rightarrow> kobj \<Rightarrow> kobj" where
  "setStatefulSet m component name annotations pod claims sts =
     setBody (BStatefulSet ((statefulSetOf sts)\<lparr>
         sts_serviceName := name, sts_replicas := Some 1, sts_selector := selectorFor m component,
         sts_templateLabels := labelsFor m component, sts_templateAnnotations := annotations,
         sts_pod := pod, sts_volumeClaims := claims\<rparr>))
       (withLabels (labelsFor m component) sts)"

definition meiliProbe :: "int32 \<Rightarrow> int32 \<Rightarrow> probe" where
  "meiliProbe delay period = \<lparr>pr_handler = HTTPGetProbe ''/health'' (FromInt meiliPort),
     pr_initialDelay = delay, pr_period = period, pr_timeout = 0, pr_failure = 0\<rparr>"

definition buildMeiliPodSpec :: "libs \<Rightarrow> misskey \<Rightarrow> plan \<Rightarrow> podSpec" where
  "buildMeiliPodSpec L m p =
     (let ms = se_meilisearch (search (spec m)) in
      zeroPodSpec\<lparr>
        ps_automountServiceAccountToken := Some False,
        ps_securityContext := Some (nonRootPodSecurityContext genericNonRootUID),
        ps_volumes := [tmpVolume],
        ps_containers := [zeroContainer\<lparr>
          c_name := ''meilisearch'', c_image := stringOr (ms_image ms) ''getmeili/meilisearch:v1'',
          c_securityContext := Some restrictedContainerSecurityContext,
          c_resources := resourcesOr L (ms_resources ms) ''100m'' ''256Mi'' ''1Gi'',
          c_env := [secretEnv ''MEILI_MASTER_KEY'' (meiliKeySel p), plainEnv ''MEILI_ENV'' ''production'',
                    plainEnv ''MEILI_NO_ANALYTICS'' ''true'', plainEnv ''MEILI_DB_PATH'' ''/meili_data''] @
                   (if monitoringEnabled m then [plainEnv ''MEILI_EXPERIMENTAL_ENABLE_METRICS'' ''true''] else []),
          c_ports := [\<lparr>cp_name = [], cp_port = meiliPort\<rparr>],
          c_readinessProbe := Some (meiliProbe 5 10), c_livenessProbe := Some (meiliProbe 15 20),
          c_volumeMounts := [\<lparr>vm_name = ''data'', vm_mountPath = ''/meili_data'', vm_subPath = ''data'', vm_readOnly = False\<rparr>,
                             tmpMount]\<rparr>]\<rparr>)"

definition meiliMutate :: "libs \<Rightarrow> misskey \<Rightarrow> plan \<Rightarrow> kobj \<Rightarrow> (error + kobj) io" where
  "meiliMutate L m p sts =
     (let ms = se_meilisearch (search (spec m)) in
      chk (secretVersion (mnamespace m) (sel_name (meiliKeySel p))) (\<lambda>ver.
        ret (setStatefulSet m ''meilisearch'' (nameMeili m) (checksumAnnotation [ver]) (buildMeiliPodSpec L m p)
          [dataClaim (ms_storageClassName ms) (quantityOr L (ms_storage ms) ''10Gi'')] sts)))"

definition reconcileMeilisearch :: "libs \<Rightarrow> misskey \<Rightarrow> plan \<Rightarrow> (error + unit) io" where
  "reconcileMeilisearch L m p =
     chk (applyObj L m (newObj KService (mnamespace m) (nameMeili m)) (\<lambda>svc.
       ret (setService m ''meilisearch'' [servicePortTo ''http'' meiliPort meiliPort] svc))) (\<lambda>_.
     applyStatefulSet L m (newObj KStatefulSet (mnamespace m) (nameMeili m)) (meiliMutate L m p))"

subsection \<open>Where a request of a loop comes from\<close>

lemma mapIO_origin:
  assumes "runs (mapIO f xs) tr ys" "e \<in> set tr"
  shows "\<exists>x\<in>set xs. \<exists>t a. runs (f x) t a \<and> e \<in> set t \<and> set t \<subseteq> set tr"
  using assms
proof (induction xs arbitrary: tr ys)
  case (Cons x xs)
  then obtain t1 a t2 zs where tr: "tr = t1 @ t2" and x: "runs (f x) t1 a" and xs: "runs (mapIO f xs) t2 zs"
    by (auto simp: runs_bnd)
  show ?case
  proof (cases "e \<in> set t1")
    case True
    with x tr show ?thesis by auto
  next
    case False
    with Cons.prems(2) tr have "e \<in> set t2" by simp
    from Cons.IH [OF xs this] obtain y t a where "y \<in> set xs" "runs (f y) t a" "e \<in> set t" "set t \<subseteq> set t2"
      by blast
    with tr show ?thesis by (intro bexI [of _ y]) auto
  qed
qed simp

lemma eachIO_origin:
  assumes "runs (eachIO xs f) tr u" "e \<in> set tr"
  obtains x t a where "x \<in> set xs" "runs (f x) t a" "e \<in> set t" "set t \<subseteq> set tr"
  using assms mapIO_origin unfolding eachIO_def runs_bnd by (metis append_Nil2 runs_Ret_iff)

lemma eachIO_calls: "(\<And>x. x \<in> set xs \<Longrightarrow> calls P (f x)) \<Longrightarrow> calls P (eachIO xs f)"
  unfolding eachIO_def by (intro calls_bnd mapIO_calls) auto

lemma expandClaim_update:
  assumes "runs (expandClaim L m sts tpl want i) tr u" "(QUpdate x, r) \<in> set tr"
  obtains pvc where "(QGet KPersistentVolumeClaim (knamespace sts) (kname x), RObj pvc) \<in> set tr"
    "atKey KPersistentVolumeClaim (knamespace sts) (kname x) pvc"
    "x = grownClaim want pvc" "storageRequest (claimOf pvc) < want"
  using assms(1) unfolding expandClaim_def Let_def
proof (cases rule: runs_kget)
  case (err r e t)
  with assms(2) show thesis by simp
next
  case (ok pvc t)
  have "calls (\<lambda>q. \<forall>y. q = QUpdate y \<longrightarrow> \<not> want \<le> storageRequest (claimOf pvc) \<and> y = grownClaim want pvc)
      (if want \<le> storageRequest (claimOf pvc) then Ret ()
       else bnd (kupdate (grownClaim want pvc)) (\<lambda>r. case r of
            Inr _ \<Rightarrow> Ret ()
          | Inl e \<Rightarrow> event L EventWarning ''PVCExpandFailed'' ''ApplyStatefulSet''
              (''failed to expand PVC '' @ (vc_name tpl @ ''-'' @ kname sts @ ''-'' @ itoa (int i)) @ '' to '' @
               l_quantityString L want @ '': '' @ errText e)))"
    by (intro struct_intros) auto
  from calls_runs [OF this ok(3) [unfolded sum.case], of "QUpdate x" r] assms(2) ok(1)
  have "\<not> want \<le> storageRequest (claimOf pvc)" "x = grownClaim want pvc" by auto
  moreover have "kname x = kname pvc" using calculation(2) by (simp add: grownClaim_def)
  ultimately show thesis using ok that [of pvc] by (auto simp: atKey_def)
qed

lemma expand_calls:
  assumes "\<And>n. P (QGet KPersistentVolumeClaim (knamespace sts) n)"
    and "\<And>x. ko_kind x = KPersistentVolumeClaim \<Longrightarrow> knamespace x = knamespace sts \<Longrightarrow> P (QUpdate x)"
    and "\<And>a b c d. P (QEvent a b c d)"
  shows "calls P (expandStatefulSetPVCs L m sts desired)"
  unfolding expandStatefulSetPVCs_def expandClaim_def Let_def
  by (intro eachIO_calls struct_intros) (use assms in \<open>auto simp: grownClaim_def atKey_def\<close>)

lemma pollGone_calls: "P (QGet k ns n) \<Longrightarrow> calls P (pollGone i k ns n)"
  by (induction i) (auto intro!: struct_intros)

lemma recreate_calls:
  assumes "\<And>k ns n. P (QGet k ns n)" "\<And>a b c d. P (QEvent a b c d)"
    and "\<And>x. ko_kind x = KPersistentVolumeClaim \<Longrightarrow> knamespace x = knamespace existing \<Longrightarrow> P (QUpdate x)"
    and "P (QDelete KStatefulSet (knamespace existing) (kname existing) PropagationOrphan)"
  shows "calls P (recreateStatefulSet L m sts existing desired)"
  unfolding recreateStatefulSet_def
  by (intro struct_intros expand_calls pollGone_calls) (use assms in auto)

lemma expand_update:
  assumes "runs (expandStatefulSetPVCs L m sts desired) tr u" "(QUpdate x, r) \<in> set tr"
  obtains pvc where "(QGet KPersistentVolumeClaim (knamespace sts) (kname x), RObj pvc) \<in> set tr"
    "atKey KPersistentVolumeClaim (knamespace sts) (kname x) pvc"
    "\<exists>want. x = grownClaim want pvc \<and> storageRequest (claimOf pvc) < want"
proof -
  let ?n = "nat (case sts_replicas (statefulSetOf sts) of Some r \<Rightarrow> r | None \<Rightarrow> 1)"
  obtain tpl t a where t: "runs (case vc_storage tpl of None \<Rightarrow> Ret ()
      | Some want \<Rightarrow> eachIO [0..<?n] (expandClaim L m sts tpl want)) t a"
    "(QUpdate x, r) \<in> set t" "set t \<subseteq> set tr"
    using assms unfolding expandStatefulSetPVCs_def Let_def by (rule eachIO_origin)
  then obtain want where want: "runs (eachIO [0..<?n] (expandClaim L m sts tpl want)) t a"
    by (auto split: option.splits)
  obtain i t' a' where "runs (expandClaim L m sts tpl want i) t' a'" "(QUpdate x, r) \<in> set t'" "set t' \<subseteq> set t"
    using want t(2) by (rule eachIO_origin)
  then obtain pvc where "(QGet KPersistentVolumeClaim (knamespace sts) (kname x), RObj pvc) \<in> set t'"
    "atKey KPersistentVolumeClaim (knamespace sts) (kname x) pvc"
    "x = grownClaim want pvc" "storageRequest (claimOf pvc) < want"
    by (elim expandClaim_update)
  with \<open>set t' \<subseteq> set t\<close> t(3) that [of pvc] show thesis by blast
qed

lemma recreate_update:
  assumes "runs (recreateStatefulSet L m sts existing desired) tr res" "(QUpdate x, r) \<in> set tr"
  obtains pvc where "(QGet KPersistentVolumeClaim (knamespace existing) (kname x), RObj pvc) \<in> set tr"
    "atKey KPersistentVolumeClaim (knamespace existing) (kname x) pvc"
    "\<exists>want. x = grownClaim want pvc \<and> storageRequest (claimOf pvc) < want"
proof -
  obtain t1 t2 u where tr: "tr = t1 @ t2" and ex: "runs (expandStatefulSetPVCs L m existing desired) t1 u"
    and k: "runs (chk (bnd (kdelete KStatefulSet (knamespace existing) (kname existing) PropagationOrphan) (\<lambda>r. case r of
            Inl e \<Rightarrow> if isNotFound e then Ret (Inr ()) else Ret (Inl e)
          | Inr _ \<Rightarrow> Ret (Inr ()))) (\<lambda>_.
     eventThen L EventNormal ''StatefulSetRecreated'' ''ApplyStatefulSet''
       (''recreating StatefulSet '' @ kname sts @ '' to apply volume claim changes (pods and PVCs are retained)'')
       (bnd (pollGone (l_pollSteps L) KStatefulSet (knamespace sts) (kname sts)) (\<lambda>b.
          if b then Ret (Inr ()) else Ret (Inl (stillTerminating (kname sts))))))) t2 res" (is "runs ?rest t2 res")
    using assms(1) unfolding recreateStatefulSet_def runs_bnd by blast
  have "calls (\<lambda>q. \<forall>x. q \<noteq> QUpdate x) ?rest" by (intro struct_intros pollGone_calls) auto
  with calls_runs [OF this k] assms(2) tr have "(QUpdate x, r) \<in> set t1" by auto
  with ex obtain pvc where "(QGet KPersistentVolumeClaim (knamespace existing) (kname x), RObj pvc) \<in> set t1"
    "atKey KPersistentVolumeClaim (knamespace existing) (kname x) pvc"
    "\<exists>want. x = grownClaim want pvc \<and> storageRequest (claimOf pvc) < want"
    by (rule expand_update)
  with tr that [of pvc] show thesis by simp
qed

subsection \<open>The contract between \<^verbatim>\<open>applyStatefulSet\<close> and its clients\<close>

text \<open>
  A client hands in a closure that only reads and keeps the object's key. Then the volumes
  are safe, whatever the answers: a claim is only ever updated to a larger size than the one
  just read, no claim is deleted, and the StatefulSet itself is deleted only with orphan
  propagation, while not already terminating, and because its templates really differ.
\<close>

definition noVolumeWrite :: "req \<Rightarrow> bool" where
  "noVolumeWrite q \<longleftrightarrow> (case q of QUpdate _ \<Rightarrow> False | QDelete _ _ _ _ \<Rightarrow> False | _ \<Rightarrow> True)"

lemma read_noVolumeWrite: "writes q = None \<Longrightarrow> noVolumeWrite q"
  by (cases q) (auto simp: noVolumeWrite_def)

lemma noVolumeWrite_run:
  assumes "calls noVolumeWrite p" "runs p t a"
  shows "(QUpdate y, r) \<notin> set t" "(QDelete k ns n pol, r) \<notin> set t"
  using calls_runs [OF assms] by (fastforce simp: noVolumeWrite_def)+

locale volume_client =
  fixes mutate :: "libs \<Rightarrow> misskey \<Rightarrow> 'x \<Rightarrow> kobj \<Rightarrow> (error + kobj) io"
    and name :: "misskey \<Rightarrow> 'x \<Rightarrow> string"
  assumes reads: "calls readOnly (mutate L m x s)"
    and key: "atKey k ns n s \<Longrightarrow> runs (mutate L m x s) t (Inr new) \<Longrightarrow> atKey k ns n new"
begin

lemma quiet: "calls noVolumeWrite (mutate L m x s)" "calls noVolumeWrite (applyObj L m sts (mutate L m x))"
proof -
  show *: "calls noVolumeWrite (mutate L m x s)" for s
    by (rule calls_mono [OF reads read_noVolumeWrite [OF readOnly_writes]])
  show "calls noVolumeWrite (applyObj L m sts (mutate L m x))"
    by (rule applyObj_calls) (use * in \<open>auto simp: noVolumeWrite_def\<close>)
qed

text \<open>A request that touches volumes stems from the recreation of an existing StatefulSet.\<close>

lemma volume_request:
  assumes run: "runs (applyStatefulSet L m (newObj KStatefulSet (mnamespace m) (name m x)) (mutate L m x)) tr res"
    and e: "e \<in> set tr" "\<not> noVolumeWrite (fst e)"
  obtains t new old t' res' where "runs (mutate L m x (newObj KStatefulSet (mnamespace m) (name m x))) t (Inr new)"
    "(QGet KStatefulSet (mnamespace m) (name m x), RObj old) \<in> set tr"
    "atKey KStatefulSet (mnamespace m) (name m x) old" "om_deletionTimestamp (ko_meta old) = None"
    "volumeClaimTemplatesChanged (sts_volumeClaims (statefulSetOf old)) (sts_volumeClaims (statefulSetOf new))"
    "runs (recreateStatefulSet L m new old (sts_volumeClaims (statefulSetOf new))) t' res'"
    "set t' \<subseteq> set tr" "e \<in> set t'"
proof -
  let ?obj = "newObj KStatefulSet (mnamespace m) (name m x)"
  have out: "e \<notin> set t" if "calls noVolumeWrite p" "runs p t a" for t and p :: "'z io" and a
    using calls_runs [OF that, of "fst e" "snd e"] e(2) by auto
  obtain t1 new t2 where tr: "tr = t1 @ t2" and new: "runs (mutate L m x ?obj) t1 (Inr new)"
    and k: "runs (let desired = sts_volumeClaims (statefulSetOf new) in
      bnd (kget KStatefulSet (knamespace new) (kname new)) (\<lambda>r. case r of
        Inl e \<Rightarrow> if isNotFound e then applyObj L m new (mutate L m x) else Ret (Inl e)
      | Inr existing \<Rightarrow>
          if om_deletionTimestamp (ko_meta existing) \<noteq> None then Ret (Inl (stillTerminating (kname new)))
          else chk (if volumeClaimTemplatesChanged (sts_volumeClaims (statefulSetOf existing)) desired
                    then recreateStatefulSet L m new existing desired else Ret (Inr ())) (\<lambda>_.
                 applyObj L m new (mutate L m x)))) t2 res" and e2: "e \<in> set t2"
    using run e(1) unfolding applyStatefulSet_def by (rule runs_chk_after) (use out [OF quiet(1)] in blast)+
  have nk: "knamespace new = mnamespace m" "kname new = name m x"
    using key [OF _ new, of KStatefulSet "mnamespace m" "name m x"] by (auto simp: atKey_def)
  from k show thesis unfolding Let_def
  proof (cases rule: runs_kget)
    case (err r ee t)
    then have "e \<in> set t" using e2 e(2) by (auto simp: noVolumeWrite_def)
    with err(3) out [OF quiet(2)] show thesis by (auto split: if_splits)
  next
    case (ok old t)
    then have et: "e \<in> set t" using e2 e(2) by (auto simp: noVolumeWrite_def)
    with ok(3) have del: "om_deletionTimestamp (ko_meta old) = None" by (auto split: if_splits)
    with ok(3) have "runs (chk (if volumeClaimTemplatesChanged (sts_volumeClaims (statefulSetOf old)) (sts_volumeClaims (statefulSetOf new))
                    then recreateStatefulSet L m new old (sts_volumeClaims (statefulSetOf new)) else Ret (Inr ())) (\<lambda>_.
                 applyObj L m new (mutate L m x))) t res" by simp
    then obtain t' a where t': "set t' \<subseteq> set t" "e \<in> set t'"
      "runs (if volumeClaimTemplatesChanged (sts_volumeClaims (statefulSetOf old)) (sts_volumeClaims (statefulSetOf new))
                    then recreateStatefulSet L m new old (sts_volumeClaims (statefulSetOf new)) else Ret (Inr ())) t' a"
      using et by (rule runs_chk_before) (use out [OF quiet(2)] in blast)+
    then have "volumeClaimTemplatesChanged (sts_volumeClaims (statefulSetOf old)) (sts_volumeClaims (statefulSetOf new))"
      by (auto split: if_splits)
    with t' del new ok nk tr show thesis using that [of t1 new old t' a] by auto
  qed
qed

lemma claim_update:
  assumes run: "runs (applyStatefulSet L m (newObj KStatefulSet (mnamespace m) (name m x)) (mutate L m x)) tr res"
    and e: "(QUpdate y, r) \<in> set tr"
  shows "\<exists>pvc want. (QGet KPersistentVolumeClaim (mnamespace m) (kname y), RObj pvc) \<in> set tr \<and>
    y = grownClaim want pvc \<and> storageRequest (claimOf pvc) < want"
proof -
  obtain t new old t' res' where *: "atKey KStatefulSet (mnamespace m) (name m x) old"
    "runs (recreateStatefulSet L m new old (sts_volumeClaims (statefulSetOf new))) t' res'"
    "set t' \<subseteq> set tr" "(QUpdate y, r) \<in> set t'"
    by (rule volume_request [OF run e]) (auto simp: noVolumeWrite_def)
  with recreate_update [OF *(2,4)] show ?thesis by (metis atKey_def subsetD)
qed

lemma set_delete:
  assumes run: "runs (applyStatefulSet L m (newObj KStatefulSet (mnamespace m) (name m x)) (mutate L m x)) tr res"
    and e: "(QDelete k ns n pol, r) \<in> set tr"
  shows "k = KStatefulSet \<and> ns = mnamespace m \<and> n = name m x \<and> pol = PropagationOrphan \<and>
    (\<exists>t new old. runs (mutate L m x (newObj KStatefulSet (mnamespace m) (name m x))) t (Inr new) \<and>
      (QGet KStatefulSet (mnamespace m) (name m x), RObj old) \<in> set tr \<and>
      volumeClaimTemplatesChanged (sts_volumeClaims (statefulSetOf old)) (sts_volumeClaims (statefulSetOf new)))"
proof -
  obtain t new old t' res' where *: "runs (mutate L m x (newObj KStatefulSet (mnamespace m) (name m x))) t (Inr new)"
    "(QGet KStatefulSet (mnamespace m) (name m x), RObj old) \<in> set tr"
    "atKey KStatefulSet (mnamespace m) (name m x) old"
    "volumeClaimTemplatesChanged (sts_volumeClaims (statefulSetOf old)) (sts_volumeClaims (statefulSetOf new))"
    "runs (recreateStatefulSet L m new old (sts_volumeClaims (statefulSetOf new))) t' res'" "(QDelete k ns n pol, r) \<in> set t'"
    by (rule volume_request [OF run e]) (auto simp: noVolumeWrite_def)
  have "calls (\<lambda>q. \<forall>k ns n pol. q = QDelete k ns n pol \<longrightarrow>
      k = KStatefulSet \<and> ns = knamespace old \<and> n = kname old \<and> pol = PropagationOrphan)
    (recreateStatefulSet L m new old (sts_volumeClaims (statefulSetOf new)))"
    by (rule recreate_calls) auto
  from calls_runs [OF this *(5,6)] * show ?thesis by (auto simp: atKey_def)
qed

lemma requests:
  assumes "\<And>q. writes q = None \<Longrightarrow> P q" "\<And>y. P (QStore y)" "\<And>y. P (QUpdate y)"
    and "\<And>ns n. P (QDelete KStatefulSet ns n PropagationOrphan)"
  shows "calls P (applyStatefulSet L m (newObj KStatefulSet (mnamespace m) (name m x)) (mutate L m x))"
proof -
  have rd: "calls P (mutate L m x s)" for s by (rule calls_mono [OF reads assms(1) [OF readOnly_writes]])
  have app: "calls P (applyObj L m sts (mutate L m x))" for sts by (rule applyObj_calls) (use rd assms in auto)
  have rec: "calls P (recreateStatefulSet L m sts old ds)" for sts old ds by (rule recreate_calls) (use assms in auto)
  show ?thesis unfolding applyStatefulSet_def Let_def
    by (intro calls_chk calls_kget) (auto intro!: calls_if calls_chk rd app rec assms)
qed

lemma confined:
  assumes "stable_owner L" "F KStatefulSet (name m x)" "\<And>n. F KPersistentVolumeClaim n"
  shows "calls (within m F) (applyStatefulSet L m (newObj KStatefulSet (mnamespace m) (name m x)) (mutate L m x))"
proof -
  have rd: "calls (within m F) (mutate L m x s)" for s by (rule calls_mono [OF reads]) simp
  have app: "calls (within m F) (applyObj L m sts (mutate L m x))"
    if at: "atKey KStatefulSet (mnamespace m) (name m x) sts" for sts
  proof -
    from at have k: "ko_kind sts = KStatefulSet" "knamespace sts = mnamespace m" "kname sts = name m x"
      by (simp_all add: atKey_def)
    show ?thesis by (rule applyObj_within [OF assms(1)], unfold k) (simp, rule assms(2), rule rd, rule key)
  qed
  have rec: "calls (within m F) (recreateStatefulSet L m sts old ds)"
    if "atKey KStatefulSet (mnamespace m) (name m x) old" for sts old ds
    by (rule recreate_calls) (use that assms in \<open>auto simp: within_def atKey_def\<close>)
  have rest: "calls (within m F) (bnd (kget KStatefulSet (knamespace sts) (kname sts)) (\<lambda>r. case r of
        Inl e \<Rightarrow> if isNotFound e then applyObj L m sts (mutate L m x) else Ret (Inl e)
      | Inr old \<Rightarrow>
          if om_deletionTimestamp (ko_meta old) \<noteq> None then Ret (Inl (stillTerminating (kname sts)))
          else chk (if volumeClaimTemplatesChanged (sts_volumeClaims (statefulSetOf old)) (sts_volumeClaims (statefulSetOf sts))
                    then recreateStatefulSet L m sts old (sts_volumeClaims (statefulSetOf sts)) else Ret (Inr ())) (\<lambda>_.
                 applyObj L m sts (mutate L m x))))"
    if at: "atKey KStatefulSet (mnamespace m) (name m x) sts" for sts
  proof -
    from at have k: "knamespace sts = mnamespace m" "kname sts = name m x" by (simp_all add: atKey_def)
    show ?thesis unfolding k
      by (intro calls_kget) (auto intro!: calls_if calls_chk app [OF at] rec)
  qed
  show ?thesis unfolding applyStatefulSet_def Let_def
    by (intro calls_chk_runs [OF rd] rest) (erule key [rotated], simp add: atKey_def)
qed

end

lemma setStatefulSet_simps [simp]:
  "atKey k ns n (setStatefulSet m c nm an pod cl x) = atKey k ns n x"
  "sts_volumeClaims (statefulSetOf (setStatefulSet m c nm an pod cl x)) = cl"
  by (simp_all add: setStatefulSet_def)

interpretation meili_volumes: volume_client meiliMutate "\<lambda>m p. nameMeili m"
proof unfold_locales
  show "calls readOnly (meiliMutate L m p s)" for L m p s
    unfolding meiliMutate_def Let_def by (intro struct_intros secretVersion_calls) auto
  show "atKey k ns n new" if "atKey k ns n s" "runs (meiliMutate L m p s) t (Inr new)" for k ns n s L m p t new
    using that by (auto simp: meiliMutate_def Let_def runs_chk_Inr)
qed

lemma meilisearch_within [foot_intros]:
  assumes "stable_owner L"
  shows "calls (within m (\<lambda>k n. k \<in> {KService, KStatefulSet} \<and> n = nameMeili m \<or> k = KPersistentVolumeClaim))
    (reconcileMeilisearch L m p)"
  unfolding reconcileMeilisearch_def
  by (intro struct_intros applyObj_within [OF assms] meili_volumes.confined [OF assms]) auto

end
