(* ===== verification/Redis.thy ===== *)
theory Redis
  imports Stateful
begin

section \<open>Managed Redis: standalone and Sentinel HA (redis.go, redisha.go)\<close>

text \<open>
  The desired instances (the shared one and one per separated role), their provisioning as a
  StatefulSet or as the custom resources of the Redis operator, and the removal of what is no
  longer desired. The properties: the removal never touches a desired instance and misses no
  undesired one, and the endpoints of the plan are exactly the provisioned instances.
\<close>

subsection \<open>Desired instances\<close>

definition redisUID :: int64 where "redisUID = 999"
definition opstreeRedisUID :: int64 where "opstreeRedisUID = 1000"
definition nsNameLabel :: string where "nsNameLabel = ''kubernetes.io/metadata.name''"

record redisManagedInstance =
  ri_suffix :: string
  ri_ha :: bool
  ri_image :: string
  ri_maxMemory :: string
  ri_maxMemoryPolicy :: string
  ri_appendOnly :: bool
  ri_storage :: quantity
  ri_storageClass :: "string option"
  ri_resources :: resourceRequirements
  ri_replicas :: int32
  ri_sentinels :: int32
  ri_haImage :: string
  ri_haSentinelImage :: string

definition overrideRole :: "redisRole \<Rightarrow> redisManagedInstance \<Rightarrow> redisManagedInstance" where
  "overrideRole role inst = inst\<lparr>
     ri_maxMemory := stringOr (ro_maxMemory role) (ri_maxMemory inst),
     ri_maxMemoryPolicy := stringOr (ro_maxMemoryPolicy role) (ri_maxMemoryPolicy inst),
     ri_storage := (if ro_storage role = 0 then ri_storage inst else ro_storage role),
     ri_storageClass := (if ro_storageClassName role \<noteq> None then ro_storageClassName role else ri_storageClass inst),
     ri_resources := (if length (rr_requests (ro_resources role)) > 0 \<or> length (rr_limits (ro_resources role)) > 0
                      then ro_resources role else ri_resources inst)\<rparr>"

definition enableHA :: "redisHA \<Rightarrow> redisManagedInstance \<Rightarrow> redisManagedInstance" where
  "enableHA ha inst = inst\<lparr>
     ri_ha := True,
     ri_replicas := int32OrDefault (ha_replicas ha) 3,
     ri_sentinels := int32OrDefault (ha_sentinels ha) 3,
     ri_haImage := stringOr (ha_image ha) ''quay.io/opstree/redis:v8.2.5'',
     ri_haSentinelImage := stringOr (ha_sentinelImage ha) ''quay.io/opstree/redis-sentinel:v8.2.5''\<rparr>"

definition buildManagedInstance ::
  "libs \<Rightarrow> misskey \<Rightarrow> string \<Rightarrow> redisRole option \<Rightarrow> redisHA option \<Rightarrow> redisManagedInstance" where
  "buildManagedInstance L m suffix role ha =
     (let rs = redis (spec m);
          inst = \<lparr>ri_suffix = suffix, ri_ha = False,
                  ri_image = stringOr (rd_image rs) ''redis:8-alpine'',
                  ri_maxMemory = stringOr (rd_maxMemory rs) ''400mb'',
                  ri_maxMemoryPolicy = stringOr (rd_maxMemoryPolicy rs) ''noeviction'',
                  ri_appendOnly = boolOr (rd_appendOnly rs) True,
                  ri_storage = quantityOr L (rd_storage rs) ''2Gi'',
                  ri_storageClass = rd_storageClassName rs,
                  ri_resources = rd_resources rs,
                  ri_replicas = 0, ri_sentinels = 0, ri_haImage = [], ri_haSentinelImage = []\<rparr>;
          inst1 = (case role of None \<Rightarrow> inst | Some r \<Rightarrow> overrideRole r inst) in
      case ha of None \<Rightarrow> inst1 | Some h \<Rightarrow> enableHA h inst1)"

definition roleInstance :: "libs \<Rightarrow> misskey \<Rightarrow> redisRoles \<Rightarrow> redisRoleDesc \<Rightarrow> redisManagedInstance option" where
  "roleInstance L m roles rd =
     (case rdd_get rd roles of
        None \<Rightarrow> None
      | Some role \<Rightarrow> if ro_external role \<noteq> None then None
                     else Some (buildManagedInstance L m (rdd_nameSuffix rd) (Some role) (ro_ha role)))"

definition managedRedisInstances :: "libs \<Rightarrow> misskey \<Rightarrow> redisManagedInstance list" where
  "managedRedisInstances L m =
     (let rs = redis (spec m) in
      (if rd_external rs = None then [buildManagedInstance L m [] None (rd_ha rs)] else []) @
      (case rd_roles rs of None \<Rightarrow> [] | Some roles \<Rightarrow> List.map_filter (roleInstance L m roles) redisRoleDescs))"

subsection \<open>High availability: custom resources of the Redis operator\<close>

definition redisAuthSecretRef :: "misskey \<Rightarrow> json" where
  "redisAuthSecretRef m = JObj [(''name'', JStr (nameRedisAuthSecret m)), (''key'', JStr ''password'')]"

text \<open>
  The conversion of the resource requirements is a library call whose error the source
  discards; what is left then is the nil map.
\<close>

definition resourcesJson :: "libs \<Rightarrow> resourceRequirements \<Rightarrow> json" where
  "resourcesJson L r = JObj (case l_toUnstructured L r of Inr fs \<Rightarrow> fs | Inl _ \<Rightarrow> [])"

definition redisHAPodSecurityContext :: json where
  "redisHAPodSecurityContext =
     JObj [(''runAsNonRoot'', JBool True), (''runAsUser'', JInt opstreeRedisUID),
           (''runAsGroup'', JInt opstreeRedisUID), (''fsGroup'', JInt opstreeRedisUID),
           (''seccompProfile'', JObj [(''type'', JStr ''RuntimeDefault'')])]"

definition redisPVCSpec :: "libs \<Rightarrow> redisManagedInstance \<Rightarrow> json" where
  "redisPVCSpec L inst =
     JObj ([(''accessModes'', JList [JStr ''ReadWriteOnce'']),
            (''resources'', JObj [(''requests'', JObj [(''storage'', JStr (l_quantityString L (ri_storage inst)))])])] @
           (case ri_storageClass inst of
              Some c \<Rightarrow> if c \<noteq> [] then [(''storageClassName'', JStr c)] else []
            | None \<Rightarrow> []))"

definition redisUnstructured :: "misskey \<Rightarrow> string \<Rightarrow> kind \<Rightarrow> string \<Rightarrow> json \<Rightarrow> kobj" where
  "redisUnstructured m suffix k name sp =
     setBody (BUnstructured (JObj [(''spec'', sp)]))
       (withLabels [(''app.kubernetes.io/managed-by'', ''cloudnative-misskey''), (''cloudnative-misskey.dev/tenant'', tenantOf m)]
         (newObj k (mnamespace m) name))"

definition buildRedisReplication :: "libs \<Rightarrow> misskey \<Rightarrow> redisManagedInstance \<Rightarrow> kobj" where
  "buildRedisReplication L m inst =
     redisUnstructured m (ri_suffix inst) KRedisReplication (nameRedisHA m (ri_suffix inst))
       (JObj ([(''clusterSize'', JInt (ri_replicas inst)),
          (''kubernetesConfig'', JObj
             [(''image'', JStr (ri_haImage inst)), (''imagePullPolicy'', JStr ''IfNotPresent''),
              (''resources'', resourcesJson L (resourcesOr L (ri_resources inst) ''50m'' ''128Mi'' ''512Mi'')),
              (''redisSecret'', redisAuthSecretRef m),
              (''persistentVolumeClaimRetentionPolicy'',
                 JObj [(''whenDeleted'', JStr ''Retain''), (''whenScaled'', JStr ''Retain'')])]),
          (''podSecurityContext'', redisHAPodSecurityContext),
          (''storage'', JObj [(''volumeClaimTemplate'', JObj [(''spec'', redisPVCSpec L inst)])])] @
         (if monitoringEnabled m then [(''redisExporter'', JObj [(''enabled'', JBool True)])] else [])))"

definition sentinelQuorum :: "redisManagedInstance \<Rightarrow> int" where
  "sentinelQuorum inst = quot (ri_sentinels inst) 2 + 1"

definition buildRedisSentinel :: "libs \<Rightarrow> misskey \<Rightarrow> redisManagedInstance \<Rightarrow> kobj" where
  "buildRedisSentinel L m inst =
     redisUnstructured m (ri_suffix inst) KRedisSentinel (nameRedisHA m (ri_suffix inst))
       (JObj [(''clusterSize'', JInt (ri_sentinels inst)),
          (''kubernetesConfig'', JObj
             [(''image'', JStr (ri_haSentinelImage inst)), (''imagePullPolicy'', JStr ''IfNotPresent''),
              (''resources'', resourcesJson L (resourcesOr L noResources ''25m'' ''64Mi'' ''128Mi'')),
              (''redisSecret'', redisAuthSecretRef m)]),
          (''podSecurityContext'', redisHAPodSecurityContext),
          (''redisSentinelConfig'', JObj
             [(''redisReplicationName'', JStr (nameRedisHA m (ri_suffix inst))),
              (''masterGroupName'', JStr redisMasterGroup),
              (''quorum'', JStr (itoa (sentinelQuorum inst))),
              (''redisReplicationPassword'', JObj
                 [(''secretKeyRef'', JObj [(''name'', JStr (nameRedisAuthSecret m)), (''key'', JStr ''password'')])])])])"

definition reconcileRedisHA :: "libs \<Rightarrow> misskey \<Rightarrow> redisManagedInstance \<Rightarrow> (error + unit) io" where
  "reconcileRedisHA L m inst =
     chk (applySSA L m (buildRedisReplication L m inst)) (\<lambda>_. applySSA L m (buildRedisSentinel L m inst))"

definition deleteRedisHA :: "misskey \<Rightarrow> string \<Rightarrow> (error + unit) io" where
  "deleteRedisHA m suffix =
     forE [KRedisReplication, KRedisSentinel] (\<lambda>k. deleteIfExists k (mnamespace m) (nameRedisHA m suffix))"

subsection \<open>Network policy of the HA Pods\<close>

definition reconcileRedisHANetworkPolicy :: "libs \<Rightarrow> misskey \<Rightarrow> redisManagedInstance \<Rightarrow> (error + unit) io" where
  "reconcileRedisHANetworkPolicy L m inst =
     (let name = nameRedisInstance m (ri_suffix inst) @ ''-ha'';
          appIn = \<lparr>ls_matchLabels = [], ls_matchExpressions =
             [SelIn ''app'' [nameRedisHA m (ri_suffix inst), nameRedisSentinelService m (ri_suffix inst)]]\<rparr>;
          byLabels = (\<lambda>ls. \<lparr>ls_matchLabels = ls, ls_matchExpressions = []\<rparr>) in
      if \<not> boolOr (ni_enabled (nw_isolation (network (spec m)))) True
      then deleteIfExists KNetworkPolicy (mnamespace m) name
      else applyObj L m (newObj KNetworkPolicy (mnamespace m) name) (\<lambda>np.
        ret (setBody (BNetworkPolicy \<lparr>npo_podSelector = appIn, npo_policyTypes = [''Ingress''],
          npo_ingress = [\<lparr>nr_peers =
              [PodPeer (byLabels (selectorFor m roleApp)), PodPeer (byLabels (selectorFor m roleWorker)), PodPeer appIn] @
              map (\<lambda>ns. NamespacePeer (byLabels [(nsNameLabel, ns)]))
                (ni_allowedNamespaces (nw_isolation (network (spec m)))),
            nr_ports = [\<lparr>np_protocol = [], np_port = redisPort\<rparr>, \<lparr>np_protocol = [], np_port = sentinelPort\<rparr>]\<rparr>],
          npo_egress = (case ko_body np of BNetworkPolicy o1 \<Rightarrow> npo_egress o1 | _ \<Rightarrow> [])\<rparr>)
          (withLabels (labelsFor m ''redis'') np))))"

definition deleteRedisHANetworkPolicy :: "misskey \<Rightarrow> string \<Rightarrow> (error + unit) io" where
  "deleteRedisHANetworkPolicy m suffix =
     deleteIfExists KNetworkPolicy (mnamespace m) (nameRedisInstance m suffix @ ''-ha'')"

subsection \<open>Standalone instances\<close>

definition redisPingProbe :: "int32 \<Rightarrow> probe" where
  "redisPingProbe period = \<lparr>pr_handler = ExecProbe [''redis-cli'', ''ping''], pr_initialDelay = 0,
     pr_period = period, pr_timeout = 3, pr_failure = 0\<rparr>"

definition redisCmd :: "redisManagedInstance \<Rightarrow> string" where
  "redisCmd inst =
     ''exec redis-server --requirepass '' @ [dq] @ ''$REDIS_PASSWORD'' @ [dq] @ '' --maxmemory '' @
     [dq] @ ''$MAXMEMORY'' @ [dq] @ '' --maxmemory-policy '' @ [dq] @ ''$MAXMEMORY_POLICY'' @ [dq] @
     (if ri_appendOnly inst then '' --appendonly yes'' else [])"

definition buildRedisPodSpec :: "libs \<Rightarrow> misskey \<Rightarrow> redisManagedInstance \<Rightarrow> podSpec" where
  "buildRedisPodSpec L m inst = zeroPodSpec\<lparr>
     ps_automountServiceAccountToken := Some False,
     ps_securityContext := Some (nonRootPodSecurityContext redisUID),
     ps_volumes := [tmpVolume],
     ps_containers := [zeroContainer\<lparr>
         c_name := ''redis'', c_image := ri_image inst, c_command := [''sh'', ''-c'', redisCmd inst],
         c_env := [secretEnv ''REDIS_PASSWORD'' (redisAuthSecretKeySelector m),
                   secretEnv ''REDISCLI_AUTH'' (redisAuthSecretKeySelector m),
                   plainEnv ''MAXMEMORY'' (ri_maxMemory inst), plainEnv ''MAXMEMORY_POLICY'' (ri_maxMemoryPolicy inst)],
         c_securityContext := Some restrictedContainerSecurityContext,
         c_resources := resourcesOr L (ri_resources inst) ''50m'' ''128Mi'' ''512Mi'',
         c_ports := [\<lparr>cp_name = [], cp_port = redisPort\<rparr>],
         c_readinessProbe := Some (redisPingProbe 10), c_livenessProbe := Some (redisPingProbe 20),
         c_volumeMounts := [mountAt ''data'' ''/data'', tmpMount]\<rparr>] @
       (if monitoringEnabled m then [redisExporterContainer L m] else [])\<rparr>"

definition redisMutate :: "libs \<Rightarrow> misskey \<Rightarrow> redisManagedInstance \<Rightarrow> kobj \<Rightarrow> (error + kobj) io" where
  "redisMutate L m inst sts =
     chk (secretVersion (mnamespace m) (nameRedisAuthSecret m)) (\<lambda>ver.
       ret (setStatefulSet m (redisComponent (ri_suffix inst)) (nameRedisInstance m (ri_suffix inst))
         (checksumAnnotation [ver]) (buildRedisPodSpec L m inst)
         [dataClaim (ri_storageClass inst) (ri_storage inst)] sts))"

definition redisService :: "misskey \<Rightarrow> redisManagedInstance \<Rightarrow> kobj \<Rightarrow> kobj" where
  "redisService m inst svc =
     (let c = redisComponent (ri_suffix inst) in
      setBody (BService ((serviceOf svc)\<lparr>
          svc_clusterIP := ''None'', svc_selector := selectorFor m c,
          svc_ports := [\<lparr>svp_name = ''redis'', svp_port = redisPort, svp_targetPort = None\<rparr>] @
            (if monitoringEnabled m then [servicePortTo ''metrics'' redisExporterPort redisExporterPort] else [])\<rparr>))
        (withLabels (labelsFor m c) svc))"

definition reconcileRedisStandalone :: "libs \<Rightarrow> misskey \<Rightarrow> redisManagedInstance \<Rightarrow> (error + unit) io" where
  "reconcileRedisStandalone L m inst =
     (let name = nameRedisInstance m (ri_suffix inst) in
      chk (applyObj L m (newObj KService (mnamespace m) name) (\<lambda>svc. ret (redisService m inst svc))) (\<lambda>_.
      chk (applyStatefulSet L m (newObj KStatefulSet (mnamespace m) name) (redisMutate L m inst)) (\<lambda>_.
      deleteIfExists KNetworkPolicy (mnamespace m) name)))"

definition deleteRedisStandalone :: "misskey \<Rightarrow> string \<Rightarrow> (error + unit) io" where
  "deleteRedisStandalone m suffix =
     forE [KStatefulSet, KService, KNetworkPolicy] (\<lambda>k. deleteIfExists k (mnamespace m) (nameRedisInstance m suffix))"

subsection \<open>Reconciling all of them\<close>

definition reconcileRedisInstance :: "libs \<Rightarrow> misskey \<Rightarrow> redisManagedInstance \<Rightarrow> (error + unit) io" where
  "reconcileRedisInstance L m inst =
     (if ri_ha inst then
        chk (deleteRedisStandalone m (ri_suffix inst)) (\<lambda>_.
        chk (reconcileRedisHA L m inst) (\<lambda>_.
        reconcileRedisHANetworkPolicy L m inst))
      else
        chk (deleteRedisHA m (ri_suffix inst)) (\<lambda>_.
        chk (deleteRedisHANetworkPolicy m (ri_suffix inst)) (\<lambda>_.
        reconcileRedisStandalone L m inst)))"

definition cleanupRedisSuffix :: "misskey \<Rightarrow> redisManagedInstance list \<Rightarrow> string \<Rightarrow> (error + unit) io" where
  "cleanupRedisSuffix m desired suffix =
     (let seenStandalone = list_ex (\<lambda>i. \<not> ri_ha i \<and> ri_suffix i = suffix) desired;
          seenHA = list_ex (\<lambda>i. ri_ha i \<and> ri_suffix i = suffix) desired in
      chk (whenE (\<not> seenStandalone) (deleteRedisStandalone m suffix)) (\<lambda>_.
      whenE (\<not> seenHA)
        (chk (deleteRedisHA m suffix) (\<lambda>_. deleteRedisHANetworkPolicy m suffix))))"

definition reconcileRedis :: "libs \<Rightarrow> misskey \<Rightarrow> (error + unit) io" where
  "reconcileRedis L m =
     (let desired = managedRedisInstances L m in
      chk (whenE (length desired > 0) (reconcileRedisAuthSecret L m)) (\<lambda>_.
      chk (forE desired (reconcileRedisInstance L m)) (\<lambda>_.
      forE allRedisSuffixes (cleanupRedisSuffix m desired))))"

subsection \<open>What the desired instances are\<close>

lemma buildManagedInstance_simps [simp]:
  "ri_suffix (buildManagedInstance L m s r h) = s" "ri_ha (buildManagedInstance L m s r h) = (h \<noteq> None)"
  by (auto simp: buildManagedInstance_def overrideRole_def enableHA_def Let_def split: option.split)

lemma roleInstance_suffix: "roleInstance L m roles rd = Some i \<Longrightarrow> ri_suffix i = rdd_nameSuffix rd"
  by (auto simp: roleInstance_def split: option.splits if_splits)

lemma distinct_map_filter_suffix:
  "distinct (map rdd_nameSuffix rds) \<Longrightarrow> distinct (map ri_suffix (List.map_filter (roleInstance L m roles) rds))"
proof (induction rds)
  case (Cons rd rds)
  have "rdd_nameSuffix rd \<notin> ri_suffix ` set (List.map_filter (roleInstance L m roles) rds)"
    using Cons.prems by (force simp: set_map_filter_iff dest: roleInstance_suffix)
  with Cons show ?case by (auto simp: map_filter_simps dest: roleInstance_suffix split: option.splits)
qed (simp add: map_filter_simps)

lemma managed_suffixes:
  "i \<in> set (managedRedisInstances L m) \<Longrightarrow> ri_suffix i \<in> set allRedisSuffixes"
  "distinct (map ri_suffix (managedRedisInstances L m))"
proof -
  show "ri_suffix i \<in> set allRedisSuffixes" if "i \<in> set (managedRedisInstances L m)"
    using that unfolding managedRedisInstances_def allRedisSuffixes_def Let_def
    by (auto simp: set_map_filter_iff split: if_splits option.splits dest!: roleInstance_suffix)
  have "[] \<notin> ri_suffix ` set (List.map_filter (roleInstance L m roles) redisRoleDescs)" for roles
    using distinct_redisRoleDescs(5) by (force simp: set_map_filter_iff dest: roleInstance_suffix)
  then show "distinct (map ri_suffix (managedRedisInstances L m))"
    unfolding managedRedisInstances_def Let_def
    using distinct_map_filter_suffix [OF distinct_redisRoleDescs(2)] by (auto split: option.splits)
qed

lemma managed_unique:
  assumes "i \<in> set (managedRedisInstances L m)" "j \<in> set (managedRedisInstances L m)" "ri_suffix i = ri_suffix j"
  shows "i = j"
  using managed_suffixes(2) [of L m] assms by (metis distinct_map inj_onD)

lemma standalone_not_ha:
  assumes "s \<in> set allRedisSuffixes"
  shows "nameRedisInstance m s \<noteq> nameRedisHA m s'" "nameRedisHA m s' \<noteq> nameRedisInstance m s"
proof -
  have "s \<in> {[], ''jobqueue'', ''pubsub'', ''timelines'', ''reactions''}"
    using assms by (auto simp: allRedisSuffixes_def redisRoleDescs_def)
  then have l: "s = [] \<or> s \<noteq> [] \<and> s \<noteq> ''ha'' \<and> last s \<noteq> CHR ''a''" by auto
  have "s \<noteq> s' @ ''-ha''" using l by (auto simp: last_append)
  then show "nameRedisInstance m s \<noteq> nameRedisHA m s'" using l by (auto simp: redis_name_defs)
  then show "nameRedisHA m s' \<noteq> nameRedisInstance m s" by metis
qed

lemma inj_nameRedisHA [simp]: "nameRedisHA m s = nameRedisHA m s' \<longleftrightarrow> s = s'"
  by (simp add: nameRedisHA_def inj_nameRedisInstance)

interpretation redis_volumes: volume_client redisMutate "\<lambda>m inst. nameRedisInstance m (ri_suffix inst)"
proof unfold_locales
  show "calls readOnly (redisMutate L m i s)" for L m i s
    unfolding redisMutate_def by (intro struct_intros secretVersion_calls) auto
  show "atKey k ns n new" if "atKey k ns n s" "runs (redisMutate L m i s) t (Inr new)" for k ns n s L m i t new
    using that by (auto simp: redisMutate_def runs_chk_Inr)
qed

subsection \<open>The cleanup\<close>

text \<open>\<open>wanted L m k n\<close>: an object that provisioning the desired instances keeps.\<close>

definition wanted :: "libs \<Rightarrow> misskey \<Rightarrow> kind \<Rightarrow> string \<Rightarrow> bool" where
  "wanted L m k n \<longleftrightarrow> (\<exists>i\<in>set (managedRedisInstances L m).
     if ri_ha i
     then n = nameRedisHA m (ri_suffix i) \<and>
       (k \<in> {KRedisReplication, KRedisSentinel} \<or>
        k = KNetworkPolicy \<and> boolOr (ni_enabled (nw_isolation (network (spec m)))) True)
     else n = nameRedisInstance m (ri_suffix i) \<and> k \<in> {KStatefulSet, KService})"

definition sparesWanted :: "libs \<Rightarrow> misskey \<Rightarrow> req \<Rightarrow> bool" where
  "sparesWanted L m q \<longleftrightarrow> (\<forall>k ns n. q = QDelete k ns n PropagationDefault \<longrightarrow> \<not> wanted L m k n)"

lemma spares_other [simp]: "(\<And>k ns n. q \<noteq> QDelete k ns n PropagationDefault) \<Longrightarrow> sparesWanted L m q"
  by (simp add: sparesWanted_def)

lemma spares_read: "writes q = None \<Longrightarrow> sparesWanted L m q"
  by (auto simp: sparesWanted_def)

lemma deleteStandalone_spares:
  assumes "s \<in> set allRedisSuffixes" "\<And>i. i \<in> set (managedRedisInstances L m) \<Longrightarrow> ri_suffix i = s \<Longrightarrow> ri_ha i"
  shows "calls (sparesWanted L m) (deleteRedisStandalone m s)"
  unfolding deleteRedisStandalone_def
  using assms standalone_not_ha(1) [OF assms(1), of m]
  by (intro calls_forE deleteIfExists_calls)
     (auto simp: sparesWanted_def wanted_def inj_nameRedisInstance split: if_splits)

lemma deleteHA_spares:
  assumes "\<And>i. i \<in> set (managedRedisInstances L m) \<Longrightarrow> ri_suffix i = s \<Longrightarrow> \<not> ri_ha i"
  shows "calls (sparesWanted L m) (deleteRedisHA m s)" "calls (sparesWanted L m) (deleteRedisHANetworkPolicy m s)"
  unfolding deleteRedisHA_def deleteRedisHANetworkPolicy_def nameRedisHA_def [symmetric]
  using assms
  by (intro calls_forE deleteIfExists_calls; auto simp: sparesWanted_def wanted_def split: if_splits)+

lemma apply_spares [intro]:
  "(\<And>s. calls (sparesWanted L m) (mutate s)) \<Longrightarrow> calls (sparesWanted L m) (applyObj L' m' obj mutate)"
  "calls (sparesWanted L m) (applySSA L' m' obj)"
  by (auto intro!: applyObj_calls applySSA_calls)

lemma instance_spares:
  assumes i: "i \<in> set (managedRedisInstances L m)"
  shows "calls (sparesWanted L m) (reconcileRedisInstance L m i)"
proof -
  note s = managed_suffixes(1) [OF i]
  have same: "j = i" if "j \<in> set (managedRedisInstances L m)" "ri_suffix j = ri_suffix i" for j
    using managed_unique [OF that(1) i that(2)] .
  show ?thesis
  proof (cases "ri_ha i")
    case True
    have del: "calls (sparesWanted L m) (deleteRedisStandalone m (ri_suffix i))"
      by (rule deleteStandalone_spares [OF s]) (use same True in blast)
    have np: "\<not> wanted L m KNetworkPolicy (nameRedisHA m (ri_suffix i))"
      if "\<not> boolOr (ni_enabled (nw_isolation (network (spec m)))) True"
      using that by (auto simp: wanted_def split: if_splits)
    have "calls (sparesWanted L m) (reconcileRedisHANetworkPolicy L m i)"
      unfolding reconcileRedisHANetworkPolicy_def Let_def nameRedisHA_def [symmetric]
      by (intro calls_if deleteIfExists_calls apply_spares) (use np in \<open>auto simp: sparesWanted_def ret_calls\<close>)
    with del True show ?thesis
      unfolding reconcileRedisInstance_def reconcileRedisHA_def by (auto intro!: calls_chk)
  next
    case False
    have "calls (sparesWanted L m) (deleteRedisHA m (ri_suffix i))"
      "calls (sparesWanted L m) (deleteRedisHANetworkPolicy m (ri_suffix i))"
      using deleteHA_spares [of L m "ri_suffix i"] same False by blast+
    moreover have "\<not> wanted L m KNetworkPolicy (nameRedisInstance m (ri_suffix i))"
      using standalone_not_ha(1) [OF s] by (auto simp: wanted_def split: if_splits)
    then have "calls (sparesWanted L m) (deleteIfExists KNetworkPolicy (mnamespace m) (nameRedisInstance m (ri_suffix i)))"
      by (intro deleteIfExists_calls) (auto simp: sparesWanted_def)
    moreover have "calls (sparesWanted L m) (applyStatefulSet L m
        (newObj KStatefulSet (mnamespace m) (nameRedisInstance m (ri_suffix i))) (redisMutate L m i))"
      by (rule redis_volumes.requests) (auto simp: spares_read)
    ultimately show ?thesis
      using False unfolding reconcileRedisInstance_def reconcileRedisStandalone_def Let_def
      by (auto intro!: calls_chk simp: ret_calls)
  qed
qed

lemma cleanup_spares:
  assumes "s \<in> set allRedisSuffixes"
  shows "calls (sparesWanted L m) (cleanupRedisSuffix m (managedRedisInstances L m) s)"
  unfolding cleanupRedisSuffix_def Let_def
  by (intro calls_chk calls_whenE deleteStandalone_spares [OF assms] deleteHA_spares) (auto simp: list_ex_iff)

lemma secret_mutate_spares: "calls (sparesWanted L m) (redisAuthSecretMutate m' s)"
  unfolding redisAuthSecretMutate_def randomHex_def Let_def ret_def
  by (intro struct_intros; simp)

lemma reconcileRedis_spares: "calls (sparesWanted L m) (reconcileRedis L m)"
  unfolding reconcileRedis_def reconcileRedisAuthSecret_def Let_def
  by (intro calls_chk calls_whenE calls_forE cleanup_spares instance_spares apply_spares secret_mutate_spares)

lemma deletes_all:
  assumes "runs (forE ks (\<lambda>k. deleteIfExists k ns n)) tr (Inr ())" "k \<in> set ks"
  shows "\<exists>e\<in>set tr. deletedAt k ns n e"
proof -
  obtain t where "runs (deleteIfExists k ns n) t (Inr ())" "set t \<subseteq> set tr" by (rule runs_forE_each [OF assms])
  then show ?thesis by (auto simp: runs_deleteIfExists deletedAt_def intro: bexI [rotated])
qed

lemma cleanup_complete:
  assumes run: "runs (cleanupRedisSuffix m desired s) tr (Inr ())"
  shows "(\<forall>i\<in>set desired. ri_suffix i = s \<longrightarrow> ri_ha i) \<Longrightarrow> k \<in> {KStatefulSet, KService, KNetworkPolicy} \<Longrightarrow>
      \<exists>e\<in>set tr. deletedAt k (mnamespace m) (nameRedisInstance m s) e"
    and "(\<forall>i\<in>set desired. ri_suffix i = s \<longrightarrow> \<not> ri_ha i) \<Longrightarrow> k \<in> {KRedisReplication, KRedisSentinel, KNetworkPolicy} \<Longrightarrow>
      \<exists>e\<in>set tr. deletedAt k (mnamespace m) (nameRedisHA m s) e"
proof -
  let ?st = "list_ex (\<lambda>i. \<not> ri_ha i \<and> ri_suffix i = s) desired" and ?ha = "list_ex (\<lambda>i. ri_ha i \<and> ri_suffix i = s) desired"
  obtain t1 t2 where tr: "tr = t1 @ t2" and a: "runs (whenE (\<not> ?st) (deleteRedisStandalone m s)) t1 (Inr ())"
    and b: "runs (whenE (\<not> ?ha) (chk (deleteRedisHA m s) (\<lambda>_. deleteRedisHANetworkPolicy m s))) t2 (Inr ())"
    using run unfolding cleanupRedisSuffix_def Let_def runs_chk_Inr by auto
  show "\<exists>e\<in>set tr. deletedAt k (mnamespace m) (nameRedisInstance m s) e"
    if "\<forall>i\<in>set desired. ri_suffix i = s \<longrightarrow> ri_ha i" "k \<in> {KStatefulSet, KService, KNetworkPolicy}"
  proof -
    have "\<not> ?st" using that(1) by (auto simp: list_ex_iff)
    with a have "runs (deleteRedisStandalone m s) t1 (Inr ())" by (simp add: runs_whenE)
    from deletes_all [OF this [unfolded deleteRedisStandalone_def]] that(2) tr show ?thesis by auto
  qed
  show "\<exists>e\<in>set tr. deletedAt k (mnamespace m) (nameRedisHA m s) e"
    if "\<forall>i\<in>set desired. ri_suffix i = s \<longrightarrow> \<not> ri_ha i" "k \<in> {KRedisReplication, KRedisSentinel, KNetworkPolicy}"
  proof -
    have "\<not> ?ha" using that(1) by (auto simp: list_ex_iff)
    with b obtain t3 t4 where t2: "t2 = t3 @ t4" and c: "runs (deleteRedisHA m s) t3 (Inr ())"
      and d: "runs (deleteRedisHANetworkPolicy m s) t4 (Inr ())" by (auto simp: runs_whenE runs_chk_Inr)
    have "\<exists>e\<in>set t4. deletedAt KNetworkPolicy (mnamespace m) (nameRedisHA m s) e"
      using d by (auto simp: deleteRedisHANetworkPolicy_def runs_deleteIfExists deletedAt_def nameRedisHA_def)
    with deletes_all [OF c [unfolded deleteRedisHA_def], of k] that(2) tr t2 show ?thesis by auto
  qed
qed

lemma map_filter_managed:
  "roleEndpoint m roles rd = Some (k, ep) \<Longrightarrow> re_managed ep \<Longrightarrow>
     \<exists>i. roleInstance L m roles rd = Some i \<and> re_host ep =
       (if ri_ha i then nameRedisHA m (ri_suffix i) else nameRedisInstance m (ri_suffix i)) \<and> re_ha ep = ri_ha i"
  "roleInstance L m roles rd = Some i \<Longrightarrow> \<exists>ep. roleEndpoint m roles rd = Some (rdd_key rd, ep) \<and> re_managed ep \<and>
     re_host ep = (if ri_ha i then nameRedisHA m (ri_suffix i) else nameRedisInstance m (ri_suffix i)) \<and> re_ha ep = ri_ha i"
  by (auto simp: roleEndpoint_def roleInstance_def externalRedisEndpoint_def managedRedisEndpoint_def zeroEndpoint_def Let_def
      split: option.splits if_splits)

subsection \<open>Footprint\<close>

definition redisKinds :: "kind set" where
  "redisKinds = {KStatefulSet, KService, KNetworkPolicy, KRedisReplication, KRedisSentinel, KPersistentVolumeClaim}"

lemma redis_build_keys [simp]:
  "ko_kind (buildRedisReplication L m i) = KRedisReplication" "knamespace (buildRedisReplication L m i) = mnamespace m"
  "ko_kind (buildRedisSentinel L m i) = KRedisSentinel" "knamespace (buildRedisSentinel L m i) = mnamespace m"
  "atKey k ns n (redisService m i x) = atKey k ns n x"
  by (simp_all add: buildRedisReplication_def buildRedisSentinel_def redisUnstructured_def redisService_def Let_def)

lemma reconcileRedis_within [foot_intros]:
  assumes "stable_owner L"
  shows "calls (within m (\<lambda>k n. generatedSecret m k n \<or> k \<in> redisKinds)) (reconcileRedis L m)"
  unfolding reconcileRedis_def reconcileRedisInstance_def cleanupRedisSuffix_def reconcileRedisHA_def
    reconcileRedisHANetworkPolicy_def reconcileRedisStandalone_def deleteRedisStandalone_def deleteRedisHA_def
    deleteRedisHANetworkPolicy_def Let_def
  by (intro struct_intros within_mono [OF secrets_within(3) [OF assms]] applyObj_within [OF assms] applySSA_within [OF assms]
      deleteIfExists_within redis_volumes.confined [OF assms]) (auto simp: redisKinds_def)

subsection \<open>Properties\<close>

text \<open>
  C33: reconciling Redis never removes a desired instance, whatever the API server answers: no
  plain deletion names the StatefulSet or Service of a desired standalone instance, or the
  custom resources or (while isolation is on) the NetworkPolicy of a desired HA instance.
\<close>
theorem redis_cleanup_spares_desired:
  assumes "runs (reconcileRedis L m) tr res" and "(QDelete k ns n PropagationDefault, r) \<in> set tr"
  shows "\<not> wanted L m k n"
  using calls_runs [OF reconcileRedis_spares assms] by (simp add: sparesWanted_def)

text \<open>
  C34: reconciling Redis leaves nothing behind. When it succeeds, every suffix without a
  desired standalone instance had its StatefulSet, Service and NetworkPolicy deleted or seen
  absent, and every suffix without a desired HA instance its custom resources and
  NetworkPolicy, so an instance that was made external, removed or switched in mode is gone.
\<close>
theorem redis_cleanup_complete:
  assumes "runs (reconcileRedis L m) tr (Inr ())" and "s \<in> set allRedisSuffixes"
  shows "((\<forall>i\<in>set (managedRedisInstances L m). ri_suffix i = s \<longrightarrow> ri_ha i) \<longrightarrow>
        (\<forall>k\<in>{KStatefulSet, KService, KNetworkPolicy}.
           \<exists>e\<in>set tr. deletedAt k (mnamespace m) (nameRedisInstance m s) e))
    \<and> ((\<forall>i\<in>set (managedRedisInstances L m). ri_suffix i = s \<longrightarrow> \<not> ri_ha i) \<longrightarrow>
        (\<forall>k\<in>{KRedisReplication, KRedisSentinel, KNetworkPolicy}.
           \<exists>e\<in>set tr. deletedAt k (mnamespace m) (nameRedisHA m s) e))"
proof -
  obtain t1 t2 t3 where tr: "tr = t1 @ t2 @ t3"
    and "runs (forE allRedisSuffixes (cleanupRedisSuffix m (managedRedisInstances L m))) t3 (Inr ())"
    using assms(1) unfolding reconcileRedis_def Let_def runs_chk_Inr by auto
  then obtain t where t: "runs (cleanupRedisSuffix m (managedRedisInstances L m) s) t (Inr ())" "set t \<subseteq> set t3"
    using runs_forE_each [OF _ assms(2)] by blast
  from t(2) tr have sub: "set t \<subseteq> set tr" by auto
  show ?thesis
  proof (intro conjI impI ballI)
    show "\<exists>e\<in>set tr. deletedAt k (mnamespace m) (nameRedisInstance m s) e"
      if "\<forall>i\<in>set (managedRedisInstances L m). ri_suffix i = s \<longrightarrow> ri_ha i" "k \<in> {KStatefulSet, KService, KNetworkPolicy}" for k
      using cleanup_complete(1) [OF t(1) that] sub by blast
    show "\<exists>e\<in>set tr. deletedAt k (mnamespace m) (nameRedisHA m s) e"
      if "\<forall>i\<in>set (managedRedisInstances L m). ri_suffix i = s \<longrightarrow> \<not> ri_ha i"
        "k \<in> {KRedisReplication, KRedisSentinel, KNetworkPolicy}" for k
      using cleanup_complete(2) [OF t(1) that] sub by blast
  qed
qed

text \<open>
  C35: the rendered configuration and the provisioned instances agree: the managed Redis
  endpoints of the plan (shared and per role) are, host name and mode, exactly the managed
  instances the operator provisions.
\<close>
theorem redis_endpoints_match_instances:
  "(\<lambda>ep. (re_host ep, re_ha ep)) ` {ep \<in> insert (redisDefault (resolve m)) (snd ` set (redisRolesP (resolve m))). re_managed ep} =
   (\<lambda>i. (if ri_ha i then nameRedisHA m (ri_suffix i) else nameRedisInstance m (ri_suffix i), ri_ha i))
     ` set (managedRedisInstances L m)" (is "?f ` ?E = ?g ` ?I")
proof
  have def: "re_managed (redisDefault (resolve m)) \<longleftrightarrow> rd_external (redis (spec m)) = None"
    "rd_external (redis (spec m)) = None \<Longrightarrow> ?f (redisDefault (resolve m)) = ?g (buildManagedInstance L m [] None (rd_ha (redis (spec m))))"
    by (auto simp: resolveRedis_def externalRedisEndpoint_def managedRedisEndpoint_def zeroEndpoint_def Let_def
        split: option.splits)
  have roles: "snd ` set (redisRolesP (resolve m)) = {ep. \<exists>roles k. rd_roles (redis (spec m)) = Some roles \<and>
      (\<exists>rd\<in>set redisRoleDescs. roleEndpoint m roles rd = Some (k, ep))}"
    by (force simp: resolveRedis_def Let_def set_map_filter_iff split: option.splits)
  show "?f ` ?E \<subseteq> ?g ` ?I"
  proof (intro subsetI, elim imageE)
    fix x ep assume x: "x = ?f ep" and ep: "ep \<in> ?E"
    show "x \<in> ?g ` ?I"
    proof (cases "ep = redisDefault (resolve m)")
      case True
      with ep def x show ?thesis by (auto simp: managedRedisInstances_def Let_def)
    next
      case False
      with ep obtain roles rd k where r: "rd_roles (redis (spec m)) = Some roles" "rd \<in> set redisRoleDescs"
        "roleEndpoint m roles rd = Some (k, ep)" "re_managed ep"
        unfolding roles by auto
      from map_filter_managed(1) [OF r(3,4), of L] r(1,2) x show ?thesis
        by (force simp: managedRedisInstances_def Let_def set_map_filter_iff)
    qed
  qed
  show "?g ` ?I \<subseteq> ?f ` ?E"
  proof (intro subsetI, elim imageE)
    fix x i assume x: "x = ?g i" and "i \<in> ?I"
    then consider "rd_external (redis (spec m)) = None" "i = buildManagedInstance L m [] None (rd_ha (redis (spec m)))"
      | roles rd where "rd_roles (redis (spec m)) = Some roles" "rd \<in> set redisRoleDescs" "roleInstance L m roles rd = Some i"
      by (auto simp: managedRedisInstances_def Let_def set_map_filter_iff split: if_splits option.splits) metis+
    then show "x \<in> ?f ` ?E"
    proof cases
      case 1
      with def x show ?thesis by (metis (no_types, lifting) image_eqI insertI1 mem_Collect_eq)
    next
      case (2 roles rd)
      from map_filter_managed(2) [OF 2(3)] obtain ep where "roleEndpoint m roles rd = Some (rdd_key rd, ep)" "re_managed ep"
        "?f ep = ?g i" by auto
      with 2 have "ep \<in> ?E" "x = ?f ep" unfolding roles using x by auto
      then show ?thesis by blast
    qed
  qed
qed

end
