(* ===== verification/Monitoring.thy ===== *)
theory Monitoring
  imports Redis
begin

section \<open>Prometheus monitors and alerts (monitoring.go)\<close>

text \<open>
  ServiceMonitors, PodMonitors and the PrometheusRule of an instance, applied while monitoring
  is on and deleted otherwise.
\<close>

subsection \<open>Durations as text\<close>

text \<open>\<^verbatim>\<open>time.Duration.String\<close>.\<close>

definition fracDigits :: "int \<Rightarrow> nat \<Rightarrow> string" where
  "fracDigits u prec =
     (let q = u mod 10 ^ prec; ds = itoa q;
          padded = replicate (prec - length ds) (CHR ''0'') @ ds in
      if q = 0 then [] else ''.'' @ trimRightSet padded ''0'')"

definition durationString :: "duration \<Rightarrow> string" where
  "durationString d =
     (let u = \<bar>d\<bar>; s = u div 1000000000 in
      if d = 0 then ''0s''
      else (if d < 0 then ''-'' else []) @
        (if u < 1000 then itoa u @ ''ns''
         else if u < 1000000 then itoa (u div 1000) @ fracDigits u 3 @ [CHR 0xC2, CHR 0xB5] @ ''s''
         else if u < 1000000000 then itoa (u div 1000000) @ fracDigits u 6 @ ''ms''
         else (if s \<ge> 3600 then itoa (s div 3600) @ ''h'' else []) @
              (if s \<ge> 60 then itoa (s div 60 mod 60) @ ''m'' else []) @
              itoa (s mod 60) @ fracDigits u 9 @ ''s''))"

lemma durationString_default: "durationString (48 * hour) = ''48h0m0s''"
  by code_simp

subsection \<open>Builders\<close>

definition monitorLabels :: "misskey \<Rightarrow> string \<Rightarrow> strmap" where
  "monitorLabels m component = mmerge (labelsFor m component) (mo_labels (monitoring (spec m)))"

definition toAnyMap :: "strmap \<Rightarrow> json" where
  "toAnyMap xs = JObj (map (\<lambda>(k, v). (k, JStr v)) xs)"

definition monitorObj :: "misskey \<Rightarrow> kind \<Rightarrow> string \<Rightarrow> string \<Rightarrow> json \<Rightarrow> kobj" where
  "monitorObj m k name component sp =
     setBody (BUnstructured (JObj [(''spec'', sp)]))
       (withLabels (monitorLabels m component) (newObj k (mnamespace m) name))"

definition monitorSelection :: "misskey \<Rightarrow> strmap \<Rightarrow> (string \<times> json) list" where
  "monitorSelection m sel =
     [(''selector'', JObj [(''matchLabels'', toAnyMap sel)]),
      (''namespaceSelector'', JObj [(''matchNames'', JList [JStr (mnamespace m)])])]"

definition authJson :: "(string \<times> string) option \<Rightarrow> (string \<times> json) list" where
  "authJson auth = (case auth of None \<Rightarrow> []
     | Some (n, k) \<Rightarrow> [(''authorization'', JObj [(''credentials'', JObj [(''name'', JStr n), (''key'', JStr k)])])])"

definition buildServiceMonitor ::
  "misskey \<Rightarrow> string \<Rightarrow> string \<Rightarrow> strmap \<Rightarrow> string \<Rightarrow> string \<Rightarrow> (string \<times> string) option \<Rightarrow> kobj" where
  "buildServiceMonitor m name component sel port path auth =
     monitorObj m KServiceMonitor name component (JObj (monitorSelection m sel @
       [(''endpoints'', JList [JObj ([(''port'', JStr port), (''path'', JStr path),
          (''interval'', JStr (monitoringInterval m))] @ authJson auth)])]))"

definition buildPodMonitor ::
  "misskey \<Rightarrow> string \<Rightarrow> string \<Rightarrow> strmap \<Rightarrow> string \<Rightarrow> (string \<times> string) option \<Rightarrow> kobj" where
  "buildPodMonitor m name component sel port auth =
     monitorObj m KPodMonitor name component (JObj (monitorSelection m sel @
       [(''podMetricsEndpoints'', JList [JObj ([(''port'', JStr port),
          (''interval'', JStr (monitoringInterval m))] @ authJson auth)])]))"

definition buildPodMonitorPort :: "misskey \<Rightarrow> string \<Rightarrow> string \<Rightarrow> strmap \<Rightarrow> int64 \<Rightarrow> kobj" where
  "buildPodMonitorPort m name component sel targetPort =
     monitorObj m KPodMonitor name component (JObj (monitorSelection m sel @
       [(''podMetricsEndpoints'', JList [JObj [(''targetPort'', JInt targetPort),
          (''interval'', JStr (monitoringInterval m))]])]))"

definition monitoringRulesEnabled :: "misskey \<Rightarrow> bool" where
  "monitoringRulesEnabled m =
     (case mo_rules (monitoring (spec m)) of None \<Rightarrow> True | Some r \<Rightarrow> boolOr (mr_enabled r) True)"

definition alertRule :: "string \<Rightarrow> string \<Rightarrow> string \<Rightarrow> string \<Rightarrow> json" where
  "alertRule name expr hold summary =
     JObj [(''alert'', JStr name), (''expr'', JStr expr), (''for'', JStr hold),
           (''labels'', JObj [(''severity'', JStr ''warning'')]),
           (''annotations'', JObj [(''summary'', JStr summary)])]"

definition proxyAlert :: "misskey \<Rightarrow> json" where
  "proxyAlert m =
     (let sel = ''namespace='' @ quoteGo (mnamespace m) @ '',service='' @ quoteGo (nameProxy m) in
      alertRule ''MisskeyProxy5xxHigh''
        (''sum(rate(caddy_http_request_duration_seconds_count{'' @ sel @ '',code=~'' @ [dq] @ ''5..'' @ [dq] @
         ''}[5m])) / sum(rate(caddy_http_request_duration_seconds_count{'' @ sel @ ''}[5m])) > 0.05'')
        ''10m''
        (''Misskey '' @ mnamespace m @ ''/'' @ mname m @ '': proxy 5xx ratio above 5% for 10m''))"

definition backupMaxAge :: "misskey \<Rightarrow> duration" where
  "backupMaxAge m = (case mo_rules (monitoring (spec m)) of
     Some r \<Rightarrow> if mr_backupMaxAge r > 0 then mr_backupMaxAge r else 48 * hour | None \<Rightarrow> 48 * hour)"

text \<open>The age in whole seconds (the source truncates a floating-point number of seconds).\<close>

definition backupAlert :: "misskey \<Rightarrow> json" where
  "backupAlert m =
     alertRule ''MisskeyBackupStale''
       (''time() - max(cnpg_collector_last_available_backup_timestamp{namespace='' @ quoteGo (mnamespace m) @
        '',pod=~'' @ [dq] @ ''^'' @ nameDB m @ ''-[0-9]+$'' @ [dq] @ ''}) > '' @ itoa (quot (backupMaxAge m) second))
       ''1h''
       (''Misskey '' @ mnamespace m @ ''/'' @ mname m @ '': no successful base backup within '' @ durationString (backupMaxAge m))"

definition buildPrometheusRule :: "misskey \<Rightarrow> kobj option" where
  "buildPrometheusRule m =
     (let rules = (if boolOr (px_enabled (proxy (spec m))) True then [proxyAlert m] else []) @
                  (if pg_external (postgres (spec m)) = None \<and> pg_backup (postgres (spec m)) \<noteq> None then [backupAlert m] else []) in
      if length rules = 0 then None
      else Some (monitorObj m KPrometheusRule (mname m @ ''-alerts'') ''alerts''
        (JObj [(''groups'', JList [JObj [(''name'', JStr (''cloudnative-misskey.'' @ mname m)), (''rules'', JList rules)]])])))"

subsection \<open>Reconciling\<close>

definition applyOrDelete :: "libs \<Rightarrow> misskey \<Rightarrow> bool \<Rightarrow> kobj \<Rightarrow> (error + unit) io" where
  "applyOrDelete L m on o1 =
     (if on then applySSA L m o1 else deleteIfExists (ko_kind o1) (mnamespace m) (kname o1))"

definition redisMonitor :: "misskey \<Rightarrow> redisManagedInstance \<Rightarrow> kobj" where
  "redisMonitor m inst =
     (let name = nameRedisInstance m (ri_suffix inst) @ ''-metrics''; c = redisComponent (ri_suffix inst) in
      if ri_ha inst then buildPodMonitorPort m name c [(''app'', nameRedisHA m (ri_suffix inst))] redisExporterPort
      else buildServiceMonitor m name c (selectorFor m c) ''metrics'' ''/metrics'' None)"

definition redisMonitors :: "libs \<Rightarrow> misskey \<Rightarrow> (error + unit) io" where
  "redisMonitors L m =
     (let insts = (if monitoringEnabled m then managedRedisInstances L m else []);
          desired = map (\<lambda>i. nameRedisInstance m (ri_suffix i) @ ''-metrics'') insts in
      chk (forE insts (\<lambda>i. applySSA L m (redisMonitor m i))) (\<lambda>_.
      forE allRedisSuffixes (\<lambda>s.
        let name = nameRedisInstance m s @ ''-metrics'' in
        if name \<in> set desired then Ret (Inr ())
        else chk (deleteIfExists KServiceMonitor (mnamespace m) name) (\<lambda>_.
               deleteIfExists KPodMonitor (mnamespace m) name))))"

definition reconcileMonitoring :: "libs \<Rightarrow> misskey \<Rightarrow> plan \<Rightarrow> (error + unit) io" where
  "reconcileMonitoring L m p =
     (let on = monitoringEnabled m in
      chk (applyOrDelete L m (on \<and> dbManaged p)
        (buildPodMonitor m (nameDB m @ ''-metrics'') ''postgres'' [(''cnpg.io/cluster'', nameDB m)] ''metrics'' None)) (\<lambda>_.
      chk (applyOrDelete L m (on \<and> meiliManaged p)
        (buildServiceMonitor m (nameMeili m @ ''-metrics'') ''meilisearch'' (selectorFor m ''meilisearch'') ''http'' ''/metrics''
          (Some (sel_name (meiliKeySel p), sel_key (meiliKeySel p))))) (\<lambda>_.
      chk (applyOrDelete L m (on \<and> boolOr (px_enabled (proxy (spec m))) True)
        (buildServiceMonitor m (nameProxy m @ ''-metrics'') ''proxy'' (selectorFor m ''proxy'') ''metrics'' ''/metrics'' None)) (\<lambda>_.
      chk (redisMonitors L m) (\<lambda>_.
      case buildPrometheusRule m of
        Some rule \<Rightarrow> if on \<and> monitoringRulesEnabled m then applySSA L m rule
                     else deleteIfExists KPrometheusRule (mnamespace m) (mname m @ ''-alerts'')
      | None \<Rightarrow> deleteIfExists KPrometheusRule (mnamespace m) (mname m @ ''-alerts''))))))"

subsection \<open>Footprint\<close>

definition monitorKinds :: "kind set" where
  "monitorKinds = {KServiceMonitor, KPodMonitor, KPrometheusRule}"

lemma monitor_keys [simp]:
  "ko_kind (monitorObj m k n c sp) = k" "kname (monitorObj m k n c sp) = n" "knamespace (monitorObj m k n c sp) = mnamespace m"
  by (simp_all add: monitorObj_def)

lemma monitor_built [simp]:
  "ko_kind (buildServiceMonitor m n c s pt pa au) = KServiceMonitor" "knamespace (buildServiceMonitor m n c s pt pa au) = mnamespace m"
  "ko_kind (buildPodMonitor m n c s pt au) = KPodMonitor" "knamespace (buildPodMonitor m n c s pt au) = mnamespace m"
  "ko_kind (redisMonitor m i) = (if ri_ha i then KPodMonitor else KServiceMonitor)" "knamespace (redisMonitor m i) = mnamespace m"
  "kname (redisMonitor m i) = nameRedisInstance m (ri_suffix i) @ ''-metrics''"
  by (simp_all add: buildServiceMonitor_def buildPodMonitor_def buildPodMonitorPort_def redisMonitor_def Let_def)

lemma reconcileMonitoring_within [foot_intros]:
  assumes "stable_owner L"
  shows "calls (within m (\<lambda>k n. k \<in> monitorKinds)) (reconcileMonitoring L m p)"
  unfolding reconcileMonitoring_def redisMonitors_def applyOrDelete_def buildPrometheusRule_def Let_def
  by (intro struct_intros applySSA_within [OF assms] deleteIfExists_within) (auto simp: monitorKinds_def split: if_splits)

subsection \<open>A monitor that is left behind\<close>

text \<open>
  With monitoring on, a managed instance in HA mode keeps the ServiceMonitor it had as a
  standalone one: the cleanup skips both monitor kinds of every desired name, so switching
  the mode leaves the old monitor in place.
\<close>
theorem redis_monitor_of_other_mode_kept:
  assumes "monitoringEnabled m" "i \<in> set (managedRedisInstances L m)" "runs (redisMonitors L m) tr res"
  shows "(QDelete k ns (nameRedisInstance m (ri_suffix i) @ ''-metrics'') pol, r) \<notin> set tr"
proof -
  let ?n = "nameRedisInstance m (ri_suffix i) @ ''-metrics''"
  have "calls (\<lambda>q. \<forall>k ns pol. q \<noteq> QDelete k ns ?n pol) (redisMonitors L m)"
    unfolding redisMonitors_def Let_def
    by (intro struct_intros applySSA_calls deleteIfExists_calls) (use assms(1,2) in auto)
  from calls_runs [OF this assms(3)] show ?thesis by blast
qed

end
