(* ===== verification/Postgres.thy ===== *)
theory Postgres
  imports Monitoring
begin

section \<open>PostgreSQL and restore tests (postgres.go, backupverify.go)\<close>

text \<open>
  The CloudNativePG Cluster, its poolers and scheduled backup, and the periodic restore test
  of a backup in a throw-away Cluster. The properties tie the Cluster to the connection data
  of the plan and show that a restore test records its outcome before its evidence is
  deleted, reports a success only for a Cluster seen ready, and never touches the database
  itself.
\<close>

subsection \<open>The Cluster\<close>

definition recoveryOriginName :: string where "recoveryOriginName = ''origin''"

definition secretRefJson :: "secretKeySelector \<Rightarrow> json" where
  "secretRefJson s = JObj [(''name'', JStr (sel_name s)), (''key'', JStr (sel_key s))]"

definition s3CredentialsMap :: "s3Credentials \<Rightarrow> json" where
  "s3CredentialsMap c =
     JObj [(''accessKeyId'', secretRefJson (s3_accessKeyId c)), (''secretAccessKey'', secretRefJson (s3_secretAccessKey c))]"

definition optStr :: "string \<Rightarrow> string \<Rightarrow> (string \<times> json) list" where
  "optStr k v = (if v \<noteq> [] then [(k, JStr v)] else [])"

definition optCredentials :: "s3Credentials option \<Rightarrow> (string \<times> json) list" where
  "optCredentials c = (case c of Some c \<Rightarrow> [(''s3Credentials'', s3CredentialsMap c)] | None \<Rightarrow> [])"

definition databaseOf :: "misskey \<Rightarrow> string" where
  "databaseOf m = stringOr (pg_database (postgres (spec m))) ''misskey''"

definition ownerOf :: "misskey \<Rightarrow> string" where
  "ownerOf m = stringOr (pg_owner (postgres (spec m))) ''misskey''"

definition recoveryFields :: "misskey \<Rightarrow> postgresRecovery \<Rightarrow> (string \<times> json) list" where
  "recoveryFields m rec =
     (let src = rc_source rec in
      [(''bootstrap'', JObj [(''recovery'', JObj
          ([(''source'', JStr recoveryOriginName), (''database'', JStr (databaseOf m)), (''owner'', JStr (ownerOf m))] @
           (if rc_targetTime rec \<noteq> [] then [(''recoveryTarget'', JObj [(''targetTime'', JStr (rc_targetTime rec))])] else [])))]),
       (''externalClusters'', JList [JObj [(''name'', JStr recoveryOriginName), (''barmanObjectStore'', JObj
          ([(''destinationPath'', JStr (rs_destinationPath src)), (''serverName'', JStr (rs_serverName src)),
            (''wal'', JObj [(''maxParallel'', JInt 8)])] @
           optStr ''endpointURL'' (rs_endpointURL src) @ optCredentials (rs_s3Credentials src)))]])])"

definition importFields :: "misskey \<Rightarrow> (string \<times> json) list \<times> (string \<times> json) list" where
  "importFields m =
     (case pg_import (postgres (spec m)) of
        None \<Rightarrow> ([], [])
      | Some i \<Rightarrow>
          (let src = im_source i in
           ([(''import'', JObj [(''type'', JStr ''microservice''), (''databases'', JList [JStr (is_database src)]),
               (''source'', JObj [(''externalCluster'', JStr recoveryOriginName)])])],
            [(''externalClusters'', JList [JObj
               [(''name'', JStr recoveryOriginName),
                (''connectionParameters'', JObj
                  [(''host'', JStr (is_host src)), (''port'', JStr (itoa (int32OrDefault (is_port src) 5432))),
                   (''user'', JStr (is_user src)), (''dbname'', JStr (is_database src)),
                   (''sslmode'', JStr (stringOr (is_sslMode src) ''prefer''))]),
                (''password'', secretRefJson (is_passwordSecret src))]])])))"

definition initdbFields :: "misskey \<Rightarrow> (string \<times> json) list" where
  "initdbFields m =
     snd (importFields m) @
     [(''bootstrap'', JObj [(''initdb'', JObj
        ([(''database'', JStr (databaseOf m)), (''owner'', JStr (ownerOf m))] @
         (if se_provider (search (spec m)) = SearchSQLPgroonga
          then [(''postInitApplicationSQL'', JList [JStr ''CREATE EXTENSION IF NOT EXISTS pgroonga''])] else []) @
         fst (importFields m)))])]"

definition optResources :: "libs \<Rightarrow> resourceRequirements \<Rightarrow> (string \<times> json) list" where
  "optResources L r = (case l_toUnstructured L r of
     Inr fs \<Rightarrow> if length fs > 0 then [(''resources'', JObj fs)] else [] | Inl _ \<Rightarrow> [])"

definition backupFields :: "misskey \<Rightarrow> (string \<times> json) list" where
  "backupFields m =
     (case pg_backup (postgres (spec m)) of
        None \<Rightarrow> []
      | Some b \<Rightarrow> [(''backup'', JObj
          [(''barmanObjectStore'', JObj
             ([(''destinationPath'', JStr (bk_destinationPath b)), (''wal'', JObj [(''compression'', JStr ''gzip'')]),
               (''data'', JObj [(''compression'', JStr ''gzip'')])] @
              optStr ''endpointURL'' (bk_endpointURL b) @ optStr ''serverName'' (bk_serverName b) @
              optCredentials (bk_s3Credentials b))),
           (''retentionPolicy'', JStr (stringOr (bk_retentionPolicy b) ''30d''))])])"

definition clusterBase :: "libs \<Rightarrow> misskey \<Rightarrow> int \<Rightarrow> string \<Rightarrow> (string \<times> json) list" where
  "clusterBase L m instances component =
     (let pg = postgres (spec m) in
      [(''instances'', JInt instances),
       (''imageName'', JStr (stringOr (pg_image pg) ''ghcr.io/cloudnative-pg/postgresql:17'')),
       (''inheritedMetadata'', JObj [(''labels'', toAnyMap (labelsFor m component))]),
       (''storage'', JObj ([(''size'', JStr (l_quantityString L (quantityOr L (pg_storage pg) ''20Gi'')))] @
          (case pg_storageClassName pg of Some c \<Rightarrow> optStr ''storageClass'' c | None \<Rightarrow> [])))])"

definition cnpgObject :: "misskey \<Rightarrow> kind \<Rightarrow> string \<Rightarrow> string \<Rightarrow> (string \<times> json) list \<Rightarrow> kobj" where
  "cnpgObject m k name component fs =
     setBody (BUnstructured (JObj [(''spec'', JObj fs)]))
       (withLabels (labelsFor m component) (newObj k (mnamespace m) name))"

definition buildDBCluster :: "libs \<Rightarrow> misskey \<Rightarrow> kobj" where
  "buildDBCluster L m =
     (let pg = postgres (spec m) in
      cnpgObject m KCnpgCluster (nameDB m) ''postgres''
        (clusterBase L m (int32OrDefault (pg_instances pg) 1) ''postgres'' @
         (case pg_recovery pg of Some rec \<Rightarrow> recoveryFields m rec | None \<Rightarrow> initdbFields m) @
         (if length (pg_parameters pg) > 0
          then [(''postgresql'', JObj [(''parameters'', toAnyMap (pg_parameters pg))])] else []) @
         optResources L (pg_resources pg) @ backupFields m))"

definition buildDBScheduledBackup :: "misskey \<Rightarrow> postgresBackup \<Rightarrow> kobj" where
  "buildDBScheduledBackup m b =
     cnpgObject m KCnpgScheduledBackup (nameDB m) ''postgres''
       [(''schedule'', JStr (bk_schedule b)), (''backupOwnerReference'', JStr ''self''),
        (''cluster'', JObj [(''name'', JStr (nameDB m))])]"

definition reconcilePostgres :: "libs \<Rightarrow> misskey \<Rightarrow> (error + unit) io" where
  "reconcilePostgres L m =
     chk (applySSA L m (buildDBCluster L m)) (\<lambda>_.
       case pg_backup (postgres (spec m)) of
         None \<Rightarrow> Ret (Inr ())
       | Some b \<Rightarrow> if bk_schedule b = [] then Ret (Inr ()) else applySSA L m (buildDBScheduledBackup m b))"

subsection \<open>Poolers\<close>

definition poolerParameters :: "postgresPooler \<Rightarrow> strmap" where
  "poolerParameters pc =
     mmerge [(''max_client_conn'', ''1000''), (''default_pool_size'', ''25''),
             (''ignore_startup_parameters'',
              ''statement_timeout,extra_float_digits,search_path,options,idle_in_transaction_session_timeout'')]
       (pl_parameters pc)"

definition buildPooler :: "libs \<Rightarrow> misskey \<Rightarrow> postgresPooler \<Rightarrow> string \<Rightarrow> string \<Rightarrow> kobj" where
  "buildPooler L m pc name poolerType =
     cnpgObject m KCnpgPooler name ''postgres-pooler''
       [(''cluster'', JObj [(''name'', JStr (nameDB m))]),
        (''instances'', JInt (int32OrDefault (pl_instances pc) 2)),
        (''type'', JStr poolerType),
        (''template'', JObj ([(''metadata'', JObj [(''labels'', toAnyMap (labelsFor m ''postgres-pooler''))])] @
          (case optResources L (pl_resources pc) of
             [] \<Rightarrow> []
           | res \<Rightarrow> [(''spec'', JObj [(''containers'', JList [JObj ((''name'', JStr ''pgbouncer'') # res)])])]))),
        (''pgbouncer'', JObj [(''poolMode'', JStr (stringOr (pl_poolMode pc) ''transaction'')),
          (''parameters'', toAnyMap (poolerParameters pc))])]"

definition deletePooler :: "misskey \<Rightarrow> string \<Rightarrow> (error + unit) io" where
  "deletePooler m name = deleteIfExists KCnpgPooler (mnamespace m) name"

definition reconcilePoolers :: "libs \<Rightarrow> misskey \<Rightarrow> (error + unit) io" where
  "reconcilePoolers L m =
     (case pg_pooler (postgres (spec m)) of
        Some pc \<Rightarrow>
          chk (applySSA L m (buildPooler L m pc (nameDBPoolerRW m) ''rw'')) (\<lambda>_.
            if readOffloadActive m then applySSA L m (buildPooler L m pc (nameDBPoolerRO m) ''ro'')
            else deletePooler m (nameDBPoolerRO m))
      | None \<Rightarrow>
          chk (deletePooler m (nameDBPoolerRW m)) (\<lambda>_. deletePooler m (nameDBPoolerRO m)))"

subsection \<open>Restore tests\<close>

definition backupVerifyDue :: "misskey \<Rightarrow> duration \<Rightarrow> gotime \<Rightarrow> bool" where
  "backupVerifyDue m interval now =
     (case st_backupVerification (status m) of
        None \<Rightarrow> True
      | Some v \<Rightarrow> vs_lastVerifiedTime v = 0 \<or> timeSub now (vs_lastVerifiedTime v) \<ge> interval)"

definition buildDBVerifyCluster :: "libs \<Rightarrow> misskey \<Rightarrow> postgresBackup \<Rightarrow> kobj" where
  "buildDBVerifyCluster L m b =
     cnpgObject m KCnpgCluster (nameDBVerify m) ''postgres-verify''
       (clusterBase L m 1 ''postgres-verify'' @
        [(''bootstrap'', JObj [(''recovery'', JObj [(''source'', JStr recoveryOriginName)])]),
         (''externalClusters'', JList [JObj [(''name'', JStr recoveryOriginName), (''barmanObjectStore'', JObj
            ([(''destinationPath'', JStr (bk_destinationPath b)), (''serverName'', JStr (stringOr (bk_serverName b) (nameDB m))),
              (''wal'', JObj [(''maxParallel'', JInt 8)])] @
             optStr ''endpointURL'' (bk_endpointURL b) @ optCredentials (bk_s3Credentials b)))]])])"

text \<open>On success the caller's object carries the recorded outcome as well.\<close>

definition recordBackupVerification :: "libs \<Rightarrow> misskey \<Rightarrow> string \<Rightarrow> string \<Rightarrow> gotime \<Rightarrow> (error + misskey) io" where
  "recordBackupVerification L m outcome message now =
     (let v = \<lparr>vs_lastVerifiedTime = now, vs_result = outcome, vs_message = message\<rparr> in
      retryOnConflict (l_retrySteps L)
        (chk (getMisskey (mnamespace m) (mname m)) (\<lambda>cur.
         chk (kstatusUpdate (misskeyObj (cur\<lparr>status := (status cur)\<lparr>st_backupVerification := Some v\<rparr>\<rparr>))) (\<lambda>_.
           Ret (Inr (m\<lparr>status := (status m)\<lparr>st_backupVerification := Some v\<rparr>\<rparr>))))))"

definition finishVerify ::
  "libs \<Rightarrow> misskey \<Rightarrow> string \<Rightarrow> string \<Rightarrow> gotime \<Rightarrow> eventType \<Rightarrow> string \<Rightarrow> string \<Rightarrow> (error + misskey) io" where
  "finishVerify L m outcome message now ty reason note =
     chk (recordBackupVerification L m outcome message now) (\<lambda>m'.
       eventThen L ty reason ''VerifyBackup'' note
         (chk (deleteIfExists KCnpgCluster (mnamespace m) (nameDBVerify m)) (\<lambda>_. Ret (Inr m'))))"

definition verifyStart :: "libs \<Rightarrow> misskey \<Rightarrow> postgresBackup \<Rightarrow> backupVerify \<Rightarrow> gotime \<Rightarrow> (error + misskey) io" where
  "verifyStart L m b v now =
     (let interval = (if bv_interval v \<le> 0 then 168 * hour else bv_interval v) in
      if \<not> backupVerifyDue m interval now then Ret (Inr m)
      else chk (applySSA L m (buildDBVerifyCluster L m b)) (\<lambda>_.
        eventThen L EventNormal ''BackupVerifyStarted'' ''VerifyBackup''
          (''created restore test cluster '' @ nameDBVerify m) (Ret (Inr m))))"

definition verifyProgress ::
  "libs \<Rightarrow> misskey \<Rightarrow> postgresBackup \<Rightarrow> backupVerify \<Rightarrow> gotime \<Rightarrow> kobj \<Rightarrow> (error + misskey) io" where
  "verifyProgress L m b v now cluster =
     (let timeout = (if bv_timeout v \<le> 0 then 30 * minute else bv_timeout v);
          msg = ''restore test cluster not ready within '' @ durationString timeout in
      if nestedInt64 cluster [''status'', ''readyInstances''] \<ge> 1 then
        finishVerify L m ''Succeeded'' ''restore test cluster became ready'' now EventNormal ''BackupVerified''
          (''restore test from '' @ bk_destinationPath b @ '' succeeded'')
      else if timeSub now (om_creationTimestamp (ko_meta cluster)) > timeout then
        finishVerify L m ''Failed'' msg now EventWarning ''BackupVerifyFailed'' msg
      else Ret (Inr m))"

definition verifyStep :: "libs \<Rightarrow> misskey \<Rightarrow> postgresBackup \<Rightarrow> backupVerify \<Rightarrow> (error + misskey) io" where
  "verifyStep L m b v =
     bnd (kget KCnpgCluster (mnamespace m) (nameDBVerify m)) (\<lambda>r. case r of
       Inl e \<Rightarrow> if isNotFound e then bnd timeNow (verifyStart L m b v) else Ret (Inl e)
     | Inr cluster \<Rightarrow> bnd timeNow (\<lambda>now. verifyProgress L m b v now cluster))"

definition reconcileBackupVerify :: "libs \<Rightarrow> misskey \<Rightarrow> (error + misskey) io" where
  "reconcileBackupVerify L m =
     (case (case pg_backup (postgres (spec m)) of Some b \<Rightarrow> map_option (Pair b) (bk_verify b) | None \<Rightarrow> None) of
        None \<Rightarrow> chk (deleteIfExists KCnpgCluster (mnamespace m) (nameDBVerify m)) (\<lambda>_. Ret (Inr m))
      | Some (b, v) \<Rightarrow> verifyStep L m b v)"

subsection \<open>What the reconcilers may write\<close>

lemma cnpg_keys [simp]:
  "ko_kind (cnpgObject m k n c fs) = k" "knamespace (cnpgObject m k n c fs) = mnamespace m" "kname (cnpgObject m k n c fs) = n"
  by (simp_all add: cnpgObject_def)

lemmas cnpg_builders = buildDBCluster_def buildDBScheduledBackup_def buildPooler_def buildDBVerifyCluster_def

lemma reconcilePostgres_within [foot_intros]:
  assumes "stable_owner L"
  shows "calls (within m (\<lambda>k n. k \<in> {KCnpgCluster, KCnpgScheduledBackup} \<and> n = nameDB m)) (reconcilePostgres L m)"
  unfolding reconcilePostgres_def cnpg_builders Let_def
  by (intro struct_intros applySSA_within [OF assms]) auto

lemma reconcilePoolers_within [foot_intros]:
  assumes "stable_owner L"
  shows "calls (within m (\<lambda>k n. k = KCnpgPooler)) (reconcilePoolers L m)"
  unfolding reconcilePoolers_def deletePooler_def cnpg_builders
  by (intro struct_intros applySSA_within [OF assms] deleteIfExists_within) auto

definition verifyWrites :: "misskey \<Rightarrow> kind \<Rightarrow> string \<Rightarrow> bool" where
  "verifyWrites m k n \<longleftrightarrow> k = KCnpgCluster \<and> n = nameDBVerify m \<or> k = KMisskey \<and> n = mname m"

lemma recordBackupVerification_within:
  "calls (within m (verifyWrites m)) (recordBackupVerification L m outcome msg now)"
  unfolding recordBackupVerification_def Let_def
  by (intro calls_retryOnConflict calls_getMisskey struct_intros)
     (auto simp: within_def verifyWrites_def misskeyObj_def)

lemma verifyStep_within:
  assumes "stable_owner L"
  shows "calls (within m (verifyWrites m)) (verifyStep L m b v)"
  unfolding verifyStep_def verifyStart_def verifyProgress_def finishVerify_def buildDBVerifyCluster_def Let_def
  by (intro struct_intros applySSA_within [OF assms] deleteIfExists_within recordBackupVerification_within)
     (auto simp: verifyWrites_def)

lemma backupVerify_within [foot_intros]:
  "stable_owner L \<Longrightarrow> calls (within m (verifyWrites m)) (reconcileBackupVerify L m)"
  unfolding reconcileBackupVerify_def
  by (auto intro!: verifyStep_within struct_intros deleteIfExists_within simp: verifyWrites_def split: option.splits)

text \<open>The object the later steps get differs at most in its status.\<close>

lemma recordBackupVerification_result:
  assumes "runs (recordBackupVerification L m outcome msg now) tr (Inr m')"
  shows "\<exists>cur v. m' = m\<lparr>status := (status m)\<lparr>st_backupVerification := Some v\<rparr>\<rparr> \<and> vs_result v = outcome \<and>
    (QStatusUpdate (misskeyObj (cur\<lparr>status := (status cur)\<lparr>st_backupVerification := Some v\<rparr>\<rparr>)), ROk) \<in> set tr"
  using retryOnConflict_success [OF assms [unfolded recordBackupVerification_def Let_def]]
  by (force simp: runs_chk_Inr kstatusUpdate_def runs_Call_iff)

lemma backupVerify_frame:
  assumes "runs (reconcileBackupVerify L m) tr (Inr m')"
  shows "\<exists>s. m' = m\<lparr>status := s\<rparr>"
proof -
  have self: "\<exists>s. m = m\<lparr>status := s\<rparr>" by (rule exI [of _ "status m"]) simp
  have fin: "\<exists>s. m' = m\<lparr>status := s\<rparr>" if "runs (finishVerify L m a b now ty c d) t (Inr m')" for a b now ty c d t
    using that unfolding finishVerify_def runs_chk_Inr
    by (auto dest!: recordBackupVerification_result eventThen_runs simp: runs_chk_Inr)
  have prog: "\<exists>s. m' = m\<lparr>status := s\<rparr>" if "runs (verifyProgress L m b v now c) t (Inr m')" for b v now c t
    using that fin self unfolding verifyProgress_def Let_def by (auto split: if_splits)
  have start: "\<exists>s. m' = m\<lparr>status := s\<rparr>" if "runs (verifyStart L m b v now) t (Inr m')" for b v now t
    using that self unfolding verifyStart_def Let_def by (auto simp: runs_chk_Inr split: if_splits dest!: eventThen_runs)
  have step: "\<exists>s. m' = m\<lparr>status := s\<rparr>" if "runs (verifyStep L m b v) t (Inr m')" for b v t
    using that unfolding verifyStep_def
    by (cases rule: runs_kget) (use prog start in \<open>auto simp: runs_bnd split: if_splits\<close>)
  show ?thesis using assms step self unfolding reconcileBackupVerify_def
    by (auto simp: runs_chk_Inr split: option.splits prod.splits)
qed

subsection \<open>Properties\<close>

text \<open>
  \<open>verifyRecorded outcome\<close>: a restore-test outcome was stored in the status;
  \<open>verifyRemoved m\<close>: the throw-away Cluster is deleted.
\<close>

definition verifyRecorded :: "string \<Rightarrow> req \<times> resp \<Rightarrow> bool" where
  "verifyRecorded outcome e \<longleftrightarrow> (\<exists>cur v. vs_result v = outcome \<and>
     fst e = QStatusUpdate (misskeyObj (cur\<lparr>status := (status cur)\<lparr>st_backupVerification := Some v\<rparr>\<rparr>)))"

definition verifyRemoved :: "misskey \<Rightarrow> req \<times> resp \<Rightarrow> bool" where
  "verifyRemoved m e \<longleftrightarrow> (\<exists>pol. fst e = QDelete KCnpgCluster (mnamespace m) (nameDBVerify m) pol)"

definition readySeen :: "misskey \<Rightarrow> req \<times> resp \<Rightarrow> bool" where
  "readySeen m e \<longleftrightarrow> (\<exists>c. e = (QGet KCnpgCluster (mnamespace m) (nameDBVerify m), RObj c) \<and>
     nestedInt64 c [''status'', ''readyInstances''] \<ge> 1)"

lemma record_calls:
  "(\<And>k ns n. P (QGet k ns n)) \<Longrightarrow> (\<And>cur t. P (QStatusUpdate (misskeyObj (cur\<lparr>status := (status cur)\<lparr>st_backupVerification :=
      Some \<lparr>vs_lastVerifiedTime = t, vs_result = outcome, vs_message = msg\<rparr>\<rparr>\<rparr>)))) \<Longrightarrow>
     calls P (recordBackupVerification L m outcome msg now)"
  unfolding recordBackupVerification_def getMisskey_def Let_def
  by (intro calls_retryOnConflict struct_intros) auto

lemma guarded_timeNow:
  "(\<And>r. \<not> W (QNow, r)) \<Longrightarrow> (\<And>t. guarded W G (f t)) \<Longrightarrow> guarded W G (bnd timeNow f)"
  by (rule guarded_bnd) (auto simp: timeNow_def guarded_def runs_Call_iff)

lemma finishVerify_recorded:
  "guarded (verifyRemoved m) (\<lambda>e. snd e = ROk \<and> (\<exists>o1. verifyRecorded o1 e)) (finishVerify L m outcome msg now ty a b)"
  unfolding finishVerify_def
proof (rule guarded_chk_seen)
  show "guarded (verifyRemoved m) (\<lambda>e. snd e = ROk \<and> (\<exists>o1. verifyRecorded o1 e)) (recordBackupVerification L m outcome msg now)"
    by (rule guarded_quiet [of "\<lambda>q. \<forall>r. \<not> verifyRemoved m (q, r)"]) (auto intro!: record_calls simp: verifyRemoved_def)
  fix t m'
  assume "runs (recordBackupVerification L m outcome msg now) t (Inr m')"
  from recordBackupVerification_result [OF this]
  have "\<exists>e\<in>set t. snd e = ROk \<and> verifyRecorded outcome e" by (force simp: verifyRecorded_def)
  then show "(\<exists>e\<in>set t. snd e = ROk \<and> (\<exists>o1. verifyRecorded o1 e)) \<or>
      guarded (verifyRemoved m) (\<lambda>e. snd e = ROk \<and> (\<exists>o1. verifyRecorded o1 e))
        (eventThen L ty a ''VerifyBackup'' b
          (chk (deleteIfExists KCnpgCluster (mnamespace m) (nameDBVerify m)) (\<lambda>_. Ret (Inr m'))))" by blast
qed

lemma misskeyObj_status_inject:
  "misskeyObj (c\<lparr>status := (status c)\<lparr>st_backupVerification := Some v\<rparr>\<rparr>) =
   misskeyObj (d\<lparr>status := (status d)\<lparr>st_backupVerification := Some w\<rparr>\<rparr>) \<Longrightarrow> v = w"
  by (auto simp: misskeyObj_def dest!: arg_cong [of _ _ st_backupVerification])

text \<open>
  C40: a restore test leaves its result. While restore tests are on, the throw-away Cluster is
  deleted only after an outcome was stored in the status; the outcome \<^verbatim>\<open>Succeeded\<close> is written
  only after the Cluster was seen with a ready instance; and the test never writes to the
  database's own Cluster or to anything but the throw-away Cluster and the status.
\<close>
theorem restore_test_leaves_result:
  assumes "runs (reconcileBackupVerify L m) tr res" "stable_owner L"
    and "pg_backup (postgres (spec m)) = Some b" "bk_verify b = Some v"
  shows "gated (verifyRemoved m) (\<lambda>e. snd e = ROk \<and> (\<exists>o1. verifyRecorded o1 e)) tr
    \<and> gated (verifyRecorded ''Succeeded'') (readySeen m) tr
    \<and> (\<forall>q r k ns n. (q, r) \<in> set tr \<longrightarrow> writes q = Some (k, ns, n) \<longrightarrow>
         ns = mnamespace m \<and> (k = KCnpgCluster \<and> n = nameDBVerify m \<or> k = KMisskey \<and> n = mname m))"
proof (intro conjI allI impI)
  let ?G = "\<lambda>e. snd e = ROk \<and> (\<exists>o1. verifyRecorded o1 e)"
  have step: "runs (verifyStep L m b v) tr res" using assms by (simp add: reconcileBackupVerify_def)
  have start: "guarded (verifyRemoved m) ?G (verifyStart L m b v now)" for now
    unfolding verifyStart_def Let_def
    by (rule guarded_quiet [of "\<lambda>q. \<forall>r. \<not> verifyRemoved m (q, r)"]) (auto intro!: calls_intros simp: verifyRemoved_def)
  have "guarded (verifyRemoved m) ?G (verifyStep L m b v)"
    unfolding verifyStep_def verifyProgress_def Let_def
    by (rule guarded_kget) (auto intro!: guarded_timeNow guarded_if guarded_Ret finishVerify_recorded start simp: verifyRemoved_def)
  from guardedD [OF this step] show "gated (verifyRemoved m) ?G tr" .
  have fail: "guarded (verifyRecorded ''Succeeded'') (readySeen m) (finishVerify L m ''Failed'' msg now ty a c)" for msg now ty a c
    unfolding finishVerify_def
    by (rule guarded_quiet [of "\<lambda>q. \<forall>r. \<not> verifyRecorded ''Succeeded'' (q, r)"])
       (auto intro!: calls_intros record_calls simp: verifyRecorded_def dest!: misskeyObj_status_inject)
  have start': "guarded (verifyRecorded ''Succeeded'') (readySeen m) (verifyStart L m b v now)" for now
    unfolding verifyStart_def Let_def
    by (rule guarded_quiet [of "\<lambda>q. \<forall>r. \<not> verifyRecorded ''Succeeded'' (q, r)"]) (auto intro!: calls_intros simp: verifyRecorded_def)
  have "guarded (verifyRecorded ''Succeeded'') (readySeen m) (verifyStep L m b v)"
    unfolding verifyStep_def verifyProgress_def Let_def
    by (rule guarded_kget) (auto intro!: guarded_timeNow guarded_if guarded_Ret fail start' simp: verifyRecorded_def readySeen_def)
  from guardedD [OF this step] show "gated (verifyRecorded ''Succeeded'') (readySeen m) tr" .
  fix q r k ns n
  assume "(q, r) \<in> set tr" "writes q = Some (k, ns, n)"
  from within_run [OF backupVerify_within [OF assms(2)] assms(1) this]
  show "ns = mnamespace m" "k = KCnpgCluster \<and> n = nameDBVerify m \<or> k = KMisskey \<and> n = mname m"
    by (auto simp: verifyWrites_def)
qed

end
