(* ===== verification/Tenancy.thy ===== *)
theory Tenancy
  imports Redis
begin

section \<open>Isolation and quotas (tenancy.go)\<close>

text \<open>
  The NetworkPolicies that isolate an instance, and the ResourceQuota and LimitRange of a
  dedicated namespace. The properties read the generated selectors with the documented
  meaning of a label selector: which Pods a policy applies to and which peers it admits.
\<close>

definition instanceLabel :: string where "instanceLabel = ''app.kubernetes.io/instance''"
definition componentLabel :: string where "componentLabel = ''app.kubernetes.io/component''"

definition byLabels :: "strmap \<Rightarrow> labelSelector" where
  "byLabels ls = \<lparr>ls_matchLabels = ls, ls_matchExpressions = []\<rparr>"

definition networkPolicyOf :: "kobj \<Rightarrow> networkPolicyObj" where
  "networkPolicyOf x = (case ko_body x of BNetworkPolicy o1 \<Rightarrow> o1
     | _ \<Rightarrow> \<lparr>npo_podSelector = byLabels [], npo_policyTypes = [], npo_ingress = [], npo_egress = []\<rparr>)"

definition ofInstance :: "misskey \<Rightarrow> selectorRequirement \<Rightarrow> labelSelector" where
  "ofInstance m req = \<lparr>ls_matchLabels = [(instanceLabel, mname m)], ls_matchExpressions = [req]\<rparr>"

definition publicEntry :: "misskey \<Rightarrow> string" where
  "publicEntry m = (if \<not> boolOr (px_enabled (proxy (spec m))) True then roleApp else ''proxy'')"

definition isolationPeers :: "misskey \<Rightarrow> networkPeer list" where
  "isolationPeers m =
     PodPeer (byLabels [(instanceLabel, mname m)]) #
     map (\<lambda>ns. NamespacePeer (byLabels [(nsNameLabel, ns)])) (ni_allowedNamespaces (nw_isolation (network (spec m))))"

definition reconcileNetworkIsolation :: "libs \<Rightarrow> misskey \<Rightarrow> (error + unit) io" where
  "reconcileNetworkIsolation L m =
     (if \<not> boolOr (ni_enabled (nw_isolation (network (spec m)))) True
      then deleteIfExists KNetworkPolicy (mnamespace m) (mname m @ ''-isolation'')
      else applyObj L m (newObj KNetworkPolicy (mnamespace m) (mname m @ ''-isolation'')) (\<lambda>np.
        ret (setBody (BNetworkPolicy ((networkPolicyOf np)\<lparr>
            npo_podSelector := ofInstance m (SelNotIn componentLabel [publicEntry m, ''postgres'']),
            npo_policyTypes := [''Ingress''],
            npo_ingress := [\<lparr>nr_peers = isolationPeers m, nr_ports = []\<rparr>]\<rparr>))
          (withLabels (labelsFor m ''isolation'') np))))"

subsection \<open>Egress\<close>

definition egressCommonRules :: "misskey \<Rightarrow> networkRule list" where
  "egressCommonRules m =
     (let eg = nw_egressIsolation (network (spec m)) in
      [\<lparr>nr_peers = [NamespacePeer (byLabels [(nsNameLabel, stringOr (eg_dnsNamespace eg) ''kube-system'')])],
        nr_ports = [\<lparr>np_protocol = ''UDP'', np_port = 53\<rparr>, \<lparr>np_protocol = ''TCP'', np_port = 53\<rparr>]\<rparr>,
       \<lparr>nr_peers = [PodPeer (byLabels [(instanceLabel, mname m)])], nr_ports = []\<rparr>] @
      map (\<lambda>ns. \<lparr>nr_peers = [NamespacePeer (byLabels [(nsNameLabel, ns)])], nr_ports = []\<rparr>) (eg_allowedNamespaces eg))"

definition dbEgressRule :: "misskey \<Rightarrow> networkRule" where
  "dbEgressRule m = \<lparr>nr_peers = [PodPeer (byLabels [(''cnpg.io/cluster'', nameDB m)])], nr_ports = []\<rparr>"

definition redisHAPodApps :: "libs \<Rightarrow> misskey \<Rightarrow> string list" where
  "redisHAPodApps L m =
     concat (map (\<lambda>i. if ri_ha i then [nameRedisHA m (ri_suffix i), nameRedisSentinelService m (ri_suffix i)] else [])
       (managedRedisInstances L m))"

definition redisEgressRule :: "libs \<Rightarrow> misskey \<Rightarrow> networkRule option" where
  "redisEgressRule L m =
     (let apps = redisHAPodApps L m in
      if length apps = 0 then None
      else Some \<lparr>nr_peers = [PodPeer \<lparr>ls_matchLabels = [], ls_matchExpressions = [SelIn ''app'' apps]\<rparr>], nr_ports = []\<rparr>)"

definition publicEgressRule :: networkRule where
  "publicEgressRule = \<lparr>nr_peers = [IPBlockPeer ''0.0.0.0/0''
     [''10.0.0.0/8'', ''172.16.0.0/12'', ''192.168.0.0/16'', ''100.64.0.0/10'', ''169.254.0.0/16'']], nr_ports = []\<rparr>"

definition frontendSelector :: "misskey \<Rightarrow> labelSelector" where
  "frontendSelector m = ofInstance m (SelIn componentLabel [roleApp, roleWorker])"

definition backendSelector :: "misskey \<Rightarrow> labelSelector" where
  "backendSelector m = ofInstance m (SelNotIn componentLabel [roleApp, roleWorker, ''postgres''])"

definition frontendEgress :: "libs \<Rightarrow> misskey \<Rightarrow> networkRule list" where
  "frontendEgress L m = egressCommonRules m @ [dbEgressRule m] @
     (case redisEgressRule L m of Some r \<Rightarrow> [r] | None \<Rightarrow> []) @ [publicEgressRule]"

definition setEgress :: "misskey \<Rightarrow> labelSelector \<Rightarrow> networkRule list \<Rightarrow> kobj \<Rightarrow> kobj" where
  "setEgress m sel rules np =
     setBody (BNetworkPolicy ((networkPolicyOf np)\<lparr>npo_podSelector := sel, npo_policyTypes := [''Egress''], npo_egress := rules\<rparr>))
       (withLabels (labelsFor m ''egress'') np)"

definition reconcileEgressIsolation :: "libs \<Rightarrow> misskey \<Rightarrow> (error + unit) io" where
  "reconcileEgressIsolation L m =
     (if \<not> boolOr (eg_enabled (nw_egressIsolation (network (spec m)))) False then
        chk (deleteIfExists KNetworkPolicy (mnamespace m) (mname m @ ''-egress-frontend'')) (\<lambda>_.
          deleteIfExists KNetworkPolicy (mnamespace m) (mname m @ ''-egress-backend''))
      else
        chk (applyObj L m (newObj KNetworkPolicy (mnamespace m) (mname m @ ''-egress-frontend''))
              (\<lambda>np. ret (setEgress m (frontendSelector m) (frontendEgress L m) np))) (\<lambda>_.
          applyObj L m (newObj KNetworkPolicy (mnamespace m) (mname m @ ''-egress-backend''))
              (\<lambda>np. ret (setEgress m (backendSelector m) (egressCommonRules m) np))))"

subsection \<open>Quotas\<close>

definition reconcileResourceQuota :: "libs \<Rightarrow> misskey \<Rightarrow> (error + unit) io" where
  "reconcileResourceQuota L m =
     (if \<not> tn_dedicated (tenancy (spec m)) \<or> length (tn_quota (tenancy (spec m))) = 0
      then deleteIfExists KResourceQuota (mnamespace m) (mname m @ ''-quota'')
      else applyObj L m (newObj KResourceQuota (mnamespace m) (mname m @ ''-quota'')) (\<lambda>rq.
        ret (setBody (BQuota (tn_quota (tenancy (spec m)))) (withLabels (labelsFor m ''tenancy'') rq))))"

definition reconcileLimitRange :: "libs \<Rightarrow> misskey \<Rightarrow> (error + unit) io" where
  "reconcileLimitRange L m =
     (case (if tn_dedicated (tenancy (spec m)) then tn_limitRange (tenancy (spec m)) else None) of
        None \<Rightarrow> deleteIfExists KLimitRange (mnamespace m) (mname m @ ''-limits'')
      | Some lr \<Rightarrow> applyObj L m (newObj KLimitRange (mnamespace m) (mname m @ ''-limits'')) (\<lambda>o1.
          ret (setBody (BLimits [lr]) (withLabels (labelsFor m ''tenancy'') o1))))"

definition reconcileTenancy :: "libs \<Rightarrow> misskey \<Rightarrow> (error + unit) io" where
  "reconcileTenancy L m =
     chk (reconcileNetworkIsolation L m) (\<lambda>_.
     chk (reconcileEgressIsolation L m) (\<lambda>_.
     chk (reconcileResourceQuota L m) (\<lambda>_.
     reconcileLimitRange L m)))"

lemma reconcileTenancy_within [foot_intros]:
  assumes "stable_owner L"
  shows "calls (within m (\<lambda>k n. k \<in> {KNetworkPolicy, KResourceQuota, KLimitRange})) (reconcileTenancy L m)"
  unfolding reconcileTenancy_def reconcileNetworkIsolation_def reconcileEgressIsolation_def
    reconcileResourceQuota_def reconcileLimitRange_def setEgress_def
  by (intro struct_intros applyObj_within [OF assms] deleteIfExists_within) auto

subsection \<open>What the selectors select\<close>

fun meets :: "strmap \<Rightarrow> selectorRequirement \<Rightarrow> bool" where
  "meets ls (SelIn k vs) = (case map_of ls k of Some v \<Rightarrow> v \<in> set vs | None \<Rightarrow> False)"
| "meets ls (SelNotIn k vs) = (case map_of ls k of Some v \<Rightarrow> v \<notin> set vs | None \<Rightarrow> True)"

definition selectsPod :: "labelSelector \<Rightarrow> strmap \<Rightarrow> bool" where
  "selectsPod sel ls \<longleftrightarrow> selects (ls_matchLabels sel) ls \<and> list_all (meets ls) (ls_matchExpressions sel)"

text \<open>A peer in the policy's own namespace, or a namespace by its labels.\<close>

fun admits :: "string \<Rightarrow> networkPeer \<Rightarrow> string \<Rightarrow> strmap \<Rightarrow> strmap \<Rightarrow> bool" where
  "admits here (PodPeer sel) ns nsLabels podLabels = (ns = here \<and> selectsPod sel podLabels)"
| "admits here (NamespacePeer sel) ns nsLabels podLabels = selectsPod sel nsLabels"
| "admits here (IPBlockPeer c ex) ns nsLabels podLabels = False"

lemma selectsPod_simps [simp]:
  "selectsPod (byLabels [(k, v)]) ls \<longleftrightarrow> map_of ls k = Some v"
  "selectsPod (ofInstance m r) ls \<longleftrightarrow> map_of ls instanceLabel = Some (mname m) \<and> meets ls r"
  by (simp_all add: selectsPod_def byLabels_def ofInstance_def selects_def)

lemma labelsFor_lookup [simp]:
  "map_of (labelsFor m c) instanceLabel = Some (mname m)" "map_of (labelsFor m c) componentLabel = Some c"
  by (simp_all add: labelsFor_def instanceLabel_def componentLabel_def)

subsection \<open>Properties\<close>


text \<open>
  C37: what the isolation policy does. It governs every Pod of the instance but the public
  entry and the database, and a governed Pod is reachable from another Pod only if that Pod
  belongs to the same instance (in the same namespace) or lives in a namespace the spec
  names; in particular not from another instance of the same namespace, unless the spec
  names the namespace itself.
\<close>
theorem isolation_admits_own_instance_only:
  assumes "runs (reconcileNetworkIsolation L m) tr res" "(QStore x, r) \<in> set tr" "stable_owner L"
    and "map_of nsLabels nsNameLabel = Some ns"
  shows "ko_body x = BNetworkPolicy np \<Longrightarrow>
    (selectsPod (npo_podSelector np) (labelsFor m c) \<longleftrightarrow> c \<notin> {publicEntry m, ''postgres''}) \<and>
    ((\<exists>rule\<in>set (npo_ingress np). \<exists>peer\<in>set (nr_peers rule). admits (mnamespace m) peer ns nsLabels (labelsFor m' c')) \<longleftrightarrow>
       ns = mnamespace m \<and> mname m' = mname m \<or> ns \<in> set (ni_allowedNamespaces (nw_isolation (network (spec m)))))"
proof -
  assume np: "ko_body x = BNetworkPolicy np"
  let ?mut = "\<lambda>o1. ret (setBody (BNetworkPolicy ((networkPolicyOf o1)\<lparr>
            npo_podSelector := ofInstance m (SelNotIn componentLabel [publicEntry m, ''postgres'']),
            npo_policyTypes := [''Ingress''],
            npo_ingress := [\<lparr>nr_peers = isolationPeers m, nr_ports = []\<rparr>]\<rparr>))
          (withLabels (labelsFor m ''isolation'') o1))"
  have "(QStore x, r) \<notin> set tr" if "runs (deleteIfExists k nsp n) tr res" for k nsp n
    using calls_runs [OF deleteIfExists_calls [of "\<lambda>q. \<forall>y. q \<noteq> QStore y"] that] by fastforce
  then have "runs (applyObj L m (newObj KNetworkPolicy (mnamespace m) (mname m @ ''-isolation'')) ?mut) tr res"
    using assms(1,2) unfolding reconcileNetworkIsolation_def by (auto split: if_splits)
  then obtain s t new where "runs (?mut s) t (Inr new)" "l_setControllerReference L m new = Inr x"
    using assms(2) by (rule applyObj_stored) (simp add: ret_def)
  with stable_ownerD(4) [OF assms(3)] np
  have "npo_podSelector np = ofInstance m (SelNotIn componentLabel [publicEntry m, ''postgres''])"
    "npo_ingress np = [\<lparr>nr_peers = isolationPeers m, nr_ports = []\<rparr>]" by fastforce+
  with assms(4) show ?thesis by (auto simp: isolationPeers_def)
qed

end
