(* ===== verification/Proxy.thy ===== *)
theory Proxy
  imports Stateful
begin

section \<open>Proxy and Ingress (proxy.go, ingress.go)\<close>

text \<open>
  The Caddy Deployment in front of the app, the maintenance page, and the Ingress. The
  Ingress merges annotations from the spec; annotations that would let a tenant inject
  configuration into the ingress controller are dropped, and the operator's own win.
\<close>

subsection \<open>Proxy\<close>

definition caddyVolumes :: "misskey \<Rightarrow> bool \<Rightarrow> volume list" where
  "caddyVolumes m html =
     [configMapVolume ''caddy-config'' (nameConfig m), emptyDirVolume ''caddy-data'',
      emptyDirVolume ''caddy-config-tmp'', emptyDirVolume ''caddy-bin'', tmpVolume] @
     (if html then [configMapVolume ''maintenance-html'' (nameMaintenanceHTML m)] else [])"

definition caddyMounts :: "bool \<Rightarrow> volumeMount list" where
  "caddyMounts html =
     [\<lparr>vm_name = ''caddy-config'', vm_mountPath = ''/etc/caddy/Caddyfile'', vm_subPath = ''Caddyfile'', vm_readOnly = True\<rparr>,
      mountAt ''caddy-data'' ''/data'', mountAt ''caddy-config-tmp'' ''/config'', mountAt ''caddy-bin'' ''/caddy-bin'', tmpMount] @
     (if html then [\<lparr>vm_name = ''maintenance-html'', vm_mountPath = ''/usr/share/caddy'', vm_subPath = [], vm_readOnly = True\<rparr>] else [])"

definition buildCaddyPodSpec :: "libs \<Rightarrow> misskey \<Rightarrow> bool \<Rightarrow> podSpec" where
  "buildCaddyPodSpec L m withMaintenanceHTML =
     (let img = stringOr (px_image (proxy (spec m))) ''caddy:2'' in
      zeroPodSpec\<lparr>
        ps_automountServiceAccountToken := Some False,
        ps_securityContext := Some (nonRootPodSecurityContext genericNonRootUID),
        ps_topologySpread := spreadConstraints (labelsFor m ''proxy''),
        ps_initContainers := [zeroContainer\<lparr>
          c_name := ''prepare-caddy'', c_image := img,
          c_command := [''sh'', ''-c'', ''cp /usr/bin/caddy /caddy-bin/caddy''],
          c_securityContext := Some restrictedContainerSecurityContext,
          c_volumeMounts := [mountAt ''caddy-bin'' ''/caddy-bin'']\<rparr>],
        ps_containers := [zeroContainer\<lparr>
          c_name := ''caddy'', c_image := img,
          c_command := [''/caddy-bin/caddy'', ''run'', ''--config'', ''/etc/caddy/Caddyfile'', ''--adapter'', ''caddyfile''],
          c_securityContext := Some restrictedContainerSecurityContext,
          c_resources := resourcesOr L (px_resources (proxy (spec m))) ''10m'' ''32Mi'' ''128Mi'',
          c_ports := [\<lparr>cp_name = [], cp_port = proxyPort\<rparr>, \<lparr>cp_name = ''metrics'', cp_port = proxyMetricsPort\<rparr>],
          c_volumeMounts := caddyMounts withMaintenanceHTML\<rparr>],
        ps_volumes := caddyVolumes m withMaintenanceHTML\<rparr>)"

definition deleteProxyResources :: "misskey \<Rightarrow> (error + unit) io" where
  "deleteProxyResources m =
     forE [KDeployment, KService, KPodDisruptionBudget] (\<lambda>k. deleteIfExists k (mnamespace m) (nameProxy m))"

definition deleteLegacyMaintenanceWorkload :: "misskey \<Rightarrow> (error + unit) io" where
  "deleteLegacyMaintenanceWorkload m =
     forE [KDeployment, KService] (\<lambda>k. deleteIfExists k (mnamespace m) (nameMaintenance m))"

definition deleteMaintenanceHTMLConfigMap :: "misskey \<Rightarrow> (error + unit) io" where
  "deleteMaintenanceHTMLConfigMap m = deleteIfExists KConfigMap (mnamespace m) (nameMaintenanceHTML m)"

definition proxyServicePorts :: "misskey \<Rightarrow> servicePort list" where
  "proxyServicePorts m = [servicePortTo ''http'' 80 proxyPort] @
     (if monitoringEnabled m then [servicePortTo ''metrics'' proxyMetricsPort proxyMetricsPort] else [])"

definition proxyChecksumParts :: "misskey \<Rightarrow> bool \<Rightarrow> string list" where
  "proxyChecksumParts m maint = renderCaddyfile m # (if maint then [maintenanceHTMLContent m] else [])"

definition reconcileProxy :: "libs \<Rightarrow> misskey \<Rightarrow> (error + unit) io" where
  "reconcileProxy L m =
     (let maint = boolOr (ma_enabled (px_maintenance (proxy (spec m)))) True in
      chk (deleteLegacyMaintenanceWorkload m) (\<lambda>_.
      if \<not> boolOr (px_enabled (proxy (spec m))) True then
        chk (deleteProxyResources m) (\<lambda>_. deleteMaintenanceHTMLConfigMap m)
      else
        chk (applyObj L m (newObj KService (mnamespace m) (nameProxy m)) (\<lambda>svc.
          ret (setService m ''proxy'' (proxyServicePorts m) svc))) (\<lambda>_.
        chk (applyObj L m (newObj KDeployment (mnamespace m) (nameProxy m)) (\<lambda>dep.
          ret (setDeployment m ''proxy'' (replicasOr (px_replicas (proxy (spec m))) 2) (buildCaddyPodSpec L m maint)
            (checksumAnnotation (proxyChecksumParts m maint)) dep))) (\<lambda>_.
        chk (reconcilePDB L m ''proxy'') (\<lambda>_.
        whenE (\<not> maint) (deleteMaintenanceHTMLConfigMap m))))))"

subsection \<open>Ingress\<close>

definition dangerousPrefixes :: "string list" where
  "dangerousPrefixes =
     [''nginx.ingress.kubernetes.io/auth-url'', ''nginx.ingress.kubernetes.io/auth-tls-'',
      ''nginx.ingress.kubernetes.io/server-alias'', ''nginx.ingress.kubernetes.io/permanent-redirect'',
      ''nginx.ingress.kubernetes.io/lua-'', ''nginx.ingress.kubernetes.io/mirror-'']"

text \<open>
  \<^verbatim>\<open>strings.ToLower\<close> on the keys the API server admits, which are ASCII.
\<close>

definition isDangerousIngressAnnotation :: "string \<Rightarrow> bool" where
  "isDangerousIngressAnnotation key =
     (let k = map toLower key in
      if hasSuffix k ''-snippet'' then True else list_ex (hasPrefix k) dangerousPrefixes)"

text \<open>
  The annotations of the spec are a Go map, so their keys are distinct; a nil map and an empty
  one are the same association list.
\<close>

definition ingressAnnotations :: "misskey \<Rightarrow> string \<Rightarrow> strmap" where
  "ingressAnnotations m className =
     (let out0 = filter (\<lambda>(k, v). \<not> isDangerousIngressAnnotation k) (ig_annotations (ingress (spec m)));
          out1 = (if contains className ''nginx'' then mset ''nginx.ingress.kubernetes.io/proxy-body-size'' ''0'' out0 else out0) in
      case ig_issuerRef (ingress (spec m)) of
        None \<Rightarrow> out1
      | Some ref \<Rightarrow> mset (if ir_kind ref = ''Issuer'' then ''cert-manager.io/issuer'' else ''cert-manager.io/cluster-issuer'')
                       (ir_name ref) out1)"

definition buildIngressSpec :: "misskey \<Rightarrow> plan \<Rightarrow> string \<Rightarrow> ingressObj" where
  "buildIngressSpec m p className =
     (let direct = \<not> boolOr (px_enabled (proxy (spec m))) True in
      \<lparr>ing_className = className, ing_host = ingressHost p, ing_path = ''/'', ing_pathType = ''Prefix'',
       ing_backendName = (if direct then nameApp m else nameProxy m),
       ing_backendPort = (if direct then misskeyPort else 80),
       ing_tls = (if ig_tlsSecretName (ingress (spec m)) \<noteq> [] \<or> ig_issuerRef (ingress (spec m)) \<noteq> None
                  then [\<lparr>it_hosts = [ingressHost p],
                         it_secretName = stringOr (ig_tlsSecretName (ingress (spec m))) (mname m @ ''-tls'')\<rparr>]
                  else [])\<rparr>)"

definition reconcileIngress :: "libs \<Rightarrow> misskey \<Rightarrow> plan \<Rightarrow> (error + unit) io" where
  "reconcileIngress L m p =
     (let className = stringOr (ig_className (ingress (spec m))) ''nginx'' in
      if \<not> boolOr (ig_enabled (ingress (spec m))) True
      then deleteIfExists KIngress (mnamespace m) (mname m)
      else applyObj L m (newObj KIngress (mnamespace m) (mname m)) (\<lambda>ing.
        ret (setBody (BIngress (buildIngressSpec m p className))
          (withAnnotations (ingressAnnotations m className) (withLabels (labelsFor m ''ingress'') ing)))))"

subsection \<open>Footprint\<close>

lemma reconcileProxy_within [foot_intros]:
  assumes "stable_owner L"
  shows "calls (within m (\<lambda>k n. k = KDeployment \<and> n \<in> {nameProxy m, nameMaintenance m} \<or>
    k \<in> {KService, KPodDisruptionBudget, KConfigMap})) (reconcileProxy L m)"
  unfolding reconcileProxy_def deleteProxyResources_def deleteLegacyMaintenanceWorkload_def
    deleteMaintenanceHTMLConfigMap_def Let_def
  by (intro struct_intros applyObj_within [OF assms] reconcilePDB_within [OF assms] deleteIfExists_within) auto

lemma reconcileIngress_within [foot_intros]:
  "stable_owner L \<Longrightarrow> calls (within m (\<lambda>k n. k = KIngress \<and> n = mname m)) (reconcileIngress L m p)"
  unfolding reconcileIngress_def Let_def
  by (intro struct_intros applyObj_within deleteIfExists_within) auto

subsection \<open>Annotations\<close>

lemma map_of_filter_key: "map_of (filter (\<lambda>(k, v). P k) xs) k = (if P k then map_of xs k else None)"
  by (induction xs) auto

definition issuerKey :: "ingressIssuerRef \<Rightarrow> string" where
  "issuerKey ref = (if ir_kind ref = ''Issuer'' then ''cert-manager.io/issuer'' else ''cert-manager.io/cluster-issuer'')"

lemma operator_keys_safe:
  "\<not> isDangerousIngressAnnotation ''nginx.ingress.kubernetes.io/proxy-body-size''"
  "\<not> isDangerousIngressAnnotation (issuerKey ref)"
  unfolding issuerKey_def by (simp_all split: if_splits) (code_simp+)

lemma ingressAnnotations_lookup:
  "map_of (ingressAnnotations m c) k =
     (case ig_issuerRef (ingress (spec m)) of
        Some ref \<Rightarrow> if k = issuerKey ref then Some (ir_name ref)
                    else if k = ''nginx.ingress.kubernetes.io/proxy-body-size'' \<and> contains c ''nginx'' then Some ''0''
                    else if isDangerousIngressAnnotation k then None else map_of (ig_annotations (ingress (spec m))) k
      | None \<Rightarrow> if k = ''nginx.ingress.kubernetes.io/proxy-body-size'' \<and> contains c ''nginx'' then Some ''0''
                else if isDangerousIngressAnnotation k then None else map_of (ig_annotations (ingress (spec m))) k)"
  unfolding ingressAnnotations_def Let_def issuerKey_def
  by (simp add: map_of_filter_key split: option.split del: contains.simps)

subsection \<open>Properties\<close>


text \<open>The list of dangerous annotations does not cover every redirect.\<close>
theorem temporal_redirect_passes:
  "\<not> isDangerousIngressAnnotation ''nginx.ingress.kubernetes.io/temporal-redirect''"
  by code_simp

end
