(* ===== verification/Witnesses.thy ===== *)
theory Witnesses
  imports Samples Channel Deletion Postgres Tenancy Proxy
begin

section \<open>The properties at concrete instances\<close>

text \<open>
  For each property with hypotheses, an instance at which they hold, with the property
  applied to it. Runs are obtained by executing the handlers against \<open>emptyCluster\<close> or an
  overridden server of \<open>Samples\<close>.
\<close>

subsection \<open>The digest cache\<close>

abbreviation sampleEntry :: digestEntry where
  "sampleEntry \<equiv> \<lparr>de_digest = ''d'', de_resolvedAt = 7\<rparr>"

definition sampleCaller :: caller where
  "sampleCaller = (newCaller ''img'' None ''k'')\<lparr>ca_prog := Ret (Inr ''img@d'')\<rparr>"

text \<open>One caller asks for an image, the registry answers, and the digest is stored.\<close>

lemma sample_digestReach:
  "digestReach ([(cacheKey ''img'' ''k'', sampleEntry)], [(''img'', ''k'', ''d'')], [sampleCaller])"
proof -
  let ?c0 = "newCaller ''img'' None ''k''"
  let ?at = "\<lambda>p. ?c0\<lparr>ca_prog := p\<rparr>"
  have p0: "ca_prog ?c0 = Call (QCacheGet (cacheKey ''img'' ''k'')) (\<lambda>r. pinnedLookup ''img'' None ''k'' (asEntry r))"
    by (simp add: newCaller_def Pinned_def hasPrefix_def)
  have "digestReach ([], [], [] @ [?c0])"
    by (rule digestReach.step [OF digestReach.init [unfolded newDigestResolver_def]]) (rule digestStep.call)
  then have "digestReach ([], [], [?c0])" by simp
  then have "digestReach ([], [], [?c0][0 := ([?c0] ! 0)\<lparr>ca_prog := pinnedLookup ''img'' None ''k''
      (asEntry (REntry (map_of [] (cacheKey ''img'' ''k''))))\<rparr>])"
    by (rule digestReach.step) (rule digestStep.get, simp_all add: p0)
  then have s2: "digestReach ([], [], [?at (pinnedHead ''img'' None ''k'' None)])"
    by (simp add: pinnedLookup_def)
  have "digestReach ([], logged (QHead ''img'' None) (RStr ''d'') ([?at (pinnedHead ''img'' None ''k'' None)] ! 0) @ [],
      [?at (pinnedHead ''img'' None ''k'' None)][0 := ([?at (pinnedHead ''img'' None ''k'' None)] ! 0)\<lparr>ca_prog :=
        (\<lambda>r. case asStr r of Inl err \<Rightarrow> (case (None :: digestEntry option) of Some e \<Rightarrow> Ret (Inr (''img'' @ ''@'' @ de_digest e)) | None \<Rightarrow> Ret (Inl err))
           | Inr digest \<Rightarrow> pinnedStore ''img'' ''k'' digest) (RStr ''d'')\<rparr>])"
    by (rule digestReach.step [OF s2]) (rule digestStep.env, simp_all add: pinnedHead_def)
  then have "digestReach ([], [(''img'', ''k'', ''d'')], [?at (pinnedStore ''img'' ''k'' ''d'')])"
    by (simp add: logged_def newCaller_def)
  then have "digestReach (putLocked (\<lambda>_. 0) 7 (cacheKey ''img'' ''k'') ''d'' [], [(''img'', ''k'', ''d'')],
      [?at (pinnedStore ''img'' ''k'' ''d'')][0 := ([?at (pinnedStore ''img'' ''k'' ''d'')] ! 0)\<lparr>ca_prog :=
        (\<lambda>_. Ret (Inr (''img'' @ ''@'' @ ''d''))) ROk\<rparr>])"
    by (rule digestReach.step) (rule digestStep.put, simp_all add: pinnedStore_def)
  then show ?thesis by (simp add: putLocked_def evictLocked_def maxCacheEntries_def sampleCaller_def)
qed

theorem digest_cache_bounded_witness:
  "length [(cacheKey ''img'' ''k'', sampleEntry)] \<le> 1024 \<and> distinct (map fst [(cacheKey ''img'' ''k'', sampleEntry)])"
  by (rule digest_cache_bounded [OF sample_digestReach])

theorem digest_tenant_isolation_witness:
  "contains (ca_image sampleCaller) ''@'' \<and> ''img@d'' = ca_image sampleCaller \<or>
   (\<exists>d. ''img@d'' = ca_image sampleCaller @ ''@'' @ d \<and>
     (ca_image sampleCaller, ca_keyID sampleCaller, d) \<in> set [(''img'', ''k'', ''d'')])"
  by (rule digest_tenant_isolation [OF sample_digestReach]) (simp_all add: sampleCaller_def newCaller_def)

subsection \<open>Release channels\<close>

definition sampleRollout :: channelRollout where
  "sampleRollout = \<lparr>cr_batchPercent = 10, cr_interval = minute\<rparr>"

definition sampleChannel :: misskeyChannel where
  "sampleChannel = \<lparr>mc_meta = newMeta [] ''stable'',
     ch_spec = noMisskeyChannelSpec\<lparr>ch_image := ''b'', ch_rollout := Some sampleRollout, ch_trackImageDigest := True\<rparr>,
     ch_status = noMisskeyChannelStatus\<lparr>cs_image := ''b'', cs_previousImage := ''a'', cs_imageChangedAt := 5\<rparr>\<rparr>"

lemma sample_rolling: "rolling sampleChannel sampleRollout"
  by (simp add: rolling_def sampleChannel_def sampleRollout_def noMisskeyChannelSpec_def
      noMisskeyChannelStatus_def time_units)

theorem rollout_never_moves_back_witness:
  "channelImageFor sampleChannel 4 (5 + minute) = ''b''"
proof -
  have "channelImageFor sampleChannel 4 5 = cs_image (ch_status sampleChannel)"
    unfolding channelImageFor_rolling [OF sample_rolling]
    by (simp add: rolloutPercent_def rolloutInterval_def sampleRollout_def int32OrDefault_def
        rolloutAge_def time_units timeSub_def max_int64_def min_int64_def sampleChannel_def)
  from rollout_never_moves_back [OF sample_rolling _ _ this, of "5 + minute" 4] show ?thesis
    by (simp add: sampleChannel_def noMisskeyChannelStatus_def time_units)
qed

theorem rollout_starts_and_completes_witness:
  "channelImageFor sampleChannel (channelBucket ''ns'' ''mi'') (5 + 9 * minute) = ''b''"
  using rollout_starts_and_completes [OF sample_rolling, of "''ns''" "''mi''" "5 + 9 * minute" 9]
  by (simp add: sampleChannel_def sampleRollout_def rolloutPercent_def rolloutInterval_def int32OrDefault_def
      rolloutAge_def time_units timeSub_def max_int64_def min_int64_def noMisskeyChannelStatus_def)

theorem interrupted_rollout_skips_batches_witness:
  "channelImageFor (sampleChannel\<lparr>ch_status := startRollout ''c'' 5 (ch_status sampleChannel)\<rparr>) 99 5 = ''b''"
proof -
  have "channelImageFor sampleChannel 99 5 = cs_previousImage (ch_status sampleChannel)"
    unfolding channelImageFor_rolling [OF sample_rolling]
    by (simp add: rolloutPercent_def rolloutInterval_def sampleRollout_def int32OrDefault_def
        rolloutAge_def time_units timeSub_def max_int64_def min_int64_def sampleChannel_def)
  from interrupted_rollout_skips_batches [OF sample_rolling this, of "''c''"] show ?thesis
    by (simp add: sampleChannel_def noMisskeyChannelStatus_def)
qed


subsection \<open>Deletion\<close>

definition sampleRetained :: misskey where
  "sampleRetained = refFinalizers (\<lambda>_. [misskeyFinalizer]) (sampleOf (noMisskeySpec\<lparr>deletionPolicy := ''Retain''\<rparr>))"

theorem retain_before_finalizer_witness:
  "\<exists>tr. runs (reconcileDelete refLibs sampleRetained) tr (Inr ()) \<and>
     (\<exists>pre x. tr = pre @ [(QUpdate (misskeyObj (refFinalizers (\<lambda>_. []) sampleRetained)), RObj x)] \<and>
       detached ''ns'' [] pre (KCnpgCluster, ''mi-db''))"
proof -
  let ?p = "reconcileDelete refLibs sampleRetained"
  have m: "spec sampleRetained = noMisskeySpec\<lparr>deletionPolicy := ''Retain''\<rparr>" "mnamespace sampleRetained = ''ns''"
    "om_uid (mk_meta sampleRetained) = []" "mname sampleRetained = ''mi''"
    "om_finalizers (mk_meta sampleRetained) = [misskeyFinalizer]"
    by (simp_all add: sampleRetained_def refFinalizers_def)
  have orphan: "exec emptyCluster (orphan sampleRetained k n) w = (Inr (), ())" for k n w
    by (simp add: orphan_def kget_def answering_def)
  have loop: "exec emptyCluster (forE xs (\<lambda>(k, n). orphan sampleRetained k n)) w = (Inr (), ())" for xs w
    by (induction xs arbitrary: w) (auto simp: orphan)
  have "fst (exec emptyCluster ?p ()) = Inr ()"
    by (simp add: reconcileDelete_def m retainData_def loop eventThen_def event_def kupdate_def answering_def)
  with exec_runs [of ?p emptyCluster "()"] have run: "runs ?p (trace_of emptyCluster ?p ()) (Inr ())" by simp
  from retain_before_finalizer [OF this] m run show ?thesis
    by (auto simp: refFinalizers_def retainTargets_def nameDB_def)
qed

subsection \<open>Migration\<close>

definition failedJob :: "misskey \<Rightarrow> kobj" where
  "failedJob m = setBody (BJob (zeroJob\<lparr>job_statusFailed := 1\<rparr>)) (newObj KJob (mnamespace m) (nameMigrate m))"

theorem failed_migration_kept_witness:
  "\<exists>tr res r. runs (reconcileMigration refLibs sample zeroPlan) tr res \<and>
     (QDelete KJob ''ns'' (nameMigrate sample) PropagationBackground, r) \<in> set tr \<and>
     (\<exists>j. (QGet KJob ''ns'' (nameMigrate sample), RObj j) \<in> set tr \<and> job_statusFailed (jobOf j) \<ge> 1)"
proof -
  let ?cs = "checksumAnnotation ([renderDefaultYML sample (migratePlan sample zeroPlan),
         formatBool (migrationConcurrentIndexes sample)] @ sort ['':missing''])"
  let ?del = "(QDelete KJob ''ns'' (nameMigrate sample) PropagationBackground, ROk)"
  let ?tr = "[(QList KJob ''ns'' (selectorFor sample ''migrate''), RObjs []),
     (QGet KSecret ''ns'' [], RErr (ErrNotFound [])),
     (QGet KJob ''ns'' (nameMigrate sample), RObj (failedJob sample)), ?del]"
  have ns: "mnamespace sample = ''ns''" by (simp add: sample_def)
  have at: "atKey KJob ''ns'' (nameMigrate sample) (failedJob sample)" by (simp add: failedJob_def ns atKey_def)
  have job: "job_statusFailed (jobOf (failedJob sample)) = 1" "job_statusSucceeded (jobOf (failedJob sample)) = 0"
    "kannotations (failedJob sample) = []" "knamespace (failedJob sample) = ''ns''"
    "kname (failedJob sample) = nameMigrate sample" "ko_kind (failedJob sample) = KJob"
    by (simp_all add: failedJob_def ns zeroJob_def)
  have "[] \<noteq> hexEncode (sha256 t)" for t by (metis length_0_conv length_hexEncode length_sha256 mult_eq_0_iff zero_neq_numeral)
  then have ne: "mget [] configChecksumAnnotation \<noteq> mget ?cs configChecksumAnnotation"
    by (simp add: checksumAnnotation_def mget_def)
  have run: "runs (reconcileMigration refLibs sample zeroPlan) ?tr (Inr False)"
    using ne by (simp add: reconcileMigration_def cleanupOldMigrationJobs_def migrationChecksum_def referencedSecretVersions_def
        referencedSecretNames_def zeroPlan_def zeroEndpoint_def map_filter_simps redisRoleDescs_def noSel_def
        secretVersion_def migrationJobStep_def migrationJobFound_def
        chk_def kget_def klist_def kdelete_def runs_Call_iff at ns job deleteBackground_def eventThen_def event_def ignoreNotFound_def)
  from failed_migration_kept [OF run, of "''ns''" PropagationBackground ROk] run ns show ?thesis
    by (intro exI [of _ ?tr] exI [of _ "Inr False"] exI [of _ ROk]) auto
qed

subsection \<open>Object storage\<close>

definition samplePlan :: plan where
  "samplePlan = zeroPlan\<lparr>objColumns := objectStorageColumnDefaults, objBucket := ''files''\<rparr>"

lemma sample_assignments: "\<exists>as. objectStorageAssignments samplePlan = Inr as"
proof -
  have "case objectStorageAssignments samplePlan of Inr as \<Rightarrow> True | Inl _ \<Rightarrow> False" by code_simp
  then show ?thesis by (simp split: sum.splits)
qed


theorem object_storage_sql_value_independent_witness:
  "\<exists>as bs. objectStorageAssignments samplePlan = Inr as \<and>
     objectStorageAssignments (samplePlan\<lparr>objBucket := ''other''\<rparr>) = Inr bs \<and>
     renderObjectStorageSQL bs = renderObjectStorageSQL as"
proof -
  obtain as where as: "objectStorageAssignments samplePlan = Inr as" using sample_assignments by blast
  have "sameFields samplePlan (samplePlan\<lparr>objBucket := ''other''\<rparr>)"
    by (simp add: sameFields_def samplePlan_def)
  from object_storage_sql_value_independent [OF this as] as show ?thesis by blast
qed

subsection \<open>Ingress\<close>


subsection \<open>Redis\<close>

definition sampleExternalRedis :: misskey where
  "sampleExternalRedis = sampleOf (noMisskeySpec\<lparr>redis := noRedisSpec\<lparr>rd_external := Some
     \<lparr>xr_host = ''redis.example'', xr_port = 6379, xr_db = 0, xr_passwordSecret = None, xr_sentinels = [],
      xr_masterName = [], xr_tls = None\<rparr>\<rparr>\<rparr>)"

definition sampleRoles :: misskey where
  "sampleRoles = sampleOf (noMisskeySpec\<lparr>redis := noRedisSpec\<lparr>rd_roles := Some
     \<lparr>rl_jobQueue = Some \<lparr>ro_external = rd_external (redis (spec sampleExternalRedis)), ro_maxMemory = [], ro_maxMemoryPolicy = [],
        ro_storage = rd_storage noRedisSpec, ro_storageClassName = None, ro_resources = noResources, ro_ha = None\<rparr>,
      rl_pubsub = None, rl_timelines = None, rl_reactions = None\<rparr>\<rparr>\<rparr>)"

theorem plan_well_formed_witness:
  "meiliEnabled (resolve sampleRoles) \<and> meiliPortP (resolve sampleRoles) \<noteq> 0 \<and> meiliIndex (resolve sampleRoles) \<noteq> [] \<and>
   (\<exists>ep. redisRolesP (resolve sampleRoles) = [(''jobQueue'', ep)] \<and> endpointOk ''REDIS_PASSWORD_JOBQUEUE'' ep)"
proof -
  have m: "meiliEnabled (resolve sampleRoles)" "ms_index (se_meilisearch (search (spec sampleRoles))) = []"
    by (simp_all add: sampleRoles_def resolve_def resolveSearch_def stringOr_def zero_defs Let_def)
  obtain ep where ep: "redisRolesP (resolve sampleRoles) = [(''jobQueue'', ep)]"
    by (simp add: sampleRoles_def resolveRedis_def redisRoleDescs_def roleEndpoint_def List.map_filter_simps Let_def)
  have "endpointOk ''REDIS_PASSWORD_JOBQUEUE'' ep"
    using plan_well_formed [of sampleRoles] unfolding ep by (auto simp: redisRoleDescs_def)
  with plan_well_formed [of sampleRoles] m ep show ?thesis by blast
qed

lemma no_instances: "managedRedisInstances refLibs sampleExternalRedis = []"
  by (simp add: managedRedisInstances_def sampleExternalRedis_def noRedisSpec_def)

lemma exec_deleteIfExists [simp]: "exec emptyCluster (deleteIfExists k ns n) w = (Inr (), ())"
  by (simp add: deleteIfExists_def kdelete_def answering_def)

lemma exec_forE:
  "(\<And>x. x \<in> set xs \<Longrightarrow> exec srv (f x) () = (Inr (), ())) \<Longrightarrow> exec srv (forE xs f) () = (Inr (), ())"
  by (induction xs) auto

lemma sample_redis_run:
  "runs (reconcileRedis refLibs sampleExternalRedis)
     (trace_of emptyCluster (reconcileRedis refLibs sampleExternalRedis) ()) (Inr ())"
proof -
  let ?p = "reconcileRedis refLibs sampleExternalRedis"
  have "exec emptyCluster (cleanupRedisSuffix sampleExternalRedis [] s) () = (Inr (), ())" for s
    unfolding cleanupRedisSuffix_def deleteRedisStandalone_def deleteRedisHA_def deleteRedisHANetworkPolicy_def Let_def
    by (simp add: exec_forE del: forE_simps(2))
  then have "fst (exec emptyCluster ?p ()) = Inr ()"
    by (simp add: reconcileRedis_def no_instances exec_forE del: forE_simps(2))
  with exec_runs [of ?p emptyCluster "()"] show ?thesis by simp
qed

theorem redis_cleanup_spares_desired_witness:
  "(\<exists>r. (QDelete KStatefulSet ''ns'' ''mi-redis'' PropagationDefault, r) \<in>
      set (trace_of emptyCluster (reconcileRedis refLibs sampleExternalRedis) ())) \<and>
   \<not> wanted refLibs sampleExternalRedis KStatefulSet ''mi-redis''"
proof -
  have "(QDelete KStatefulSet ''ns'' ''mi-redis'' PropagationDefault, ROk) \<in>
      set (trace_of emptyCluster (reconcileRedis refLibs sampleExternalRedis) ())"
    by (simp add: reconcileRedis_def no_instances allRedisSuffixes_def cleanupRedisSuffix_def deleteRedisStandalone_def
        chk_def deleteIfExists_def kdelete_def answering_def redis_name_defs) (simp add: sampleExternalRedis_def)
  with redis_cleanup_spares_desired [OF sample_redis_run this] show ?thesis by blast
qed

theorem redis_cleanup_complete_witness:
  "\<exists>tr. runs (reconcileRedis refLibs sampleExternalRedis) tr (Inr ()) \<and>
     (\<exists>e\<in>set tr. deletedAt KStatefulSet ''ns'' ''mi-redis'' e)"
proof -
  have "[] \<in> set allRedisSuffixes" by (simp add: allRedisSuffixes_def)
  moreover have "nameRedisInstance sampleExternalRedis [] = ''mi-redis''" "mnamespace sampleExternalRedis = ''ns''"
    by (simp_all add: redis_name_defs sampleExternalRedis_def)
  ultimately show ?thesis
    using redis_cleanup_complete [OF sample_redis_run, of "[]"] sample_redis_run no_instances by auto
qed

subsection \<open>Isolation\<close>

theorem isolation_admits_own_instance_only_witness:
  "\<exists>tr x r np. runs (reconcileNetworkIsolation refLibs sample) tr (Inr ()) \<and> (QStore x, r) \<in> set tr \<and>
     ko_body x = BNetworkPolicy np \<and>
     (selectsPod (npo_podSelector np) (labelsFor sample ''worker'') \<longleftrightarrow> ''worker'' \<notin> {''proxy'', ''postgres''})"
proof -
  let ?p = "reconcileNetworkIsolation refLibs sample" and ?o = "newObj KNetworkPolicy ''ns'' ''mi-isolation''"
  obtain x np where x: "ko_body x = BNetworkPolicy np" and tr: "runs ?p [(QFetch ?o, RObj ?o), (QStore x, ROk)] (Inr ())"
    by (simp add: reconcileNetworkIsolation_def applyObj_def chk_def kfetch_def kstore_def runs_Call_iff ret_def
        refSetOwner_def atKey_def sample_defs boolOr_def)
  have "map_of [(nsNameLabel, ''ns'')] nsNameLabel = Some ''ns''" by simp
  from isolation_admits_own_instance_only [OF tr _ stable_refLibs this x, of ROk "''worker''"] x tr
  have "selectsPod (npo_podSelector np) (labelsFor sample ''worker'') \<longleftrightarrow> ''worker'' \<notin> {publicEntry sample, ''postgres''}"
    by simp
  moreover have "publicEntry sample = ''proxy''" by (simp add: publicEntry_def sample_defs boolOr_def)
  ultimately show ?thesis using x tr by (intro exI [of _ "[(QFetch ?o, RObj ?o), (QStore x, ROk)]"] exI) auto
qed

end
