(* ===== verification/DetectorLife.thy ===== *)
theory DetectorLife
  imports Footprint
begin

section \<open>The detector's workload and its removal (sensitive\_detector.go)\<close>

text \<open>
  The managed detector is a Deployment with a Service, a ConfigMap and a PodDisruptionBudget.
  When the detector is switched off, made external or given a user's key, its objects and its
  generated Secret must stay until the app and worker Pods run with the new settings:
  \<open>finalizeSensitiveDetectorCleanup\<close> deletes only behind \<open>misskeyWorkloadsConverged\<close>, and the
  generated Secret only if it carries the operator's label and owner.
\<close>

subsection \<open>Workload\<close>

definition renderSensitiveDetectorConfig :: string where
  "renderSensitiveDetectorConfig =
     ''export default {'' @ nl @
     ''  port: '' @ itoa sensitiveDetectorPort @ '','' @ nl @
     ''  host: '' @ sqlQuoted ''0.0.0.0'' @ '','' @ nl @
     ''  modelDir: '' @ sqlQuoted ''/models'' @ '','' @ nl @
     ''  apiKey: process.env.SENSITIVE_DETECTOR_API_KEY,'' @ nl @
     ''};'' @ nl"

definition detectorProbe :: "int32 \<Rightarrow> int32 \<Rightarrow> probe" where
  "detectorProbe period failures =
     \<lparr>pr_handler = HTTPGetProbe ''/health'' (FromString ''http''), pr_initialDelay = 0, pr_period = period,
      pr_timeout = 3, pr_failure = failures\<rparr>"

definition buildSensitiveDetectorPodSpec :: "libs \<Rightarrow> misskey \<Rightarrow> plan \<Rightarrow> podSpec" where
  "buildSensitiveDetectorPodSpec L m p =
     (case sensitiveDetector (spec m) of
        None \<Rightarrow> zeroPodSpec
      | Some d \<Rightarrow>
          zeroPodSpec\<lparr>
            ps_automountServiceAccountToken := Some False,
            ps_imagePullSecrets := imagePullSecrets (spec m),
            ps_securityContext := Some (nonRootPodSecurityContext genericNonRootUID),
            ps_nodeSelector := sd_nodeSelector d,
            ps_tolerations := sd_tolerations d,
            ps_containers := [zeroContainer\<lparr>
              c_name := sensitiveDetectorComponent,
              c_image := stringOr (sd_image d) ''ghcr.io/misskey-dev/sensitive-detector:0.0.2'',
              c_securityContext := Some restrictedContainerSecurityContext,
              c_resources := resourcesOr L (sd_resources d) ''250m'' ''512Mi'' ''2Gi'',
              c_env := [secretEnv sensitiveDetectorAPIKeyID (sensitiveDetectorAPIKeySel p)],
              c_ports := [\<lparr>cp_name = ''http'', cp_port = sensitiveDetectorPort\<rparr>],
              c_startupProbe := Some (detectorProbe 5 12),
              c_readinessProbe := Some (detectorProbe 10 3),
              c_livenessProbe := Some (detectorProbe 20 3),
              c_volumeMounts := [\<lparr>vm_name = ''config'', vm_mountPath = ''/config/config.mjs'',
                vm_subPath = ''config.mjs'', vm_readOnly = True\<rparr>, tmpMount]\<rparr>],
            ps_volumes := [configMapVolume ''config'' (nameSensitiveDetector m), tmpVolume]\<rparr>)"

definition reconcileSensitiveDetector :: "libs \<Rightarrow> misskey \<Rightarrow> plan \<Rightarrow> (error + unit) io" where
  "reconcileSensitiveDetector L m p =
     (case sensitiveDetector (spec m) of
        None \<Rightarrow> Ret (Inr ())
      | Some d \<Rightarrow>
          if \<not> sensitiveDetectorManaged p then Ret (Inr ())
          else
            (let name = nameSensitiveDetector m; c = sensitiveDetectorComponent;
                 config = renderSensitiveDetectorConfig in
             chk (applyObj L m (newObj KConfigMap (mnamespace m) name) (\<lambda>cm.
               ret (setBody (BData [(''config.mjs'', config)]) (withLabels (labelsFor m c) cm)))) (\<lambda>_.
             chk (applyObj L m (newObj KService (mnamespace m) name) (\<lambda>svc.
               ret (setService m c [servicePortTo ''http'' sensitiveDetectorPort sensitiveDetectorPort] svc))) (\<lambda>_.
             chk (applyObj L m (newObj KDeployment (mnamespace m) name) (\<lambda>dep.
               chk (secretVersion (mnamespace m) (sel_name (sensitiveDetectorAPIKeySel p))) (\<lambda>ver.
                 ret (setDeployment m c (replicasOr (sd_replicas d) 1) (buildSensitiveDetectorPodSpec L m p)
                   (checksumAnnotation [config, ver]) dep)))) (\<lambda>_.
             reconcilePDB L m c)))))"

subsection \<open>Removal\<close>

definition cleanupSensitiveDetector :: "misskey \<Rightarrow> (error + unit) io" where
  "cleanupSensitiveDetector m =
     forE [KDeployment, KService, KPodDisruptionBudget, KConfigMap]
       (\<lambda>k. deleteIfExists k (mnamespace m) (nameSensitiveDetector m))"

definition generatedByOperator :: "libs \<Rightarrow> misskey \<Rightarrow> kobj \<Rightarrow> bool" where
  "generatedByOperator L m x \<longleftrightarrow>
     mget (klabels x) ''app.kubernetes.io/managed-by'' = ''cloudnative-misskey'' \<and> l_isControlledBy L x m"

definition cleanupGeneratedSensitiveDetectorSecret :: "libs \<Rightarrow> misskey \<Rightarrow> (error + unit) io" where
  "cleanupGeneratedSensitiveDetectorSecret L m =
     bnd (kget KSecret (mnamespace m) (nameSensitiveDetector m)) (\<lambda>r. case r of
       Inl e \<Rightarrow> if isNotFound e then Ret (Inr ()) else Ret (Inl e)
     | Inr s \<Rightarrow>
         if \<not> generatedByOperator L m s then Ret (Inr ())
         else bnd (kdelete KSecret (knamespace s) (kname s) PropagationDefault) (\<lambda>r. Ret (ignoreNotFound r)))"

text \<open>The number of replicas a Deployment asks for: one where the field is unset.\<close>

definition desiredReplicas :: "kobj \<Rightarrow> int32" where
  "desiredReplicas dep = (case dep_replicas (deploymentOf dep) of Some r \<Rightarrow> r | None \<Rightarrow> 1)"

definition rolledOut :: "kobj \<Rightarrow> bool" where
  "rolledOut dep \<longleftrightarrow>
     dep_statusObservedGeneration (deploymentOf dep) \<ge> om_generation (ko_meta dep) \<and>
     dep_statusUpdated (deploymentOf dep) \<ge> desiredReplicas dep \<and>
     dep_statusAvailable (deploymentOf dep) \<ge> desiredReplicas dep"

definition runsChecksum :: "string \<Rightarrow> kobj \<Rightarrow> bool" where
  "runsChecksum want dep \<longleftrightarrow>
     mget (dep_templateAnnotations (deploymentOf dep)) configChecksumAnnotation = want \<and> rolledOut dep"

fun allConverged :: "misskey \<Rightarrow> string \<Rightarrow> string list \<Rightarrow> bool io" where
  "allConverged m want [] = Ret True"
| "allConverged m want (n # ns) =
     bnd (kget KDeployment (mnamespace m) n) (\<lambda>r. case r of
       Inl e \<Rightarrow> Ret False
     | Inr dep \<Rightarrow> if \<not> runsChecksum want dep then Ret False else allConverged m want ns)"

definition misskeyWorkloadsConverged :: "misskey \<Rightarrow> plan \<Rightarrow> bool io" where
  "misskeyWorkloadsConverged m p =
     bnd (misskeyChecksum m p) (\<lambda>r. case r of
       Inl e \<Rightarrow> Ret False
     | Inr cs \<Rightarrow> allConverged m (mget cs configChecksumAnnotation) [nameApp m, nameWorker m])"

definition sensitiveDetectorConverged :: "misskey \<Rightarrow> (error + bool) io" where
  "sensitiveDetectorConverged m =
     bnd (kget KDeployment (mnamespace m) (nameSensitiveDetector m)) (\<lambda>r. case r of
       Inl e \<Rightarrow> if isNotFound e then Ret (Inr False) else Ret (Inl e)
     | Inr dep \<Rightarrow> Ret (Inr (rolledOut dep)))"

text \<open>
  \<open>ownKeyInUse m\<close>: the managed detector uses the Secret the operator generated, because the
  spec names none or names that very one.
\<close>

definition ownKeyInUse :: "misskey \<Rightarrow> bool" where
  "ownKeyInUse m = (case sensitiveDetector (spec m) of
     None \<Rightarrow> True
   | Some d \<Rightarrow> (case sd_apiKeySecret d of None \<Rightarrow> True | Some s \<Rightarrow> sel_name s = nameSensitiveDetector m))"

definition finalizeSensitiveDetectorCleanup ::
  "libs \<Rightarrow> misskey \<Rightarrow> plan \<Rightarrow> bool \<Rightarrow> sensitiveDetectorConfigState \<Rightarrow>
     (sensitiveDetectorConfigState \<times> (error + unit)) io" where
  "finalizeSensitiveDetectorCleanup L m p configComplete st =
     bnd (if configComplete then misskeyWorkloadsConverged m p else Ret False) (\<lambda>conv.
       if \<not> conv then Ret (st, Inr ())
       else if sensitiveDetectorManaged p then
         (if ownKeyInUse m then Ret (st, Inr ())
          else bnd (sensitiveDetectorConverged m) (\<lambda>r. case r of
            Inl e \<Rightarrow> Ret (st, Inl e)
          | Inr b \<Rightarrow> if \<not> b then Ret (st, Inr ())
              else bnd (cleanupGeneratedSensitiveDetectorSecret L m) (\<lambda>r. Ret (st, r))))
       else
         bnd (chk (cleanupSensitiveDetector m) (\<lambda>_. cleanupGeneratedSensitiveDetectorSecret L m)) (\<lambda>r. case r of
           Inl e \<Rightarrow> Ret (st, Inl e)
         | Inr _ \<Rightarrow>
             if sensitiveDetectorEnabled p then Ret (st, Inr ())
             else bnd (cleanupSensitiveDetectorConfigState m) (\<lambda>r. case r of
               Inl e \<Rightarrow> Ret (st, Inl e)
             | Inr _ \<Rightarrow> Ret (st\<lparr>ds_exists := False\<rparr>, Inr ()))))"

subsection \<open>Conditions\<close>

type_synonym verdict = "string \<times> string \<times> string"

definition deploymentReady :: "misskey \<Rightarrow> string \<Rightarrow> verdict io" where
  "deploymentReady m name =
     bnd (kget KDeployment (mnamespace m) name) (\<lambda>r. case r of
       Inl e \<Rightarrow> Ret (''False'', ''NotCreated'', ''Deployment not created'')
     | Inr dep \<Rightarrow>
         (let desired = desiredReplicas dep; available = dep_statusAvailable (deploymentOf dep);
              msg = itoa available @ ''/'' @ itoa desired @ '' available'' in
          if desired = 0 then Ret (''False'', ''Stopped'', ''replicas=0'')
          else if available \<ge> desired then Ret (''True'', ''Available'', msg)
          else Ret (''False'', ''Progressing'', msg)))"

definition sensitiveDetectorCondition :: "misskey \<Rightarrow> plan \<Rightarrow> verdict io" where
  "sensitiveDetectorCondition m p =
     (if \<not> sensitiveDetectorEnabled p
      then Ret (''False'', ''Disabling'', ''Sensitive Detector cleanup is in progress'')
      else bnd (sensitiveDetectorConfigComplete m) (\<lambda>done.
        if \<not> done then Ret (''False'', ''Configuring'', ''waiting for Sensitive Detector meta configuration'')
        else if \<not> sensitiveDetectorManaged p then Ret (''True'', ''Configured'', ''external Sensitive Detector configured'')
        else deploymentReady m (nameSensitiveDetector m)))"

subsection \<open>Footprints\<close>

lemma reconcileSensitiveDetector_within [foot_intros]:
  assumes "stable_owner L"
  shows "calls (within m (\<lambda>k n. k \<in> {KConfigMap, KService, KDeployment} \<and> n = nameSensitiveDetector m
      \<or> k = KPodDisruptionBudget)) (reconcileSensitiveDetector L m p)"
  unfolding reconcileSensitiveDetector_def Let_def
  by (intro struct_intros applyObj_within [OF assms] reconcilePDB_within [OF assms] secretVersion_calls)
     (auto simp: runs_chk_Inr)

lemma allConverged_calls [calls_intros]:
  "(\<And>n. P (QGet KDeployment (mnamespace m) n)) \<Longrightarrow> calls P (allConverged m want names)"
  by (induction names) (auto intro!: calls_intros)

lemma misskeyWorkloadsConverged_calls [calls_intros]:
  "(\<And>n. P (QGet KDeployment (mnamespace m) n)) \<Longrightarrow> (\<And>n. P (QGet KSecret (mnamespace m) n)) \<Longrightarrow>
     calls P (misskeyWorkloadsConverged m p)"
  unfolding misskeyWorkloadsConverged_def by (intro calls_intros)

lemma cleanupSecret_within [foot_intros]:
  "calls (within m (generatedSecret m)) (cleanupGeneratedSensitiveDetectorSecret L m)"
  unfolding cleanupGeneratedSensitiveDetectorSecret_def
  by (intro struct_intros) (auto simp: within_def atKey_def generatedSecret_def)

definition detectorCleanup :: "misskey \<Rightarrow> kind \<Rightarrow> string \<Rightarrow> bool" where
  "detectorCleanup m k n \<longleftrightarrow> generatedSecret m k n \<or> k \<in> {KJob, KConfigMap} \<or>
     k \<in> {KDeployment, KService, KPodDisruptionBudget} \<and> n = nameSensitiveDetector m"

lemma finalize_within [foot_intros]:
  assumes "mnamespace m \<noteq> []"
  shows "calls (within m (detectorCleanup m)) (finalizeSensitiveDetectorCleanup L m p done st)"
  unfolding finalizeSensitiveDetectorCleanup_def cleanupSensitiveDetector_def cleanupSensitiveDetectorConfigState_def
    sensitiveDetectorConverged_def
  by (intro struct_intros misskeyWorkloadsConverged_calls within_mono [OF cleanupSecret_within]
      cleanupSensitiveDetectorConfigJobs_calls deleteIfExists_within)
     (use assms in \<open>auto simp: detectorCleanup_def within_def listed_def generatedSecret_def\<close>)

subsection \<open>Nothing is removed while it may be in use\<close>

lemma allConverged_seen:
  "runs (allConverged m want names) tr True \<Longrightarrow> n \<in> set names \<Longrightarrow>
     \<exists>dep. (QGet KDeployment (mnamespace m) n, RObj dep) \<in> set tr \<and> runsChecksum want dep"
proof (induction names arbitrary: tr)
  case (Cons a names)
  from Cons.prems(1) obtain dep t where tr: "tr = (QGet KDeployment (mnamespace m) a, RObj dep) # t"
    and dep: "runsChecksum want dep" and run: "runs (allConverged m want names) t True"
    unfolding allConverged.simps by (cases rule: runs_kget) (auto split: if_splits)
  with Cons.IH [OF run] Cons.prems(2) show ?case by auto
qed simp

lemma converged_seen:
  assumes "runs (misskeyWorkloadsConverged m p) tr True"
  obtains cs t where "runs (misskeyChecksum m p) t (Inr cs)" "set t \<subseteq> set tr"
    "\<forall>w\<in>{nameApp m, nameWorker m}. \<exists>dep. (QGet KDeployment (mnamespace m) w, RObj dep) \<in> set tr \<and>
       runsChecksum (mget cs configChecksumAnnotation) dep"
proof -
  obtain t1 x t2 where tr: "tr = t1 @ t2" and x: "runs (misskeyChecksum m p) t1 x"
    and k: "runs (case x of Inl e \<Rightarrow> Ret False
      | Inr cs \<Rightarrow> allConverged m (mget cs configChecksumAnnotation) [nameApp m, nameWorker m]) t2 True"
    using assms unfolding misskeyWorkloadsConverged_def runs_bnd by blast
  then obtain cs where "x = Inr cs" by (cases x) auto
  with tr x k allConverged_seen [of m _ "[nameApp m, nameWorker m]" t2] show thesis by (intro that [of t1 cs]) auto
qed

lemma runs_bnd_test:
  assumes "runs (bnd m (\<lambda>x. if \<not> x then Ret a else g x)) tr res"
  obtains t1 x t2 where "tr = t1 @ t2" "runs m t1 x" "\<not> x \<longrightarrow> t2 = []"
proof -
  obtain t1 x t2 where "tr = t1 @ t2" "runs m t1 x" "runs (if \<not> x then Ret a else g x) t2 res"
    using assms unfolding runs_bnd by blast
  then show thesis using that [of t1 t2 x] by (cases x) auto
qed

text \<open>\<open>secretDelete ns n\<close>: the deletion of one Secret; \<open>ownedSecretSeen\<close>: the sight of it as one the operator made.\<close>

definition secretDelete :: "string \<Rightarrow> string \<Rightarrow> req \<times> resp \<Rightarrow> bool" where
  "secretDelete ns n e \<longleftrightarrow> (\<exists>pol. fst e = QDelete KSecret ns n pol)"

definition ownedSecretSeen :: "libs \<Rightarrow> misskey \<Rightarrow> string \<Rightarrow> string \<Rightarrow> req \<times> resp \<Rightarrow> bool" where
  "ownedSecretSeen L m ns n e \<longleftrightarrow> (\<exists>s. e = (QGet KSecret ns n, RObj s) \<and> generatedByOperator L m s)"

lemma cleanupSecret_guarded:
  "guarded (secretDelete ns n) (ownedSecretSeen L m ns n) (cleanupGeneratedSensitiveDetectorSecret L m)"
  unfolding guarded_def
proof (intro allI impI)
  fix tr a
  assume "runs (cleanupGeneratedSensitiveDetectorSecret L m) tr a"
  then show "gated (secretDelete ns n) (ownedSecretSeen L m ns n) tr"
    unfolding cleanupGeneratedSensitiveDetectorSecret_def
    by (cases rule: runs_kget)
       (auto simp: kdelete_def runs_Call_iff atKey_def secretDelete_def ownedSecretSeen_def split: if_splits)
qed

definition noSecretDelete :: "req \<Rightarrow> bool" where
  "noSecretDelete q \<longleftrightarrow> (\<forall>ns n pol. q \<noteq> QDelete KSecret ns n pol)"

lemma cleanup_keeps_secrets:
  "calls noSecretDelete (cleanupSensitiveDetector m)" "calls noSecretDelete (cleanupSensitiveDetectorConfigState m)"
  "calls noSecretDelete (sensitiveDetectorConverged m)" "calls noSecretDelete (misskeyWorkloadsConverged m p)"
  unfolding cleanupSensitiveDetector_def cleanupSensitiveDetectorConfigState_def sensitiveDetectorConverged_def
  by (intro struct_intros deleteIfExists_calls cleanupSensitiveDetectorConfigJobs_calls misskeyWorkloadsConverged_calls;
      auto simp: noSecretDelete_def)+

lemma finalize_guarded:
  "guarded (secretDelete ns n) (ownedSecretSeen L m ns n) (finalizeSensitiveDetectorCleanup L m p done st)"
  unfolding finalizeSensitiveDetectorCleanup_def
  by (intro guarded_intros cleanupSecret_guarded guarded_quiet [OF cleanup_keeps_secrets(1)]
      guarded_quiet [OF cleanup_keeps_secrets(2)] guarded_quiet [OF cleanup_keeps_secrets(3)]
      guarded_quiet [OF cleanup_keeps_secrets(4)])
     (auto simp: noSecretDelete_def secretDelete_def)

text \<open>
  C39: the removal of a detector never disturbs running Pods. Finalizing writes nothing unless
  the settings were written and it has seen, before any write, both the app and the worker
  Deployment completely rolled out with the checksum of the configuration it just computed;
  and a Secret is deleted only after it was read with the operator's label and owner.
\<close>
theorem detector_kept_until_converged:
  assumes run: "runs (finalizeSensitiveDetectorCleanup L m p done st) tr res"
  shows "((\<exists>e\<in>set tr. writes (fst e) \<noteq> None) \<longrightarrow> done \<and>
      (\<exists>pre post cs t. tr = pre @ post \<and> (\<forall>e\<in>set pre. writes (fst e) = None) \<and>
         runs (misskeyChecksum m p) t (Inr cs) \<and> set t \<subseteq> set pre \<and>
         (\<forall>w\<in>{nameApp m, nameWorker m}. \<exists>dep. (QGet KDeployment (mnamespace m) w, RObj dep) \<in> set pre \<and>
            runsChecksum (mget cs configChecksumAnnotation) dep)))
    \<and> gated (secretDelete ns n) (ownedSecretSeen L m ns n) tr"
proof (intro conjI impI)
  show "gated (secretDelete ns n) (ownedSecretSeen L m ns n) tr" by (rule guardedD [OF finalize_guarded run])
next
  assume wr: "\<exists>e\<in>set tr. writes (fst e) \<noteq> None"
  have quiet: "\<forall>e\<in>set t. writes (fst e) = None" if "runs (misskeyWorkloadsConverged m p) t a" for t a
    using calls_runs [OF misskeyWorkloadsConverged_calls [of "\<lambda>q. writes q = None" m p] that] by auto
  obtain t1 conv t2 where tr: "tr = t1 @ t2"
    and c: "runs (if done then misskeyWorkloadsConverged m p else Ret False) t1 conv"
    and rest: "\<not> conv \<longrightarrow> t2 = []"
    using run unfolding finalizeSensitiveDetectorCleanup_def by (rule runs_bnd_test)
  have "conv" using wr tr c rest quiet by (cases "done"; cases conv) auto
  with c have don: "done" "runs (misskeyWorkloadsConverged m p) t1 True" by (auto split: if_splits)
  obtain cs t where cs: "runs (misskeyChecksum m p) t (Inr cs)" "set t \<subseteq> set t1"
    "\<forall>w\<in>{nameApp m, nameWorker m}. \<exists>dep. (QGet KDeployment (mnamespace m) w, RObj dep) \<in> set t1 \<and>
       runsChecksum (mget cs configChecksumAnnotation) dep"
    by (rule converged_seen [OF don(2)])
  show "done" by (rule don(1))
  show "\<exists>pre post cs t. tr = pre @ post \<and> (\<forall>e\<in>set pre. writes (fst e) = None) \<and>
         runs (misskeyChecksum m p) t (Inr cs) \<and> set t \<subseteq> set pre \<and>
         (\<forall>w\<in>{nameApp m, nameWorker m}. \<exists>dep. (QGet KDeployment (mnamespace m) w, RObj dep) \<in> set pre \<and>
            runsChecksum (mget cs configChecksumAnnotation) dep)"
    using tr cs quiet [OF don(2)] by blast
qed

end
