(* ===== verification/GoTime.thy ===== *)
theory GoTime
  imports GoLib "HOL-Library.Monad_Syntax"
begin

section \<open>time.Parse for RFC 3339\<close>

text \<open>
  \<^verbatim>\<open>time.Parse(time.RFC3339, s)\<close> of the Go library, with its two liberties: the hour may have
  one digit, and a fraction of a second may follow a comma. Times are nanoseconds since the
  zero time, 1 January of year 1 in UTC.
\<close>

definition isDigit :: "char \<Rightarrow> bool" where
  "isDigit c \<longleftrightarrow> 48 \<le> byte c \<and> byte c \<le> 57"

definition digitVal :: "char \<Rightarrow> int" where
  "digitVal c = int (byte c) - 48"

definition numVal :: "string \<Rightarrow> int" where
  "numVal ds = foldl (\<lambda>n c. 10 * n + digitVal c) 0 ds"

fun getnum :: "bool \<Rightarrow> string \<Rightarrow> (int \<times> string) option" where
  "getnum fixed [] = None"
| "getnum fixed [c] = (if isDigit c \<and> \<not> fixed then Some (digitVal c, []) else None)"
| "getnum fixed (c # d # s) =
     (if \<not> isDigit c then None
      else if isDigit d then Some (10 * digitVal c + digitVal d, s)
      else if fixed then None else Some (digitVal c, d # s))"

fun literal :: "char \<Rightarrow> string \<Rightarrow> string option" where
  "literal c [] = None"
| "literal c (d # s) = (if c = d then Some s else None)"

definition boundedNum :: "int \<Rightarrow> int \<Rightarrow> int \<times> string \<Rightarrow> (int \<times> string) option" where
  "boundedNum lo hi ns = (if lo \<le> fst ns \<and> fst ns \<le> hi then Some ns else None)"

definition getYear :: "string \<Rightarrow> (int \<times> string) option" where
  "getYear s = (if length s \<ge> 4 \<and> list_all isDigit (take 4 s) then Some (numVal (take 4 s), drop 4 s) else None)"

definition getFraction :: "string \<Rightarrow> int \<times> string" where
  "getFraction s = (case s of
     c # d # r \<Rightarrow>
       if (c = CHR ''.'' \<or> c = CHR '','') \<and> isDigit d
       then (let ds = take 9 (takeWhile isDigit (d # r)) in
             (numVal ds * 10 ^ (9 - length ds), dropWhile isDigit (d # r)))
       else (0, s)
   | _ \<Rightarrow> (0, s))"

fun getZone :: "string \<Rightarrow> (int \<times> string) option" where
  "getZone [] = None"
| "getZone (z # s) =
     (if z = CHR ''Z'' then Some (0, s)
      else do {
        (hh, s1) \<leftarrow> getnum True s;
        s2 \<leftarrow> literal (CHR '':'') s1;
        (mm, s3) \<leftarrow> getnum True s2;
        if hh > 24 \<or> mm > 60 then None
        else if z = CHR ''+'' then Some ((hh * 60 + mm) * 60, s3)
        else if z = CHR ''-'' then Some (- (hh * 60 + mm) * 60, s3)
        else None
      })"

definition leapYear :: "int \<Rightarrow> bool" where
  "leapYear y \<longleftrightarrow> y mod 4 = 0 \<and> (y mod 100 \<noteq> 0 \<or> y mod 400 = 0)"

definition daysIn :: "int \<Rightarrow> int \<Rightarrow> int" where
  "daysIn mo y = (if mo = 2 then (if leapYear y then 29 else 28)
                  else if mo \<in> {4, 6, 9, 11} then 30 else 31)"

definition daysBefore :: "int \<Rightarrow> int \<Rightarrow> int \<Rightarrow> int" where
  "daysBefore y mo d =
     365 * (y - 1) + (y - 1) div 4 - (y - 1) div 100 + (y - 1) div 400 +
     sum_list (map (\<lambda>i. daysIn i y) [1..mo - 1]) + (d - 1)"

definition parseRFC3339 :: "string \<Rightarrow> gotime option" where
  "parseRFC3339 s = do {
     (y, s) \<leftarrow> getYear s;
     s \<leftarrow> literal (CHR ''-'') s;
     (mo, s) \<leftarrow> Option.bind (getnum True s) (boundedNum 1 12);
     s \<leftarrow> literal (CHR ''-'') s;
     (d, s) \<leftarrow> Option.bind (getnum True s) (boundedNum 1 (daysIn mo y));
     s \<leftarrow> literal (CHR ''T'') s;
     (h, s) \<leftarrow> Option.bind (getnum False s) (boundedNum 0 23);
     s \<leftarrow> literal (CHR '':'') s;
     (mi, s) \<leftarrow> Option.bind (getnum True s) (boundedNum 0 59);
     s \<leftarrow> literal (CHR '':'') s;
     (sec, s) \<leftarrow> Option.bind (getnum True s) (boundedNum 0 59);
     let (nsec, s) = getFraction s;
     (off, s) \<leftarrow> getZone s;
     if s = [] then Some ((daysBefore y mo d * 86400 + h * 3600 + mi * 60 + sec - off) * 1000000000 + nsec)
     else None
   }"

lemma parseRFC3339_examples:
  "parseRFC3339 ''0001-01-01T00:00:00Z'' = Some 0"
  "parseRFC3339 ''1970-01-01T09:00:00.5+09:00'' = Some 62135596800500000000"
  "parseRFC3339 ''2023-02-29T00:00:00Z'' = None"
  by code_simp+

end
