(* ===== verification/Controller.thy ===== *)
theory Controller
  imports DetectorLife Channel Deletion Proxy Tenancy Postgres GoTime
begin

section \<open>The Misskey controller (misskey\_controller.go)\<close>

text \<open>
  One reconcile of a Misskey: deletion or finalizer, image resolution, all children in
  dependency order (\<open>reconcileAll\<close>), then the status. The part that rolls out app and worker
  (\<open>reconcileRollout\<close>) is gated by the database, the pre-migration backup, the migration Job,
  the object-storage and detector settings and Redis.

  The source passes the detector's state by pointer, so every step that may change it returns
  it next to its result, also when it fails. \<open>reconcileBackupVerify\<close> may change the status of
  the object in memory; the changed object is what later steps get.
\<close>

subsection \<open>Messages and intervals\<close>

definition defaultDriftResyncInterval :: duration where
  "defaultDriftResyncInterval = 3 * minute"

definition driftInterval :: "duration \<Rightarrow> duration" where
  "driftInterval resync = (if resync > 0 then resync else defaultDriftResyncInterval)"

definition truncateSuffix :: string where
  "truncateSuffix = [CHR 0xE2, CHR 0x80, CHR 0xA6] @ ''(truncated)''"

fun runeCut :: "string \<Rightarrow> nat \<Rightarrow> nat" where
  "runeCut s 0 = 0"
| "runeCut s (Suc n) = (if runeStart (s ! Suc n) then Suc n else runeCut s n)"

definition truncateMsg :: "string \<Rightarrow> string" where
  "truncateMsg s =
     (if length s \<le> 1024 then s
      else take (runeCut s (1024 - length truncateSuffix)) s @ truncateSuffix)"

subsection \<open>Conditions of the parts\<close>

definition databaseCondition :: "misskey \<Rightarrow> plan \<Rightarrow> verdict io" where
  "databaseCondition m p =
     (if \<not> dbManaged p then Ret (''True'', ''External'', ''external database'')
      else bnd (kget KCnpgCluster (mnamespace m) (nameDB m)) (\<lambda>r. case r of
        Inl e \<Rightarrow> Ret (''False'', ''Pending'', ''CNPG Cluster not created'')
      | Inr cluster \<Rightarrow>
          (let ready = nestedInt64 cluster [''status'', ''readyInstances''];
               desired = int32OrDefault (pg_instances (postgres (spec m))) 1;
               msg = itoa ready @ ''/'' @ itoa desired @ '' instances ready'' in
           if desired > 0 \<and> ready \<ge> desired then Ret (''True'', ''Ready'', msg)
           else Ret (''False'', ''Progressing'', msg))))"

definition podReady :: "kobj \<Rightarrow> bool" where
  "podReady pod = list_ex (\<lambda>c. pc_type c = ''Ready'' \<and> pc_status c = ''True'') (podConditionsOf pod)"

definition readyPodsByAppLabel :: "string \<Rightarrow> string \<Rightarrow> int32 io" where
  "readyPodsByAppLabel ns label =
     bnd (klist KPod ns [(''app'', label)]) (\<lambda>r. case r of
       Inl e \<Rightarrow> Ret 0
     | Inr pods \<Rightarrow> Ret (int (length (filter podReady pods))))"

definition redisInstanceReady :: "misskey \<Rightarrow> redisManagedInstance \<Rightarrow> int32 io" where
  "redisInstanceReady m inst =
     (if ri_ha inst then readyPodsByAppLabel (mnamespace m) (nameRedisHA m (ri_suffix inst))
      else bnd (kget KStatefulSet (mnamespace m) (nameRedisInstance m (ri_suffix inst))) (\<lambda>r. case r of
        Inr sts \<Rightarrow> Ret (sts_statusReady (statefulSetOf sts))
      | Inl e \<Rightarrow> Ret 0))"

definition redisDesired :: "redisManagedInstance \<Rightarrow> int32" where
  "redisDesired inst = (if ri_ha inst then ri_replicas inst else 1)"

fun redisChecks :: "misskey \<Rightarrow> redisManagedInstance list \<Rightarrow> (bool \<times> string list) io" where
  "redisChecks m [] = Ret (True, [])"
| "redisChecks m (inst # insts) =
     bnd (redisInstanceReady m inst) (\<lambda>ready.
     bnd (redisChecks m insts) (\<lambda>(allReady, msgs).
       Ret (\<not> ready < redisDesired inst \<and> allReady,
            (nameRedisInstance m (ri_suffix inst) @ '' '' @ itoa ready @ ''/'' @ itoa (redisDesired inst)) # msgs)))"

definition redisCondition :: "libs \<Rightarrow> misskey \<Rightarrow> verdict io" where
  "redisCondition L m =
     (let instances = managedRedisInstances L m in
      if length instances = 0 then Ret (''True'', ''External'', ''external Redis'')
      else bnd (redisChecks m instances) (\<lambda>(allReady, msgs).
        let msg = joinWith '', '' msgs in
        if allReady then Ret (''True'', ''Ready'', msg) else Ret (''False'', ''Progressing'', msg)))"

definition searchCondition :: "misskey \<Rightarrow> plan \<Rightarrow> verdict io" where
  "searchCondition m p =
     (if \<not> meiliManaged p then Ret (''True'', ''External'', ''external MeiliSearch'')
      else bnd (kget KStatefulSet (mnamespace m) (nameMeili m)) (\<lambda>r. case r of
        Inl e \<Rightarrow> Ret (''False'', ''Pending'', ''MeiliSearch StatefulSet not created'')
      | Inr sts \<Rightarrow>
          if sts_statusReady (statefulSetOf sts) \<ge> 1 then Ret (''True'', ''Ready'', ''1/1 ready'')
          else Ret (''False'', ''Progressing'', ''0/1 ready'')))"

definition objectStorageCondition :: "misskey \<Rightarrow> plan \<Rightarrow> verdict io" where
  "objectStorageCondition m p =
     (if \<not> objAutoConfigure p
      then Ret (''True'', ''Unmanaged'', ''autoConfigure=false; apply object storage settings to the meta table yourself'')
      else case objectStorageAssignments p of
        Inl e \<Rightarrow> Ret (''False'', ''InvalidSpec'', errText e)
      | Inr assigns \<Rightarrow>
          bnd (objectStorageHash m p (renderObjectStorageSQL assigns) assigns) (\<lambda>hash.
          bnd (kget KJob (mnamespace m) (nameObjectStorage m hash)) (\<lambda>r. case r of
            Inl e \<Rightarrow> Ret (''False'', ''Pending'', ''meta Job not created'')
          | Inr j \<Rightarrow>
              if job_statusSucceeded (jobOf j) \<ge> 1
              then Ret (''True'', ''Configured'', ''object storage written to the meta table'')
              else if job_statusFailed (jobOf j) \<ge> 1 then Ret (''False'', ''Failed'', ''meta Job failed'')
              else Ret (''False'', ''Progressing'', ''meta Job running''))))"

definition migrationCondition :: "misskey \<Rightarrow> verdict io" where
  "migrationCondition m =
     bnd (kget KJob (mnamespace m) (nameMigrate m)) (\<lambda>r. case r of
       Inl e \<Rightarrow> Ret (''False'', ''Pending'', ''migration Job not created'')
     | Inr j \<Rightarrow>
         if job_statusSucceeded (jobOf j) \<ge> 1 then Ret (''True'', ''Complete'', ''migration complete'')
         else if job_statusFailed (jobOf j) \<ge> 1
         then Ret (''False'', ''Failed'', ''migration Job failed ('' @ itoa (job_statusFailed (jobOf j)) @ '')'')
         else Ret (''False'', ''Running'', ''migration running''))"

definition ingressCondition :: "misskey \<Rightarrow> verdict io" where
  "ingressCondition m =
     bnd (kget KIngress (mnamespace m) (mname m)) (\<lambda>r. case r of
       Inl e \<Rightarrow> Ret (''False'', ''Pending'', ''Ingress not created'')
     | Inr ing \<Rightarrow> Ret (''True'', ''Created'', ''Ingress created''))"

definition databaseReady :: "misskey \<Rightarrow> plan \<Rightarrow> bool io" where
  "databaseReady m p = bnd (databaseCondition m p) (\<lambda>(st, _). Ret (st = ''True''))"

definition redisReady :: "libs \<Rightarrow> misskey \<Rightarrow> bool io" where
  "redisReady L m = bnd (redisCondition L m) (\<lambda>(st, _). Ret (st = ''True''))"

subsection \<open>All children\<close>

text \<open>
  \<open>chkS s m f\<close>: like \<open>chk\<close> where the caller's state \<open>s\<close> is returned next to the error.
\<close>

definition chkS :: "'s \<Rightarrow> (error + 'a) io \<Rightarrow> ('a \<Rightarrow> ('s \<times> (error + 'b)) io) \<Rightarrow> ('s \<times> (error + 'b)) io" where
  "chkS s m f = bnd m (\<lambda>x. case x of Inl e \<Rightarrow> Ret (s, Inl e) | Inr a \<Rightarrow> f a)"

definition reconcileBase :: "libs \<Rightarrow> misskey \<Rightarrow> plan \<Rightarrow> (error + misskey) io" where
  "reconcileBase L m p =
     chk (whenE (meiliManaged p) (reconcileMeiliSecret L m)) (\<lambda>_.
     chk (whenE (setupManaged p) (reconcileSetupSecret L m)) (\<lambda>_.
     chk (whenE (sensitiveDetectorManaged p) (reconcileSensitiveDetectorSecret L m)) (\<lambda>_.
     chk (reconcileConfigMaps L m p) (\<lambda>_.
     chk (reconcileTenancy L m) (\<lambda>_.
     chk (whenE (sensitiveDetectorManaged p \<and> \<not> suspend (spec m)) (reconcileSensitiveDetector L m p)) (\<lambda>_.
     if dbManaged p then
       chk (reconcilePostgres L m) (\<lambda>_.
       chk (reconcilePoolers L m) (\<lambda>_.
       reconcileBackupVerify L m))
     else Ret (Inr m)))))))"

definition reconcileServices :: "libs \<Rightarrow> misskey \<Rightarrow> plan \<Rightarrow> (error + unit) io" where
  "reconcileServices L m p =
     chk (reconcileRedis L m) (\<lambda>_.
     chk (whenE (meiliManaged p) (reconcileMeilisearch L m p)) (\<lambda>_.
     chk (reconcileAppService L m) (\<lambda>_.
     whenE (\<not> objAutoConfigure p) (cleanupObjectStorage m))))"

definition rolloutWorkloads :: "libs \<Rightarrow> misskey \<Rightarrow> plan \<Rightarrow> bool \<Rightarrow> (error + unit) io" where
  "rolloutWorkloads L m p ok =
     bnd (if ok then redisReady L m else Ret False) (\<lambda>ready.
       if ready then chk (reconcileApp L m p) (\<lambda>_. reconcileWorker L m p) else Ret (Inr ()))"

definition rolloutMigrated ::
  "libs \<Rightarrow> misskey \<Rightarrow> plan \<Rightarrow> sensitiveDetectorConfigState \<Rightarrow> bool \<Rightarrow>
     (sensitiveDetectorConfigState \<times> (error + bool)) io" where
  "rolloutMigrated L m p st done0 =
     chkS st (if objAutoConfigure p then reconcileObjectStorage L m p else Ret (Inr True)) (\<lambda>objReady.
     bnd (if sensitiveDetectorEnabled p \<or> ds_exists st then reconcileSensitiveDetectorConfig L m p st
          else Ret (st, Inr done0)) (\<lambda>(st', r). case r of
       Inl e \<Rightarrow> Ret (st', Inl e)
     | Inr configDone \<Rightarrow>
         chkS st' (rolloutWorkloads L m p (objReady \<and> configDone)) (\<lambda>_. Ret (st', Inr configDone))))"

definition reconcileRollout ::
  "libs \<Rightarrow> misskey \<Rightarrow> plan \<Rightarrow> sensitiveDetectorConfigState \<Rightarrow> bool \<Rightarrow>
     (sensitiveDetectorConfigState \<times> (error + bool)) io" where
  "reconcileRollout L m p st done0 =
     (if suspend (spec m) then chkS st (suspendWorkloads L m p) (\<lambda>_. Ret (st, Inr done0))
      else bnd (databaseReady m p) (\<lambda>db.
        if \<not> db then Ret (st, Inr done0)
        else
          chkS st (reconcilePreMigrationBackup L m p) (\<lambda>backupDone.
          chkS st (if backupDone then reconcileMigration L m p else Ret (Inr False)) (\<lambda>complete.
          if complete then rolloutMigrated L m p st done0 else Ret (st, Inr done0)))))"

definition reconcileEdge :: "libs \<Rightarrow> misskey \<Rightarrow> plan \<Rightarrow> (error + unit) io" where
  "reconcileEdge L m p =
     chk (reconcileProxy L m) (\<lambda>_.
     chk (reconcileIngress L m p) (\<lambda>_.
     reconcileMonitoring L m p))"

definition reconcileAll ::
  "libs \<Rightarrow> misskey \<Rightarrow> sensitiveDetectorConfigState \<Rightarrow> (sensitiveDetectorConfigState \<times> (error + unit)) io" where
  "reconcileAll L m0 st0 =
     (let p = resolve m0 in
      chkS st0 (reconcileBase L m0 p) (\<lambda>m.
      chkS st0 (reconcileServices L m p) (\<lambda>_.
      bnd (readSensitiveDetectorConfigState m st0) (\<lambda>st.
        case ds_err st of
          Some e \<Rightarrow> Ret (st, Inl e)
        | None \<Rightarrow>
            bnd (reconcileRollout L m p st (\<not> sensitiveDetectorEnabled p \<and> \<not> ds_exists st)) (\<lambda>(st', r).
              case r of
                Inl e \<Rightarrow> Ret (st', Inl e)
              | Inr configDone \<Rightarrow>
                  chkS st' (reconcileEdge L m p) (\<lambda>_.
                    finalizeSensitiveDetectorCleanup L m p configDone st'))))))"

subsection \<open>Status\<close>

text \<open>A condition to set (type and verdict) or to remove.\<close>

definition condIf :: "bool \<Rightarrow> string \<Rightarrow> verdict io \<Rightarrow> ((string \<times> verdict) list \<times> string list) io" where
  "condIf b t v = (if b then bnd v (\<lambda>x. Ret ([(t, x)], [])) else Ret ([], [t]))"

fun gatherConds ::
  "((string \<times> verdict) list \<times> string list) io list \<Rightarrow> ((string \<times> verdict) list \<times> string list) io" where
  "gatherConds [] = Ret ([], [])"
| "gatherConds (c # cs) =
     bnd c (\<lambda>(s1, r1). bnd (gatherConds cs) (\<lambda>(s2, r2). Ret (s1 @ s2, r1 @ r2)))"

definition detectorCond :: "misskey \<Rightarrow> plan \<Rightarrow> sensitiveDetectorConfigState \<Rightarrow> verdict io" where
  "detectorCond m p st =
     (case ds_err st of
        Some e \<Rightarrow> Ret (''False'', ''StatusUnknown'', truncateMsg (errText e))
      | None \<Rightarrow> sensitiveDetectorCondition m p)"

definition subsystemConds ::
  "libs \<Rightarrow> misskey \<Rightarrow> plan \<Rightarrow> sensitiveDetectorConfigState \<Rightarrow> ((string \<times> verdict) list \<times> string list) io" where
  "subsystemConds L m p st = gatherConds
     [condIf True ''DatabaseReady'' (databaseCondition m p),
      condIf True ''RedisReady'' (redisCondition L m),
      condIf (meiliEnabled p) ''SearchReady'' (searchCondition m p),
      condIf True ''MigrationComplete'' (migrationCondition m),
      condIf (objEnabled p) ''ObjectStorageConfigured'' (objectStorageCondition m p),
      condIf (sensitiveDetectorEnabled p \<or> ds_exists st \<or> ds_err st \<noteq> None) ''SensitiveDetectorReady'' (detectorCond m p st),
      condIf True ''AppReady'' (deploymentReady m (nameApp m)),
      condIf True ''WorkerReady'' (deploymentReady m (nameWorker m)),
      condIf (boolOr (px_enabled (proxy (spec m))) True) ''ProxyReady'' (deploymentReady m (nameProxy m)),
      condIf (boolOr (ig_enabled (ingress (spec m))) True) ''IngressReady'' (ingressCondition m)]"

record aggregate =
  ag_ready :: bool
  ag_status :: string
  ag_reason :: string
  ag_message :: string
  ag_phase :: string

definition aggregateReady :: "misskey \<Rightarrow> error option \<Rightarrow> (string \<times> verdict) list \<Rightarrow> aggregate" where
  "aggregateReady m err conds =
     (case err of
        Some e \<Rightarrow> \<lparr>ag_ready = False, ag_status = ''False'', ag_reason = ''ReconcileError'',
          ag_message = truncateMsg (errText e), ag_phase = ''Error''\<rparr>
      | None \<Rightarrow>
          if suspend (spec m) then \<lparr>ag_ready = False, ag_status = ''False'', ag_reason = ''Suspended'',
            ag_message = ''suspended by spec.suspend'', ag_phase = ''Suspended''\<rparr>
          else if list_all (\<lambda>(t, s, _). s = ''True'') conds then \<lparr>ag_ready = True, ag_status = ''True'',
            ag_reason = ''Ready'', ag_message = ''all subsystems ready'', ag_phase = ''Running''\<rparr>
          else \<lparr>ag_ready = False, ag_status = ''False'', ag_reason = ''Progressing'',
            ag_message = ''waiting for subsystems'', ag_phase = ''Progressing''\<rparr>)"

definition nestedTime :: "kobj \<Rightarrow> string \<Rightarrow> gotime" where
  "nestedTime cluster field =
     (let s = nestedString cluster [''status'', field] in
      if s = [] then 0 else (case parseRFC3339 s of Some t \<Rightarrow> t | None \<Rightarrow> 0))"

definition readBackupStatus :: "misskey \<Rightarrow> plan \<Rightarrow> backupStatus option io" where
  "readBackupStatus m p =
     (if \<not> dbManaged p \<or> pg_backup (postgres (spec m)) = None then Ret None
      else bnd (kget KCnpgCluster (mnamespace m) (nameDB m)) (\<lambda>r. case r of
        Inl e \<Rightarrow> Ret None
      | Inr cluster \<Rightarrow>
          (let st = \<lparr>bs_lastSuccessfulBackup = nestedTime cluster ''lastSuccessfulBackup'',
                     bs_firstRecoverabilityPoint = nestedTime cluster ''firstRecoverabilityPoint''\<rparr> in
           if bs_lastSuccessfulBackup st = 0 \<and> bs_firstRecoverabilityPoint st = 0 then Ret None
           else Ret (Some st))))"

definition mkCondition :: "misskey \<Rightarrow> gotime \<Rightarrow> string \<times> verdict \<Rightarrow> condition" where
  "mkCondition cur now c = (case c of (t, s, reason, msg) \<Rightarrow>
     \<lparr>cond_type = t, cond_status = s, cond_reason = reason, cond_message = msg,
      cond_observedGeneration = om_generation (mk_meta cur), cond_lastTransitionTime = now\<rparr>)"

definition newStatus ::
  "libs \<Rightarrow> misskey \<Rightarrow> plan \<Rightarrow> misskey \<Rightarrow> gotime \<Rightarrow> (string \<times> verdict) list \<Rightarrow> string list \<Rightarrow> aggregate \<Rightarrow>
     backupStatus option \<Rightarrow> misskeyStatus" where
  "newStatus L m p cur now conds remove ag backup =
     (let cs1 = foldl (\<lambda>cs c. l_setStatusCondition L cs (mkCondition cur now c))
                  (st_conditions (status cur)) (conds @ [(''Ready'', ag_status ag, ag_reason ag, ag_message ag)]);
          cs2 = foldl (l_removeStatusCondition L) cs1 remove in
      (status cur)\<lparr>st_conditions := cs2, st_phase := ag_phase ag,
        st_observedGeneration := om_generation (mk_meta cur),
        st_databaseHost := dbHost p, st_redisHost := re_host (redisDefault p),
        st_searchIndex := (if meiliEnabled p then meiliIndex p else []),
        st_backup := backup, st_image := image (spec m)\<rparr>)"

definition statusAttempt ::
  "libs \<Rightarrow> misskey \<Rightarrow> plan \<Rightarrow> (string \<times> verdict) list \<Rightarrow> string list \<Rightarrow> aggregate \<Rightarrow> (error + unit) io" where
  "statusAttempt L m p conds remove ag =
     chk (getMisskey (mnamespace m) (mname m)) (\<lambda>cur.
     bnd timeNow (\<lambda>now.
     bnd (readBackupStatus m p) (\<lambda>backup.
     kstatusUpdate (misskeyObj (cur\<lparr>status := newStatus L m p cur now conds remove ag backup\<rparr>)))))"

definition updateStatus ::
  "libs \<Rightarrow> misskey \<Rightarrow> error option \<Rightarrow> sensitiveDetectorConfigState \<Rightarrow> (bool \<times> (error + unit)) io" where
  "updateStatus L m err st =
     (let p = resolve m in
      bnd (subsystemConds L m p st) (\<lambda>(conds, remove).
      let ag = aggregateReady m err conds in
      bnd (retryOnConflict (l_retrySteps L) (statusAttempt L m p conds remove ag)) (\<lambda>r.
        Ret (ag_ready ag, ignoreNotFound r))))"

subsection \<open>One reconcile\<close>

definition ensureFinalizer :: "libs \<Rightarrow> misskey \<Rightarrow> (error + misskey) io" where
  "ensureFinalizer L m =
     (case l_addFinalizer L m misskeyFinalizer of (m', added) \<Rightarrow>
        if added then
          chk (kupdate (misskeyObj m')) (\<lambda>x.
            Ret (if atKey KMisskey (mnamespace m) (mname m) x then asMisskey x else Inl badAnswer))
        else Ret (Inr m'))"

definition errorEvent :: "libs \<Rightarrow> error + unit \<Rightarrow> unit io" where
  "errorEvent L r = (case r of
     Inl e \<Rightarrow> event L EventWarning ''ReconcileError'' ''Reconcile'' (truncateMsg (errText e))
   | Inr _ \<Rightarrow> Ret ())"

text \<open>
  The children and the status. \<open>resolveImage\<close> changes the spec's image in memory; when it
  fails, what is left in memory is the object with the image the channel gave, if the failure
  came after that.
\<close>

definition resolveImageInMemory :: "libs \<Rightarrow> misskey \<Rightarrow> (misskey \<times> (error + unit)) io" where
  "resolveImageInMemory L m =
     bnd (resolveChannel m) (\<lambda>r. case r of
       Inl e \<Rightarrow> Ret (m, Inl e)
     | Inr m1 \<Rightarrow> bnd (trackDigest L m1) (\<lambda>r. case r of
         Inl e \<Rightarrow> Ret (m1, Inl e)
       | Inr m2 \<Rightarrow> Ret (m2, Inr ())))"

definition reconcileLive :: "libs \<Rightarrow> duration \<Rightarrow> misskey \<Rightarrow> (error + duration) io" where
  "reconcileLive L resync m0 =
     bnd (resolveImageInMemory L m0) (\<lambda>(m, r0).
     bnd (case r0 of Inl e \<Rightarrow> Ret (freshDetectorState, Inl e)
                   | Inr _ \<Rightarrow> reconcileAll L m freshDetectorState) (\<lambda>(st1, r).
     bnd (readSensitiveDetectorConfigState m st1) (\<lambda>st.
     bnd (errorEvent L r) (\<lambda>_.
     bnd (updateStatus L m (case r of Inl e \<Rightarrow> Some e | Inr _ \<Rightarrow> None) st) (\<lambda>(ready, _).
       case r of
         Inl e \<Rightarrow> Ret (Inl e)
       | Inr _ \<Rightarrow> Ret (Inr (if ready then driftInterval resync
                               else if suspend (spec m) then driftInterval resync else 15 * second)))))))"

definition reconcileMisskey :: "libs \<Rightarrow> duration \<Rightarrow> string \<Rightarrow> string \<Rightarrow> (error + duration) io" where
  "reconcileMisskey L resync ns n =
     bnd (getMisskey ns n) (\<lambda>r. case r of
       Inl e \<Rightarrow> if isNotFound e then Ret (Inr 0) else Ret (Inl e)
     | Inr m \<Rightarrow>
         if om_deletionTimestamp (mk_meta m) \<noteq> None
         then chk (reconcileDelete L m) (\<lambda>_. Ret (Inr 0))
         else chk (ensureFinalizer L m) (reconcileLive L resync))"

definition misskeysForChannel :: "string \<Rightarrow> (string \<times> string) list io" where
  "misskeysForChannel channel =
     bnd (klist KMisskey [] []) (\<lambda>r. case r of
       Inl e \<Rightarrow> Ret []
     | Inr xs \<Rightarrow> Ret (map (\<lambda>x. (knamespace x, kname x)) (filter (follows channel) xs)))"

end
