(* ===== verification/Gates.thy ===== *)
theory Gates
  imports Controller
begin

section \<open>The order of a reconcile: what app and worker wait for\<close>

text \<open>
  A Deployment of app or worker is stored only behind the gates of \<open>reconcileRollout\<close>. Each gate
  is a step that answers true only if the API server has just shown it something; the rest of
  \<open>reconcileAll\<close> does not store these Deployments at all. The proof walks the structure of the
  code with the rules of \<open>guarded\<close>, once for all gates.
\<close>

subsection \<open>Rules for the state-passing steps\<close>

lemma guarded_chkS_seen:
  assumes "guarded W G m" "\<And>t a. runs m t (Inr a) \<Longrightarrow> (\<exists>e\<in>set t. G e) \<or> guarded W G (f a)"
  shows "guarded W G (chkS s m f)"
  unfolding chkS_def
proof (rule guarded_bnd_seen [OF assms(1)])
  fix t x
  assume "runs m t x"
  then show "(\<exists>e\<in>set t. G e) \<or> guarded W G (case x of Inl e \<Rightarrow> Ret (s, Inl e) | Inr a \<Rightarrow> f a)"
    using assms(2) by (cases x) (auto intro: guarded_Ret)
qed

lemma guarded_chkS: "guarded W G m \<Longrightarrow> (\<And>a. guarded W G (f a)) \<Longrightarrow> guarded W G (chkS s m f)"
  by (rule guarded_chkS_seen) auto

lemma calls_chkS: "calls P m \<Longrightarrow> (\<And>a. calls P (f a)) \<Longrightarrow> calls P (chkS s m f)"
  unfolding chkS_def by (intro calls_bnd calls_sum) auto

lemma calls_chkS_runs: "calls P m \<Longrightarrow> (\<And>t a. runs m t (Inr a) \<Longrightarrow> calls P (f a)) \<Longrightarrow> calls P (chkS s m f)"
  unfolding chkS_def by (rule calls_bnd_runs) (auto split: sum.splits)

subsection \<open>Storing app or worker\<close>

definition workloadStore :: "misskey \<Rightarrow> req \<times> resp \<Rightarrow> bool" where
  "workloadStore m e \<longleftrightarrow> (\<exists>x. fst e = QStore x \<and> ko_kind x = KDeployment \<and> kname x \<in> {nameApp m, nameWorker m})"

lemma within_guarded:
  assumes "calls (within m F) c" "\<not> F KDeployment (nameApp m)" "\<not> F KDeployment (nameWorker m)"
  shows "guarded (workloadStore m) G c"
  by (rule guarded_quiet [OF assms(1)]) (use assms(2,3) in \<open>auto simp: workloadStore_def within_def\<close>)

text \<open>\<open>noStore\<close>: the request stores no object of the operator's making.\<close>

definition noStore :: "req \<Rightarrow> bool" where
  "noStore q \<longleftrightarrow> (case q of QStore _ \<Rightarrow> False | QCreate _ \<Rightarrow> False | QApply _ \<Rightarrow> False | _ \<Rightarrow> True)"

lemma suspend_quiet: "calls noStore (suspendWorkloads L m p)"
  unfolding suspendWorkloads_def suspendWorkload_def deleteHPA_def deleteScaledObject_def deleteTriggerAuth_def
  by (intro struct_intros deleteIfExists_calls) (auto simp: noStore_def)

lemma quiet_guarded: "calls noStore c \<Longrightarrow> guarded (workloadStore m) G c"
  by (erule guarded_quiet) (auto simp: workloadStore_def noStore_def)

lemma reads_quiet:
  "calls noStore (databaseCondition m p)" "calls noStore (redisReady L m)" "calls noStore (databaseReady m p)"
  "calls noStore (readSensitiveDetectorConfigState m st)"
proof -
  have redis: "calls noStore (redisChecks m insts)" for insts
    by (induction insts) (auto simp: redisInstanceReady_def readyPodsByAppLabel_def noStore_def
        split: prod.splits intro!: struct_intros)
  show db: "calls noStore (databaseCondition m p)"
    unfolding databaseCondition_def Let_def by (intro struct_intros) (simp add: noStore_def)
  show "calls noStore (redisReady L m)"
    unfolding redisReady_def redisCondition_def Let_def
    by (auto intro!: struct_intros redis split: prod.splits)
  show "calls noStore (databaseReady m p)"
    unfolding databaseReady_def by (auto intro!: struct_intros db)
  show "calls noStore (readSensitiveDetectorConfigState m st)"
    unfolding readSensitiveDetectorConfigState_def hasSensitiveDetectorConfigState_def
    by (intro struct_intros) (auto simp: noStore_def)
qed

lemma names_apart [simp]:
  "nameApp m \<noteq> nameWorker m" "nameWorker m \<noteq> nameApp m"
  "nameApp m \<noteq> nameProxy m" "nameApp m \<noteq> nameMaintenance m" "nameWorker m \<noteq> nameProxy m" "nameWorker m \<noteq> nameMaintenance m"
  "nameApp m \<noteq> nameSensitiveDetector m" "nameWorker m \<noteq> nameSensitiveDetector m"
  by (simp_all add: nameApp_def nameWorker_def nameProxy_def nameMaintenance_def nameSensitiveDetector_def)

subsection \<open>Everything but the rollout is quiet\<close>

lemma base_within:
  assumes "stable_owner L"
  shows "calls (within m (\<lambda>k n. generatedSecret m k n \<or> k \<in> {KConfigMap, KNetworkPolicy, KResourceQuota, KLimitRange,
      KService, KPodDisruptionBudget, KCnpgCluster, KCnpgScheduledBackup, KCnpgPooler} \<or>
      k = KDeployment \<and> n = nameSensitiveDetector m \<or> k = KMisskey \<and> n = mname m)) (reconcileBase L m p)"
  unfolding reconcileBase_def
  by (intro struct_intros within_mono [OF secrets_within(1) [OF assms]] within_mono [OF secrets_within(2) [OF assms]]
      within_mono [OF secrets_within(4) [OF assms]] within_mono [OF reconcileConfigMaps_within [OF assms]]
      within_mono [OF reconcileTenancy_within [OF assms]] within_mono [OF reconcileSensitiveDetector_within [OF assms]]
      within_mono [OF reconcilePostgres_within [OF assms]] within_mono [OF reconcilePoolers_within [OF assms]]
      within_mono [OF backupVerify_within [OF assms]])
     (auto simp: verifyWrites_def)

lemma services_within:
  assumes "stable_owner L" "mnamespace m \<noteq> []"
  shows "calls (within m (\<lambda>k n. generatedSecret m k n \<or> k \<in> redisKinds \<or> k \<in> {KJob, KConfigMap})) (reconcileServices L m p)"
  unfolding reconcileServices_def
  by (intro struct_intros within_mono [OF reconcileRedis_within [OF assms(1)]] within_mono [OF meilisearch_within [OF assms(1)]]
      within_mono [OF appService_within [OF assms(1)]] within_mono [OF cleanupObjectStorage_within [OF assms(2)]])
     (auto simp: redisKinds_def)

lemma edge_within:
  assumes "stable_owner L"
  shows "calls (within m (\<lambda>k n. k = KDeployment \<and> n \<in> {nameProxy m, nameMaintenance m} \<or>
      k \<in> {KService, KPodDisruptionBudget, KConfigMap, KIngress} \<or> k \<in> monitorKinds)) (reconcileEdge L m p)"
  unfolding reconcileEdge_def
  by (intro struct_intros within_mono [OF reconcileProxy_within [OF assms]] within_mono [OF reconcileIngress_within [OF assms]]
      within_mono [OF reconcileMonitoring_within [OF assms]]) auto

subsection \<open>The gates\<close>

text \<open>
  \<open>opens L m p st G\<close>: one of the gates on the way to the rollout answers true only after an
  exchange that satisfies \<open>G\<close>.
\<close>

definition opensRedis :: "libs \<Rightarrow> misskey \<Rightarrow> (req \<times> resp \<Rightarrow> bool) \<Rightarrow> bool" where
  "opensRedis L m G \<longleftrightarrow> (\<forall>t. runs (redisReady L m) t True \<longrightarrow> (\<exists>e\<in>set t. G e))"

definition opensDetector :: "libs \<Rightarrow> misskey \<Rightarrow> plan \<Rightarrow> sensitiveDetectorConfigState \<Rightarrow> (req \<times> resp \<Rightarrow> bool) \<Rightarrow> bool" where
  "opensDetector L m p st G \<longleftrightarrow> sensitiveDetectorEnabled p \<and>
     (\<forall>t st'. runs (reconcileSensitiveDetectorConfig L m p st) t (st', Inr True) \<longrightarrow> (\<exists>e\<in>set t. G e))"

definition opensObjectStorage :: "libs \<Rightarrow> misskey \<Rightarrow> plan \<Rightarrow> (req \<times> resp \<Rightarrow> bool) \<Rightarrow> bool" where
  "opensObjectStorage L m p G \<longleftrightarrow> objAutoConfigure p \<and>
     (\<forall>t. runs (reconcileObjectStorage L m p) t (Inr True) \<longrightarrow> (\<exists>e\<in>set t. G e))"

definition opensMigration :: "libs \<Rightarrow> misskey \<Rightarrow> plan \<Rightarrow> (req \<times> resp \<Rightarrow> bool) \<Rightarrow> bool" where
  "opensMigration L m p G \<longleftrightarrow> (\<forall>t. runs (reconcileMigration L m p) t (Inr True) \<longrightarrow> (\<exists>e\<in>set t. G e))"

definition opensDatabase :: "misskey \<Rightarrow> plan \<Rightarrow> (req \<times> resp \<Rightarrow> bool) \<Rightarrow> bool" where
  "opensDatabase m p G \<longleftrightarrow> (\<forall>t. runs (databaseReady m p) t True \<longrightarrow> (\<exists>e\<in>set t. G e))"

definition opens :: "libs \<Rightarrow> misskey \<Rightarrow> plan \<Rightarrow> sensitiveDetectorConfigState \<Rightarrow> (req \<times> resp \<Rightarrow> bool) \<Rightarrow> bool" where
  "opens L m p st G \<longleftrightarrow> opensDatabase m p G \<or> opensMigration L m p G \<or> opensObjectStorage L m p G \<or>
     opensDetector L m p st G \<or> opensRedis L m G"

lemma rolloutWorkloads_guarded:
  assumes "\<not> ok \<or> opensRedis L m G"
  shows "guarded (workloadStore m) G (rolloutWorkloads L m p ok)"
  unfolding rolloutWorkloads_def
proof (rule guarded_bnd_seen)
  show "guarded (workloadStore m) G (if ok then redisReady L m else Ret False)"
    by (intro guarded_if guarded_Ret quiet_guarded [OF reads_quiet(2)])
  show "(\<exists>e\<in>set t. G e) \<or> guarded (workloadStore m) G
      (if a then chk (reconcileApp L m p) (\<lambda>_. reconcileWorker L m p) else Ret (Inr ()))"
    if "runs (if ok then redisReady L m else Ret False) t a" for t a
    using that assms by (cases a) (auto simp: opensRedis_def guarded_Ret split: if_splits)
qed

lemma rolloutMigrated_guarded:
  assumes own: "stable_owner L" "mnamespace m \<noteq> []"
    and gate: "opensObjectStorage L m p G \<or> opensDetector L m p st G \<or> opensRedis L m G"
  shows "guarded (workloadStore m) G (rolloutMigrated L m p st done0)"
proof -
  let ?det = "if sensitiveDetectorEnabled p \<or> ds_exists st then reconcileSensitiveDetectorConfig L m p st
              else Ret (st, Inr done0)"
  let ?rest = "\<lambda>objReady (st', r). case r of Inl e \<Rightarrow> Ret (st', Inl e)
     | Inr configDone \<Rightarrow> chkS st' (rolloutWorkloads L m p (objReady \<and> configDone)) (\<lambda>_. Ret (st', Inr configDone))"
  have obj: "guarded (workloadStore m) G (if objAutoConfigure p then reconcileObjectStorage L m p else Ret (Inr True))"
    by (intro guarded_if guarded_Ret within_guarded [OF reconcileObjectStorage_within [OF own]]) auto
  have det: "guarded (workloadStore m) G ?det"
    by (intro guarded_if guarded_Ret within_guarded [OF detectorConfig_within [OF own]]) auto
  have tail: "guarded (workloadStore m) G (?rest objReady x)"
    if "\<not> objReady \<or> snd x = Inr False \<or> opensRedis L m G" for objReady x
    using that by (cases x; cases "snd x") (auto intro!: guarded_Ret guarded_chkS rolloutWorkloads_guarded)
  have "(\<exists>e\<in>set t. G e) \<or> guarded (workloadStore m) G (bnd ?det (?rest objReady))"
    if obj: "runs (if objAutoConfigure p then reconcileObjectStorage L m p else Ret (Inr True)) t (Inr objReady)" for t objReady
  proof (cases "\<exists>e\<in>set t. G e")
    case False
    with obj gate have o: "\<not> objReady \<or> opensDetector L m p st G \<or> opensRedis L m G"
      by (cases objReady) (auto simp: opensObjectStorage_def)
    have "guarded (workloadStore m) G (bnd ?det (?rest objReady))"
    proof (rule guarded_bnd_seen [OF det])
      fix t' x
      assume d: "runs ?det t' x"
      show "(\<exists>e\<in>set t'. G e) \<or> guarded (workloadStore m) G (?rest objReady x)"
      proof (cases "\<not> objReady \<or> opensRedis L m G")
        case True
        then show ?thesis using tail [of objReady x] by blast
      next
        case False
        with o have "opensDetector L m p st G" by simp
        with d have "(\<exists>e\<in>set t'. G e) \<or> snd x \<noteq> Inr True" by (cases x) (auto simp: opensDetector_def)
        moreover have "guarded (workloadStore m) G (?rest objReady x)" if "snd x \<noteq> Inr True"
        proof (cases "snd x")
          case (Inl e)
          then show ?thesis by (cases x) (auto intro: guarded_Ret)
        next
          case (Inr b)
          with that show ?thesis by (intro tail) auto
        qed
        ultimately show ?thesis by blast
      qed
    qed
    then show ?thesis ..
  qed blast
  then show ?thesis unfolding rolloutMigrated_def by (intro guarded_chkS_seen [OF obj]) (simp add: case_prod_unfold)
qed

lemma reconcileRollout_guarded:
  assumes own: "stable_owner L" "mnamespace m \<noteq> []" and gate: "opens L m p st G"
  shows "guarded (workloadStore m) G (reconcileRollout L m p st done0)"
proof -
  let ?mig = "\<lambda>backupDone. if backupDone then reconcileMigration L m p else Ret (Inr False)"
  let ?k = "\<lambda>complete. if complete then rolloutMigrated L m p st done0 else Ret (st, Inr done0)"
  have mig: "guarded (workloadStore m) G (?mig b)" for b
    by (intro guarded_if guarded_Ret within_guarded [OF reconcileMigration_within [OF own]]) auto
  have pre: "guarded (workloadStore m) G (reconcilePreMigrationBackup L m p)"
    by (rule within_guarded [OF preBackup_within [OF own]]) auto
  have k: "guarded (workloadStore m) G (chkS st (?mig b) ?k)" if nodb: "\<not> opensDatabase m p G" for b
  proof (rule guarded_chkS_seen [OF mig])
    fix t complete
    assume r: "runs (?mig b) t (Inr complete)"
    show "(\<exists>e\<in>set t. G e) \<or> guarded (workloadStore m) G (?k complete)"
    proof (cases "opensMigration L m p G")
      case True
      with r show ?thesis by (cases complete; cases b) (auto simp: opensMigration_def guarded_Ret)
    next
      case False
      with nodb gate have "opensObjectStorage L m p G \<or> opensDetector L m p st G \<or> opensRedis L m G" by (auto simp: opens_def)
      from rolloutMigrated_guarded [OF own this] show ?thesis by (cases complete) (auto intro: guarded_Ret)
    qed
  qed
  have db: "guarded (workloadStore m) G (bnd (databaseReady m p) (\<lambda>db. if \<not> db then Ret (st, Inr done0)
      else chkS st (reconcilePreMigrationBackup L m p) (\<lambda>b. chkS st (?mig b) ?k)))"
  proof (rule guarded_bnd_seen [OF quiet_guarded [OF reads_quiet(3)]])
    fix t db
    assume r: "runs (databaseReady m p) t db"
    show "(\<exists>e\<in>set t. G e) \<or> guarded (workloadStore m) G (if \<not> db then Ret (st, Inr done0)
      else chkS st (reconcilePreMigrationBackup L m p) (\<lambda>b. chkS st (?mig b) ?k))"
    proof (cases "opensDatabase m p G")
      case True
      with r show ?thesis by (cases db) (auto simp: opensDatabase_def guarded_Ret)
    next
      case False
      then show ?thesis by (intro disjI2 guarded_if guarded_Ret guarded_chkS pre k)
    qed
  qed
  show ?thesis unfolding reconcileRollout_def
    by (intro guarded_if guarded_chkS quiet_guarded [OF suspend_quiet] guarded_Ret db)
qed

subsection \<open>The whole reconcile\<close>

lemma same_workloads [simp]: "workloadStore (m\<lparr>status := s\<rparr>) = workloadStore m"
  by (auto simp: workloadStore_def nameApp_def nameWorker_def fun_eq_iff)

lemma same_names [simp]:
  "nameApp (m\<lparr>status := s\<rparr>) = nameApp m" "nameWorker (m\<lparr>status := s\<rparr>) = nameWorker m" "nameDB (m\<lparr>status := s\<rparr>) = nameDB m"
  "nameMigrate (m\<lparr>status := s\<rparr>) = nameMigrate m" "namePreBackup (m\<lparr>status := s\<rparr>) = namePreBackup m"
  "nameRedisInstance (m\<lparr>status := s\<rparr>) t = nameRedisInstance m t" "nameRedisHA (m\<lparr>status := s\<rparr>) t = nameRedisHA m t"
  "nameSensitiveDetector (m\<lparr>status := s\<rparr>) = nameSensitiveDetector m"
  by (simp_all add: nameApp_def nameWorker_def nameDB_def nameMigrate_def namePreBackup_def redis_name_defs
      nameSensitiveDetector_def)

lemma base_frame:
  assumes "runs (reconcileBase L m p) tr (Inr m')"
  shows "\<exists>s. m' = m\<lparr>status := s\<rparr>"
proof -
  have self: "\<exists>s. m = m\<lparr>status := s\<rparr>" by (rule exI [of _ "status m"]) simp
  show ?thesis
    using assms self unfolding reconcileBase_def runs_chk_Inr
    by (auto simp: runs_chk_Inr split: if_splits dest!: backupVerify_frame)
qed

lemma edge_guarded:
  "stable_owner L \<Longrightarrow> guarded (workloadStore m) G (reconcileEdge L m p)"
  by (rule within_guarded [OF edge_within]) (auto simp: monitorKinds_def)

lemma finalize_workloads:
  "mnamespace m \<noteq> [] \<Longrightarrow> guarded (workloadStore m) G (finalizeSensitiveDetectorCleanup L m p d st)"
  by (rule within_guarded [OF finalize_within]) (auto simp: detectorCleanup_def generatedSecret_def)

text \<open>
  The frame of \<open>reconcileAll\<close>: for a kind of exchange that everything around the rollout is
  quiet about, it is enough that the rollout is guarded.
\<close>

lemma reconcileAll_frame:
  assumes base: "guarded W G (reconcileBase L m0 (resolve m0))"
    and services: "\<And>s. guarded W G (reconcileServices L (m0\<lparr>status := s\<rparr>) (resolve m0))"
    and state: "\<And>s. guarded W G (readSensitiveDetectorConfigState (m0\<lparr>status := s\<rparr>) st0)"
    and rollout: "\<And>s st d. guarded W G (reconcileRollout L (m0\<lparr>status := s\<rparr>) (resolve m0) st d)"
    and edge: "\<And>s. guarded W G (reconcileEdge L (m0\<lparr>status := s\<rparr>) (resolve m0))"
    and finalize: "\<And>s st d. guarded W G (finalizeSensitiveDetectorCleanup L (m0\<lparr>status := s\<rparr>) (resolve m0) d st)"
  shows "guarded W G (reconcileAll L m0 st0)"
  unfolding reconcileAll_def Let_def
proof (rule guarded_chkS_seen [OF base], rule disjI2)
  fix t m
  assume "runs (reconcileBase L m0 (resolve m0)) t (Inr m)"
  then obtain s where m: "m = m0\<lparr>status := s\<rparr>" using base_frame by blast
  show "guarded W G (chkS st0 (reconcileServices L m (resolve m0)) (\<lambda>_. bnd (readSensitiveDetectorConfigState m st0) (\<lambda>st.
      case ds_err st of Some e \<Rightarrow> Ret (st, Inl e)
      | None \<Rightarrow> bnd (reconcileRollout L m (resolve m0) st (\<not> sensitiveDetectorEnabled (resolve m0) \<and> \<not> ds_exists st)) (\<lambda>(st', r).
          case r of Inl e \<Rightarrow> Ret (st', Inl e)
          | Inr configDone \<Rightarrow> chkS st' (reconcileEdge L m (resolve m0)) (\<lambda>_.
              finalizeSensitiveDetectorCleanup L m (resolve m0) configDone st')))))"
    unfolding m by (intro guarded_chkS guarded_bnd guarded_option guarded_prod guarded_sum guarded_Ret
        services state rollout edge finalize)
qed

lemma around_rollout_quiet:
  assumes own: "stable_owner L" "mnamespace m \<noteq> []"
  shows "guarded (workloadStore m) G (reconcileBase L m p)"
    "guarded (workloadStore m) G (reconcileServices L (m\<lparr>status := s\<rparr>) p)"
    "guarded (workloadStore m) G (readSensitiveDetectorConfigState (m\<lparr>status := s\<rparr>) st)"
    "guarded (workloadStore m) G (reconcileEdge L (m\<lparr>status := s\<rparr>) p)"
    "guarded (workloadStore m) G (finalizeSensitiveDetectorCleanup L (m\<lparr>status := s\<rparr>) p d st)"
proof -
  let ?m = "m\<lparr>status := s\<rparr>"
  have ns: "mnamespace ?m \<noteq> []" using own by simp
  show "guarded (workloadStore m) G (reconcileBase L m p)"
    by (rule within_guarded [OF base_within [OF own(1)]]) (auto simp: generatedSecret_def)
  show "guarded (workloadStore m) G (reconcileServices L ?m p)"
    using within_guarded [OF services_within [OF own(1) ns]] by (auto simp: generatedSecret_def redisKinds_def)
  show "guarded (workloadStore m) G (readSensitiveDetectorConfigState ?m st)"
    by (rule quiet_guarded [OF reads_quiet(4)])
  show "guarded (workloadStore m) G (reconcileEdge L ?m p)"
    using edge_guarded [OF own(1), of ?m] by simp
  show "guarded (workloadStore m) G (finalizeSensitiveDetectorCleanup L ?m p d st)"
    using finalize_workloads [OF ns] by simp
qed

lemma reconcileAll_guarded:
  assumes own: "stable_owner L" "mnamespace m0 \<noteq> []" and gate: "\<And>s st. opens L (m0\<lparr>status := s\<rparr>) (resolve m0) st G"
  shows "guarded (workloadStore m0) G (reconcileAll L m0 st0)"
proof (rule reconcileAll_frame)
  fix s st d
  have ns: "mnamespace (m0\<lparr>status := s\<rparr>) \<noteq> []" using own by simp
  show "guarded (workloadStore m0) G (reconcileRollout L (m0\<lparr>status := s\<rparr>) (resolve m0) st d)"
    using reconcileRollout_guarded [OF own(1) ns gate] by simp
qed (rule around_rollout_quiet [OF own])+

lemma gated_never: "gated W (\<lambda>_. False) tr \<longleftrightarrow> (\<forall>e\<in>set tr. \<not> W e)"
  by (induction tr) auto

subsection \<open>What each gate has seen\<close>

definition databaseSeen :: "misskey \<Rightarrow> req \<times> resp \<Rightarrow> bool" where
  "databaseSeen m e \<longleftrightarrow> (\<exists>c. e = (QGet KCnpgCluster (mnamespace m) (nameDB m), RObj c) \<and>
     nestedInt64 c [''status'', ''readyInstances''] \<ge> int32OrDefault (pg_instances (postgres (spec m))) 1)"

definition redisSeen :: "misskey \<Rightarrow> redisManagedInstance \<Rightarrow> req \<times> resp \<Rightarrow> bool" where
  "redisSeen m i e \<longleftrightarrow>
     (if ri_ha i
      then \<exists>pods. e = (QList KPod (mnamespace m) [(''app'', nameRedisHA m (ri_suffix i))], RObjs pods) \<and>
             int (length (filter podReady pods)) \<ge> redisDesired i
      else \<exists>sts. e = (QGet KStatefulSet (mnamespace m) (nameRedisInstance m (ri_suffix i)), RObj sts) \<and>
             sts_statusReady (statefulSetOf sts) \<ge> redisDesired i)"

lemma opens_database:
  assumes "dbManaged p"
  shows "opensDatabase m p (databaseSeen m)"
  unfolding opensDatabase_def
proof (intro allI impI)
  fix t
  assume "runs (databaseReady m p) t True"
  then obtain t1 v where "set t1 \<subseteq> set t" and v: "runs (databaseCondition m p) t1 (''True'', v)"
    unfolding databaseReady_def by (auto simp: runs_bnd)
  moreover have "\<exists>e\<in>set t1. databaseSeen m e"
  proof -
    have "runs (bnd (kget KCnpgCluster (mnamespace m) (nameDB m)) (\<lambda>r. case r of
        Inl e \<Rightarrow> Ret (''False'', ''Pending'', ''CNPG Cluster not created'')
      | Inr cluster \<Rightarrow>
          (let ready = nestedInt64 cluster [''status'', ''readyInstances''];
               desired = int32OrDefault (pg_instances (postgres (spec m))) 1;
               msg = itoa ready @ ''/'' @ itoa desired @ '' instances ready'' in
           if desired > 0 \<and> ready \<ge> desired then Ret (''True'', ''Ready'', msg)
           else Ret (''False'', ''Progressing'', msg)))) t1 (''True'', v)"
      using v assms unfolding databaseCondition_def by (simp only: not_True_eq_False if_False)
    then show ?thesis
      by (cases rule: runs_kget) (auto simp: databaseSeen_def Let_def split: if_splits)
  qed
  ultimately show "\<exists>e\<in>set t. databaseSeen m e" by blast
qed

lemma redisInstance_seen:
  assumes "runs (redisInstanceReady m i) t ready" "ready \<ge> redisDesired i" "redisDesired i \<ge> 1"
  shows "\<exists>e\<in>set t. redisSeen m i e"
proof (cases "ri_ha i")
  case True
  let ?sel = "[(''app'', nameRedisHA m (ri_suffix i))]"
  have "runs (readyPodsByAppLabel (mnamespace m) (nameRedisHA m (ri_suffix i))) t ready"
    using assms(1) True unfolding redisInstanceReady_def by (simp only: if_True)
  then obtain t1 x t2 where t: "t = t1 @ t2" "runs (klist KPod (mnamespace m) ?sel) t1 x"
    "runs (case x of Inl e \<Rightarrow> Ret 0 | Inr pods \<Rightarrow> Ret (int (length (filter podReady pods)))) t2 ready"
    unfolding readyPodsByAppLabel_def runs_bnd by blast
  then obtain r where r: "t1 = [(QList KPod (mnamespace m) ?sel, r)]" "x = asListOf KPod (mnamespace m) ?sel r"
    by (auto simp: klist_def runs_Call_iff)
  show ?thesis
  proof (cases "asListOf KPod (mnamespace m) ?sel r")
    case (Inl e)
    with r(2) t(3) assms(2,3) show ?thesis by simp
  next
    case (Inr pods)
    with r t assms(2) True show ?thesis by (simp add: redisSeen_def)
  qed
next
  case False
  with assms(1) have "runs (bnd (kget KStatefulSet (mnamespace m) (nameRedisInstance m (ri_suffix i))) (\<lambda>r. case r of
        Inr sts \<Rightarrow> Ret (sts_statusReady (statefulSetOf sts)) | Inl e \<Rightarrow> Ret 0)) t ready"
    unfolding redisInstanceReady_def by (simp only: if_False)
  then show ?thesis
    by (cases rule: runs_kget) (use assms(2,3) False in \<open>auto simp: redisSeen_def\<close>)
qed

lemma redisChecks_seen:
  assumes "runs (redisChecks m insts) t (True, msgs)" "i \<in> set insts" "redisDesired i \<ge> 1"
  shows "\<exists>e\<in>set t. redisSeen m i e"
  using assms
proof (induction insts arbitrary: t msgs)
  case (Cons a insts)
  from Cons.prems(1) obtain t1 ready t2 msgs' where t: "t = t1 @ t2" and r: "runs (redisInstanceReady m a) t1 ready"
    and ge: "ready \<ge> redisDesired a" and rest: "runs (redisChecks m insts) t2 (True, msgs')"
    by (auto simp: runs_bnd split: prod.splits)
  show ?case
  proof (cases "i = a")
    case True
    with redisInstance_seen [OF r ge] Cons.prems(3) t show ?thesis by auto
  next
    case False
    with Cons.IH [OF rest] Cons.prems(2,3) t show ?thesis by auto
  qed
qed simp

lemma opens_redis:
  assumes "i \<in> set (managedRedisInstances L m)" "redisDesired i \<ge> 1"
  shows "opensRedis L m (redisSeen m i)"
proof -
  have "\<exists>e\<in>set t. redisSeen m i e" if run: "runs (redisReady L m) t True" for t
  proof -
    have "managedRedisInstances L m \<noteq> []" using assms by auto
    with run obtain t1 b msgs where "set t1 \<subseteq> set t" "runs (redisChecks m (managedRedisInstances L m)) t1 (b, msgs)" "b"
      unfolding redisReady_def redisCondition_def Let_def by (auto simp: runs_bnd split: if_splits)
    with redisChecks_seen [of m _ t1 msgs i] assms show ?thesis by auto
  qed
  then show ?thesis by (simp add: opensRedis_def)
qed

lemma opens_detector:
  assumes "sensitiveDetectorEnabled p" "sensitiveDetector (spec m) \<noteq> None"
  shows "opensDetector L m p st (jobSeen m isDetectorConfigJob)"
  unfolding opensDetector_def
proof (intro conjI allI impI)
  fix t st'
  assume "runs (reconcileSensitiveDetectorConfig L m p st) t (st', Inr True)"
  then show "\<exists>e\<in>set t. jobSeen m isDetectorConfigJob e"
  proof (cases rule: reconcileSensitiveDetectorConfig_cases)
    case (step t1 t2)
    with detector_gate.seen [of L m p t2] show ?thesis by auto
  qed (use assms in simp_all)
qed (use assms in simp)

lemma same_seen [simp]:
  "databaseSeen (m\<lparr>status := s\<rparr>) = databaseSeen m" "redisSeen (m\<lparr>status := s\<rparr>) = redisSeen m"
  "jobSeen (m\<lparr>status := s\<rparr>) (\<lambda>m n. n = nameMigrate m) = jobSeen m (\<lambda>m n. n = nameMigrate m)"
  "jobSeen (m\<lparr>status := s\<rparr>) isObjectStorageJob = jobSeen m isObjectStorageJob"
  "jobSeen (m\<lparr>status := s\<rparr>) isDetectorConfigJob = jobSeen m isDetectorConfigJob"
  by (auto simp: databaseSeen_def redisSeen_def jobSeen_def isObjectStorageJob_def isDetectorConfigJob_def
      nameObjectStorage_def nameSensitiveDetectorConfigJob_def fun_eq_iff)

lemma same_instance: "buildManagedInstance L (m\<lparr>status := s\<rparr>) = buildManagedInstance L m"
  by (simp add: fun_eq_iff buildManagedInstance_def)

lemma same_role: "roleInstance L (m\<lparr>status := s\<rparr>) = roleInstance L m"
  by (auto simp: fun_eq_iff roleInstance_def same_instance split: option.split)

lemma same_instances [simp]: "managedRedisInstances L (m\<lparr>status := s\<rparr>) = managedRedisInstances L m"
  by (simp add: managedRedisInstances_def same_instance same_role Let_def split: option.split)

lemma detector_enabled: "sensitiveDetectorEnabled (resolve m) \<longleftrightarrow> sensitiveDetector (spec m) \<noteq> None"
proof -
  have "sensitiveDetectorEnabled (resolveSetup m q) = sensitiveDetectorEnabled q" for q
    by (auto simp: resolveSetup_def split: option.splits)
  moreover have "sensitiveDetectorEnabled (resolveIngress m q) = sensitiveDetectorEnabled q" for q
    by (simp add: resolveIngress_def)
  moreover have "sensitiveDetectorEnabled (resolveDetector m q) \<longleftrightarrow> sensitiveDetector (spec m) \<noteq> None \<or> sensitiveDetectorEnabled q" for q
    unfolding resolveDetector_def Let_def by (auto split: option.splits)
  moreover have "\<not> sensitiveDetectorEnabled (resolveObjectStorage m (resolveSearch m (resolveRedis m (resolveDB m zeroPlan))))"
    by (auto simp: resolveObjectStorage_def resolveSearch_def resolveRedis_def resolveDB_def zeroPlan_def Let_def split: option.splits)
  ultimately show ?thesis by (simp add: resolve_def)
qed

text \<open>
  C3: app and worker are rolled out only when everything they depend on is there. In every
  reconcile, whatever the API server answers, a Deployment of app or worker is stored only
  after the migration Job of the current image was seen succeeded; after the object-storage
  and detector Jobs were, when those settings are managed; after the managed database was seen
  with all its instances ready; and after every managed Redis instance was seen ready.
\<close>
theorem rollout_waits_for_dependencies:
  assumes run: "runs (reconcileAll L m st) tr res" and own: "stable_owner L" "mnamespace m \<noteq> []"
  shows "gated (workloadStore m) (jobSeen m (\<lambda>m n. n = nameMigrate m)) tr
    \<and> (objAutoConfigure (resolve m) \<longrightarrow> gated (workloadStore m) (jobSeen m isObjectStorageJob) tr)
    \<and> (sensitiveDetector (spec m) \<noteq> None \<longrightarrow> gated (workloadStore m) (jobSeen m isDetectorConfigJob) tr)
    \<and> (dbManaged (resolve m) \<longrightarrow> gated (workloadStore m) (databaseSeen m) tr)
    \<and> (\<forall>i\<in>set (managedRedisInstances L m). redisDesired i \<ge> 1 \<longrightarrow> gated (workloadStore m) (redisSeen m i) tr)"
proof (intro conjI impI ballI)
  note all = guardedD [OF reconcileAll_guarded [OF own] run]
  have mig: "opensMigration L (m\<lparr>status := s\<rparr>) p (jobSeen m (\<lambda>m n. n = nameMigrate m))" for s p
    using migration_gate.seen [of L "m\<lparr>status := s\<rparr>" p] by (simp add: opensMigration_def)
  show "gated (workloadStore m) (jobSeen m (\<lambda>m n. n = nameMigrate m)) tr"
    by (rule all) (use mig in \<open>simp add: opens_def\<close>)
  show "gated (workloadStore m) (jobSeen m isObjectStorageJob) tr" if "objAutoConfigure (resolve m)"
    by (rule all) (use object_storage_gate.seen [of L "m\<lparr>status := _\<rparr>" "resolve m"] that in
        \<open>simp add: opens_def opensObjectStorage_def\<close>)
  show "gated (workloadStore m) (jobSeen m isDetectorConfigJob) tr" if "sensitiveDetector (spec m) \<noteq> None"
  proof (rule all)
    fix s st
    show "opens L (m\<lparr>status := s\<rparr>) (resolve m) st (jobSeen m isDetectorConfigJob)"
      using opens_detector [of "resolve m" "m\<lparr>status := s\<rparr>" L st] that by (simp add: opens_def detector_enabled)
  qed
  show "gated (workloadStore m) (databaseSeen m) tr" if "dbManaged (resolve m)"
    by (rule all) (use opens_database [OF that, of "m\<lparr>status := _\<rparr>"] in \<open>simp add: opens_def\<close>)
  show "gated (workloadStore m) (redisSeen m i) tr" if "i \<in> set (managedRedisInstances L m)" "redisDesired i \<ge> 1" for i
    by (rule all) (use opens_redis [of i L "m\<lparr>status := _\<rparr>"] that in \<open>simp add: opens_def\<close>)
qed

end
