(* ===== verification/Lifecycle.thy ===== *)
theory Lifecycle
  imports Gates
begin

section \<open>The life of an instance: confinement, suspension, status\<close>

text \<open>
  Properties of a whole reconcile, from the request to the status: what it may write at all,
  when the next one is due, what suspending does, when a migration may start, and what the status says.
\<close>

subsection \<open>Results of programs\<close>

text \<open>\<open>yields Q c\<close>: every result \<open>c\<close> can have satisfies \<open>Q\<close>.\<close>

definition yields :: "('a \<Rightarrow> bool) \<Rightarrow> 'a io \<Rightarrow> bool" where
  "yields Q c \<longleftrightarrow> (\<forall>t a. runs c t a \<longrightarrow> Q a)"

lemma yields_Ret: "Q a \<Longrightarrow> yields Q (Ret a)"
  by (simp add: yields_def)

lemma yields_bnd: "(\<And>a. yields Q (f a)) \<Longrightarrow> yields Q (bnd c f)"
  by (auto simp: yields_def runs_bnd)

lemma yields_bnd_using: "yields R c \<Longrightarrow> (\<And>a. R a \<Longrightarrow> yields Q (f a)) \<Longrightarrow> yields Q (bnd c f)"
  unfolding yields_def runs_bnd by blast

lemma yields_sum:
  "(\<And>e. x = Inl e \<Longrightarrow> yields Q (f e)) \<Longrightarrow> (\<And>a. x = Inr a \<Longrightarrow> yields Q (g a)) \<Longrightarrow> yields Q (case x of Inl e \<Rightarrow> f e | Inr a \<Rightarrow> g a)"
  by (cases x) auto

lemma yields_chk: "(\<And>e. Q (Inl e)) \<Longrightarrow> (\<And>a. yields Q (f a)) \<Longrightarrow> yields Q (chk c f)"
  by (auto simp: yields_def runs_chk)

lemma yields_if: "(b \<Longrightarrow> yields Q c) \<Longrightarrow> (\<not> b \<Longrightarrow> yields Q d) \<Longrightarrow> yields Q (if b then c else d)"
  by simp

lemma yields_option:
  "(x = None \<Longrightarrow> yields Q c) \<Longrightarrow> (\<And>a. x = Some a \<Longrightarrow> yields Q (g a)) \<Longrightarrow> yields Q (case x of None \<Rightarrow> c | Some a \<Rightarrow> g a)"
  by (cases x) auto

lemmas yields_intros = yields_bnd yields_sum yields_chk yields_if yields_option yields_Ret

subsection \<open>Confinement\<close>

text \<open>
  \<open>confined ns n q\<close>: what \<open>q\<close> writes, if anything, lies in the namespace \<open>ns\<close>; a Secret only
  under one of the four generated names of the instance \<open>n\<close>; a Misskey only if it is \<open>n\<close> itself;
  and never a Pod or a channel.
\<close>

definition ownObject :: "string \<Rightarrow> kind \<Rightarrow> string \<Rightarrow> bool" where
  "ownObject n k x \<longleftrightarrow>
     (k = KSecret \<longrightarrow> x \<in> {n @ ''-setup'', n @ ''-meilisearch'', n @ ''-redis-auth'', n @ ''-sensitive-detector''}) \<and>
     (k = KMisskey \<longrightarrow> x = n) \<and> k \<noteq> KPod \<and> k \<noteq> KMisskeyChannel"

definition confined :: "string \<Rightarrow> string \<Rightarrow> req \<Rightarrow> bool" where
  "confined ns n q \<longleftrightarrow> orderly q \<and> (\<forall>k ns' x. writes q = Some (k, ns', x) \<longrightarrow> ns' = ns \<and> ownObject n k x)"

lemma confined_read [simp]: "readOnly q \<Longrightarrow> confined ns n q"
  by (simp add: confined_def readOnly_def)

lemma within_confined:
  assumes "calls (within m F) c" "\<And>k x. F k x \<Longrightarrow> ownObject (mname m) k x"
  shows "calls (confined (mnamespace m) (mname m)) c"
  by (rule calls_mono [OF assms(1)]) (use assms(2) in \<open>auto simp: confined_def within_def\<close>)

lemma generated_own: "generatedSecret m k x \<Longrightarrow> ownObject (mname m) k x"
  by (auto simp: generatedSecret_def ownObject_def nameSetup_def nameMeili_def nameRedisAuthSecret_def nameSensitiveDetector_def)

lemma own_other: "k \<notin> {KSecret, KMisskey, KPod, KMisskeyChannel} \<Longrightarrow> ownObject n k x"
  by (simp add: ownObject_def)

lemma own_self: "ownObject n KMisskey n"
  by (simp add: ownObject_def)

lemma read_calls: "calls readOnly c \<Longrightarrow> calls (confined ns n) c"
  by (erule calls_mono) simp

lemma confined_all:
  assumes "stable_owner L" "mnamespace m \<noteq> []"
  shows "calls (confined (mnamespace m) (mname m)) (reconcileBase L m p)"
    "calls (confined (mnamespace m) (mname m)) (reconcileServices L m p)"
    "calls (confined (mnamespace m) (mname m)) (reconcileEdge L m p)"
    "calls (confined (mnamespace m) (mname m)) (finalizeSensitiveDetectorCleanup L m p d st)"
    "calls (confined (mnamespace m) (mname m)) (reconcileMigration L m p)"
    "calls (confined (mnamespace m) (mname m)) (reconcilePreMigrationBackup L m p)"
    "calls (confined (mnamespace m) (mname m)) (reconcileObjectStorage L m p)"
    "calls (confined (mnamespace m) (mname m)) (reconcileSensitiveDetectorConfig L m p st)"
    "calls (confined (mnamespace m) (mname m)) (reconcileApp L m p)"
    "calls (confined (mnamespace m) (mname m)) (reconcileWorker L m p)"
    "calls (confined (mnamespace m) (mname m)) (suspendWorkloads L m p)"
proof -
  show "calls (confined (mnamespace m) (mname m)) (reconcileBase L m p)"
    by (rule within_confined [OF base_within [OF assms(1)]]) (auto intro: generated_own simp: own_self own_other)
  show "calls (confined (mnamespace m) (mname m)) (reconcileServices L m p)"
    by (rule within_confined [OF services_within [OF assms]]) (auto intro: generated_own simp: own_other redisKinds_def)
  show "calls (confined (mnamespace m) (mname m)) (reconcileEdge L m p)"
    by (rule within_confined [OF edge_within [OF assms(1)]]) (auto simp: ownObject_def monitorKinds_def)
  show "calls (confined (mnamespace m) (mname m)) (finalizeSensitiveDetectorCleanup L m p d st)"
    by (rule within_confined [OF finalize_within [OF assms(2)]]) (auto intro: generated_own simp: own_other detectorCleanup_def)
  show "calls (confined (mnamespace m) (mname m)) (reconcileMigration L m p)"
    by (rule within_confined [OF reconcileMigration_within [OF assms]]) (simp add: own_other)
  show "calls (confined (mnamespace m) (mname m)) (reconcilePreMigrationBackup L m p)"
    by (rule within_confined [OF preBackup_within [OF assms]]) (simp add: own_other)
  show "calls (confined (mnamespace m) (mname m)) (reconcileObjectStorage L m p)"
    by (rule within_confined [OF reconcileObjectStorage_within [OF assms]]) (auto intro: own_other)
  show "calls (confined (mnamespace m) (mname m)) (reconcileSensitiveDetectorConfig L m p st)"
    by (rule within_confined [OF detectorConfig_within [OF assms]]) (auto intro: own_other)
  show "calls (confined (mnamespace m) (mname m)) (reconcileApp L m p)"
    "calls (confined (mnamespace m) (mname m)) (reconcileWorker L m p)"
    by (rule within_confined [OF app_within(1) [OF assms(1)]] within_confined [OF app_within(2) [OF assms(1)]];
        auto simp: workloadOf_def autoscalerKinds_def ownObject_def)+
  show "calls (confined (mnamespace m) (mname m)) (suspendWorkloads L m p)"
    by (rule within_confined [OF suspend_within]) (auto simp: autoscalerKinds_def ownObject_def)
qed

subsection \<open>The reads\<close>

abbreviation reading :: "'a io \<Rightarrow> bool" where
  "reading c \<equiv> calls readOnly c"

lemma condition_reads [calls_intros]:
  "reading (databaseCondition m p)" "reading (redisCondition L m)" "reading (searchCondition m p)"
  "reading (objectStorageCondition m p)" "reading (migrationCondition m)" "reading (ingressCondition m)"
  "reading (deploymentReady m n)" "reading (sensitiveDetectorCondition m p)" "reading (readBackupStatus m p)"
  "reading (readSensitiveDetectorConfigState m st)" "reading (redisReady L m)" "reading (databaseReady m p)"
proof -
  have redis: "reading (redisChecks m insts)" for insts
    by (induction insts) (auto simp: redisInstanceReady_def readyPodsByAppLabel_def split: prod.splits intro!: struct_intros)
  show db: "reading (databaseCondition m p)" unfolding databaseCondition_def Let_def by (intro struct_intros) simp
  show rc: "reading (redisCondition L m)" unfolding redisCondition_def Let_def by (auto intro!: struct_intros redis split: prod.splits)
  show "reading (searchCondition m p)" unfolding searchCondition_def by (intro struct_intros) simp
  show "reading (objectStorageCondition m p)" unfolding objectStorageCondition_def
    by (intro struct_intros objectStorageHash_calls) simp_all
  show "reading (migrationCondition m)" unfolding migrationCondition_def by (intro struct_intros) simp
  show "reading (ingressCondition m)" unfolding ingressCondition_def by (intro struct_intros) simp
  show dep: "reading (deploymentReady m n)" for n unfolding deploymentReady_def Let_def by (intro struct_intros) simp
  show "reading (sensitiveDetectorCondition m p)" unfolding sensitiveDetectorCondition_def sensitiveDetectorConfigComplete_def Let_def
    by (intro struct_intros dep sensitiveDetectorConfigHash_calls) simp_all
  show "reading (readBackupStatus m p)" unfolding readBackupStatus_def Let_def by (intro struct_intros) simp
  show "reading (readSensitiveDetectorConfigState m st)"
    unfolding readSensitiveDetectorConfigState_def hasSensitiveDetectorConfigState_def by (intro struct_intros) auto
  show "reading (redisReady L m)" "reading (databaseReady m p)"
    unfolding redisReady_def databaseReady_def by (auto intro!: struct_intros db rc)
qed

lemma gatherConds_reads: "(\<And>c. c \<in> set cs \<Longrightarrow> reading c) \<Longrightarrow> reading (gatherConds cs)"
  by (induction cs) (auto intro!: struct_intros split: prod.splits)

lemma subsystemConds_reads: "reading (subsystemConds L m p st)"
proof -
  have "reading (condIf b t v)" if "reading v" for b t v using that by (auto simp: condIf_def intro!: struct_intros)
  moreover have "reading (detectorCond m p st)" unfolding detectorCond_def by (intro struct_intros condition_reads)
  ultimately show ?thesis unfolding subsystemConds_def by (intro gatherConds_reads) (auto intro!: condition_reads)
qed

subsection \<open>The whole handler\<close>

lemma calls_prod: "(\<And>a b. x = (a, b) \<Longrightarrow> calls P (f a b)) \<Longrightarrow> calls P (case x of (a, b) \<Rightarrow> f a b)"
  by (cases x) auto

lemma rollout_confined:
  assumes "stable_owner L" "mnamespace m \<noteq> []"
  shows "calls (confined (mnamespace m) (mname m)) (reconcileRollout L m p st d)"
  unfolding reconcileRollout_def rolloutMigrated_def rolloutWorkloads_def
  by (intro calls_if calls_chkS calls_bnd calls_prod calls_sum calls_chk calls_Ret confined_all [OF assms] read_calls condition_reads)

lemma reconcileAll_confined:
  assumes own: "stable_owner L" "mnamespace m0 \<noteq> []"
  shows "calls (confined (mnamespace m0) (mname m0)) (reconcileAll L m0 st0)"
  unfolding reconcileAll_def Let_def
proof (rule calls_chkS_runs [OF confined_all(1) [OF own]])
  fix t m
  assume "runs (reconcileBase L m0 (resolve m0)) t (Inr m)"
  then obtain s where m: "m = m0\<lparr>status := s\<rparr>" using base_frame by blast
  let ?P = "confined (mnamespace m0) (mname m0)"
  have ns: "mnamespace m \<noteq> []" "confined (mnamespace m) (mname m) = ?P" using own by (simp_all add: m)
  note all = confined_all [OF own(1) ns(1), unfolded ns(2)] rollout_confined [OF own(1) ns(1), unfolded ns(2)]
  show "calls ?P (chkS st0 (reconcileServices L m (resolve m0)) (\<lambda>_. bnd (readSensitiveDetectorConfigState m st0) (\<lambda>st.
      case ds_err st of Some e \<Rightarrow> Ret (st, Inl e)
      | None \<Rightarrow> bnd (reconcileRollout L m (resolve m0) st (\<not> sensitiveDetectorEnabled (resolve m0) \<and> \<not> ds_exists st)) (\<lambda>(st', r).
          case r of Inl e \<Rightarrow> Ret (st', Inl e)
          | Inr configDone \<Rightarrow> chkS st' (reconcileEdge L m (resolve m0)) (\<lambda>_.
              finalizeSensitiveDetectorCleanup L m (resolve m0) configDone st')))))"
    by (intro calls_chkS calls_bnd calls_option calls_prod calls_sum calls_Ret all read_calls condition_reads)
qed

lemma updateStatus_confined: "calls (confined (mnamespace m) (mname m)) (updateStatus L m err st)"
proof -
  have "calls (confined (mnamespace m) (mname m)) (statusAttempt L m p conds remove ag)" for p conds remove ag
    unfolding statusAttempt_def timeNow_def
    by (intro calls_getMisskey struct_intros read_calls condition_reads)
       (auto simp: confined_def misskeyObj_def ownObject_def)
  then show ?thesis unfolding updateStatus_def Let_def
    by (intro calls_bnd calls_prod calls_Ret calls_retryOnConflict read_calls [OF subsystemConds_reads]) blast
qed

lemma delete_confined:
  assumes "\<And>f. mname (l_removeFinalizer L m f) = mname m \<and> mnamespace (l_removeFinalizer L m f) = mnamespace m"
  shows "calls (confined (mnamespace m) (mname m)) (reconcileDelete L m)"
proof -
  have "calls (confined (mnamespace m) (mname m)) (orphan m k n)" if "(k, n) \<in> set (retainTargets m)" for k n
  proof -
    have "ownObject (mname m) k n" using that
      by (auto simp: retainTargets_def own_other generatedSecret_def intro: generated_own)
    then show ?thesis unfolding orphan_def by (intro struct_intros) (auto simp: confined_def atKey_def)
  qed
  then have "calls (confined (mnamespace m) (mname m)) (retainData m)"
    unfolding retainData_def by (intro struct_intros calls_prod) auto
  then show ?thesis unfolding reconcileDelete_def
    by (intro struct_intros) (use assms in \<open>auto simp: confined_def misskeyObj_def ownObject_def\<close>)
qed

text \<open>
  \<open>keeps_identity\<close>: adding and removing a finalizer leaves the name and the namespace alone, as
  \<^verbatim>\<open>controllerutil\<close> documents it.
\<close>

definition keeps_identity :: "libs \<Rightarrow> bool" where
  "keeps_identity L \<longleftrightarrow> (\<forall>m f. mname (l_removeFinalizer L m f) = mname m \<and> mnamespace (l_removeFinalizer L m f) = mnamespace m \<and>
     mname (fst (l_addFinalizer L m f)) = mname m \<and> mnamespace (fst (l_addFinalizer L m f)) = mnamespace m)"

lemma setImage_same [simp]: "mname (setImage i m) = mname m" "mnamespace (setImage i m) = mnamespace m"
  by (simp_all add: setImage_def)

lemma resolveImage_reads: "reading (resolveImageInMemory L m)"
proof -
  have "reading (resolveChannel m)" unfolding resolveChannel_def getChannel_def timeNow_def by (intro struct_intros) auto
  moreover have "reading (pullSecrets ns xs)" for ns xs
    by (induction xs) (auto intro!: struct_intros)
  then have "reading (trackDigest L m')" for m'
    unfolding trackDigest_def pullSecretKeychain_def by (auto intro!: struct_intros Pinned_calls split: sum.split)
  ultimately show ?thesis unfolding resolveImageInMemory_def by (intro calls_bnd calls_sum calls_Ret)
qed

definition sameInstance :: "misskey \<Rightarrow> misskey \<Rightarrow> bool" where
  "sameInstance m m' \<longleftrightarrow> mname m' = mname m \<and> mnamespace m' = mnamespace m"

lemma sameInstance_intros [simp]: "sameInstance m m" "sameInstance m (setImage i m)"
  by (simp_all add: sameInstance_def)

lemma sameInstance_trans: "sameInstance a b \<Longrightarrow> sameInstance b c \<Longrightarrow> sameInstance a c"
  by (simp add: sameInstance_def)

lemma resolveImage_same:
  assumes "runs (resolveImageInMemory L m) t (m', r)"
  shows "sameInstance m m'"
proof -
  have chan: "yields (\<lambda>r. \<forall>m1. r = Inr m1 \<longrightarrow> sameInstance m m1) (resolveChannel m)"
    unfolding resolveChannel_def by (intro yields_intros) auto
  have dig: "yields (\<lambda>r. \<forall>m2. r = Inr m2 \<longrightarrow> sameInstance m1 m2) (trackDigest L m1)" for m1
    unfolding trackDigest_def by (intro yields_intros) auto
  have "yields (\<lambda>(m', r). sameInstance m m') (resolveImageInMemory L m)"
    unfolding resolveImageInMemory_def
    by (intro yields_bnd_using [OF chan] yields_sum yields_Ret yields_bnd_using [OF dig]) (auto intro: sameInstance_trans)
  with assms show ?thesis by (auto simp: yields_def)
qed

lemma live_confined:
  assumes own: "stable_owner L" "mnamespace m0 \<noteq> []"
  shows "calls (confined (mnamespace m0) (mname m0)) (reconcileLive L resync m0)"
  unfolding reconcileLive_def
proof (rule calls_bnd_runs [OF read_calls [OF resolveImage_reads]], rule calls_prod)
  fix t x m r0
  assume "runs (resolveImageInMemory L m0) t x" "x = (m, r0)"
  then have same: "mname m = mname m0" "mnamespace m = mnamespace m0" using resolveImage_same by (auto simp: sameInstance_def)
  note all = reconcileAll_confined [OF own(1), of m] updateStatus_confined [of m]
  show "calls (confined (mnamespace m0) (mname m0)) (bnd (case r0 of Inl e \<Rightarrow> Ret (freshDetectorState, Inl e)
                   | Inr _ \<Rightarrow> reconcileAll L m freshDetectorState) (\<lambda>(st1, r).
     bnd (readSensitiveDetectorConfigState m st1) (\<lambda>st.
     bnd (errorEvent L r) (\<lambda>_.
     bnd (updateStatus L m (case r of Inl e \<Rightarrow> Some e | Inr _ \<Rightarrow> None) st) (\<lambda>(ready, _).
       case r of
         Inl e \<Rightarrow> Ret (Inl e)
       | Inr _ \<Rightarrow> Ret (Inr (if ready then driftInterval resync
                               else if suspend (spec m) then driftInterval resync else 15 * second)))))))"
    unfolding errorEvent_def
    by (intro calls_bnd calls_sum calls_prod calls_Ret event_calls condition_reads [THEN read_calls])
       (use all own in \<open>auto simp: same\<close>)
qed

lemma ensureFinalizer_same:
  assumes "keeps_identity L" "runs (ensureFinalizer L m) t (Inr m')"
  shows "sameInstance m m'"
proof -
  obtain m1 added where a: "l_addFinalizer L m misskeyFinalizer = (m1, added)" by fastforce
  then have "mname m1 = mname m \<and> mnamespace m1 = mnamespace m" using assms(1) unfolding keeps_identity_def by (metis fst_conv)
  with a assms(2) show ?thesis unfolding ensureFinalizer_def sameInstance_def
    by (auto simp: runs_chk_Inr atKey_def split: if_splits dest!: asMisskey_meta [OF sym])
qed

lemma reconcileMisskey_confined:
  assumes "stable_owner L" "keeps_identity L" "ns \<noteq> []"
  shows "calls (confined ns n) (reconcileMisskey L resync ns n)"
proof -
  have fin: "calls (confined (mnamespace m) (mname m)) (ensureFinalizer L m)" for m
    unfolding ensureFinalizer_def
  proof (rule calls_prod)
    fix m' added
    assume "l_addFinalizer L m misskeyFinalizer = (m', added)"
    then have "mname m' = mname m \<and> mnamespace m' = mnamespace m" using assms(2) unfolding keeps_identity_def by (metis fst_conv)
    then show "calls (confined (mnamespace m) (mname m)) (if added then chk (kupdate (misskeyObj m')) (\<lambda>x.
        Ret (if atKey KMisskey (mnamespace m) (mname m) x then asMisskey x else Inl badAnswer)) else Ret (Inr m'))"
      by (intro struct_intros) (auto simp: confined_def misskeyObj_def ownObject_def)
  qed
  have "calls (confined (mnamespace m) (mname m)) (chk (ensureFinalizer L m) (reconcileLive L resync))" if "mnamespace m \<noteq> []" for m
  proof (rule calls_chk_runs [OF fin])
    fix t m'
    assume "runs (ensureFinalizer L m) t (Inr m')"
    from ensureFinalizer_same [OF assms(2) this] live_confined [OF assms(1), of m' resync] that
    show "calls (confined (mnamespace m) (mname m)) (reconcileLive L resync m')" by (simp add: sameInstance_def)
  qed
  moreover have "calls (confined (mnamespace m) (mname m)) (chk (reconcileDelete L m) (\<lambda>_. Ret (Inr 0)))" for m
    by (intro calls_chk calls_Ret delete_confined) (use assms(2) in \<open>simp add: keeps_identity_def\<close>)
  ultimately have live: "calls (confined ns n) (if om_deletionTimestamp (mk_meta m) \<noteq> None
         then chk (reconcileDelete L m) (\<lambda>_. Ret (Inr 0)) else chk (ensureFinalizer L m) (reconcileLive L resync))"
    if "mnamespace m = ns" "mname m = n" for m using that assms(3) by auto
  show ?thesis
    unfolding reconcileMisskey_def
  proof (rule calls_bnd_runs)
    show "calls (confined ns n) (getMisskey ns n)" unfolding getMisskey_def by (intro struct_intros) auto
    fix t x
    assume "runs (getMisskey ns n) t x"
    then show "calls (confined ns n) (case x of Inl e \<Rightarrow> if isNotFound e then Ret (Inr 0) else Ret (Inl e)
     | Inr m \<Rightarrow> if om_deletionTimestamp (mk_meta m) \<noteq> None then chk (reconcileDelete L m) (\<lambda>_. Ret (Inr 0))
         else chk (ensureFinalizer L m) (reconcileLive L resync))"
      using live runs_getMisskey by (cases x) (auto split del: if_split split: if_splits)
  qed
qed

text \<open>
  C1: a reconcile is confined to its instance. Whatever the API server answers, every object
  that one reconcile of \<^verbatim>\<open>ns/n\<close> creates, changes or deletes lies in the namespace \<^verbatim>\<open>ns\<close>; the
  only Secrets among them are the four the operator generates for \<^verbatim>\<open>n\<close>, so no Secret of a user
  is ever touched; the only Misskey is \<^verbatim>\<open>n\<close> itself; and no Pod or channel is written at all.
\<close>
theorem reconcile_confined:
  assumes run: "runs (reconcileMisskey L resync ns n) tr res"
    and libs: "stable_owner L" "keeps_identity L" "ns \<noteq> []"
    and w: "(q, r) \<in> set tr" "writes q = Some (k, ns', x)"
  shows "ns' = ns \<and> (k = KSecret \<longrightarrow> x \<in> {n @ ''-setup'', n @ ''-meilisearch'', n @ ''-redis-auth'', n @ ''-sensitive-detector''})
    \<and> (k = KMisskey \<longrightarrow> x = n) \<and> k \<noteq> KPod \<and> k \<noteq> KMisskeyChannel"
  using calls_runs [OF reconcileMisskey_confined [OF libs] run w(1)] w(2) by (simp add: confined_def ownObject_def)

subsection \<open>Coming back\<close>

lemma live_run:
  assumes "runs (reconcileLive L resync m0) tr (Inr d)"
  obtains m st t where "sameInstance m0 m" "set t \<subseteq> set tr" "runs (reconcileAll L m freshDetectorState) t (st, Inr ())"
    "d = driftInterval resync \<or> d = 15 * second \<and> \<not> suspend (spec m)"
proof -
  define finish where "finish m st1 r = bnd (readSensitiveDetectorConfigState m st1) (\<lambda>st. bnd (errorEvent L r) (\<lambda>_.
     bnd (updateStatus L m (case r of Inl e \<Rightarrow> Some e | Inr _ \<Rightarrow> None) st) (\<lambda>(ready, _).
       case r of
         Inl e \<Rightarrow> Ret (Inl e)
       | Inr _ \<Rightarrow> Ret (Inr (if ready then driftInterval resync
                               else if suspend (spec m) then driftInterval resync else 15 * second)))))" for m st1 r
  have ends: "r = Inr () \<and> (d = driftInterval resync \<or> d = 15 * second \<and> \<not> suspend (spec m))"
    if "runs (finish m st1 r) t (Inr d)" for m st1 r t
    using that unfolding finish_def by (cases r) (auto simp: runs_bnd split: if_splits)
  obtain t1 m r0 t2 where t1: "tr = t1 @ t2" "runs (resolveImageInMemory L m0) t1 (m, r0)"
    and t2: "runs (bnd (case r0 of Inl e \<Rightarrow> Ret (freshDetectorState, Inl e) | Inr _ \<Rightarrow> reconcileAll L m freshDetectorState)
      (\<lambda>(st1, r). finish m st1 r)) t2 (Inr d)"
    using assms unfolding reconcileLive_def finish_def runs_bnd [of "resolveImageInMemory L m0"] by auto
  from t2 obtain t3 st1 r t4 where t3: "t2 = t3 @ t4" "runs (finish m st1 r) t4 (Inr d)"
    "runs (case r0 of Inl e \<Rightarrow> Ret (freshDetectorState, Inl e) | Inr _ \<Rightarrow> reconcileAll L m freshDetectorState) t3 (st1, r)"
    unfolding runs_bnd by auto
  note d = ends [OF t3(2)]
  with t3(3) have "runs (reconcileAll L m freshDetectorState) t3 (st1, Inr ())" by (cases r0) auto
  with that resolveImage_same [OF t1(2)] d t1(1) t3(1) show thesis by auto
qed

text \<open>
  C11: a live instance is always visited again. When a reconcile of \<^verbatim>\<open>ns/n\<close> succeeds, either the
  Misskey was gone or being deleted and nothing is scheduled, or all of its parts were reconciled
  without an error within this very reconcile and the next one is scheduled after a positive
  delay: fifteen seconds or the interval of the drift detection, and always the latter while the instance
  is suspended. (A reconcile that fails is repeated by the work queue.)
\<close>
theorem live_instance_revisited:
  assumes run: "runs (reconcileMisskey L resync ns n) tr (Inr d)" and id: "keeps_identity L"
  shows "d = 0 \<and> (\<exists>t x. runs (getMisskey ns n) t x \<and> set t \<subseteq> set tr \<and>
      (case x of Inl e \<Rightarrow> isNotFound e | Inr m \<Rightarrow> om_deletionTimestamp (mk_meta m) \<noteq> None))
    \<or> 0 < d \<and> d \<in> {15 * second, driftInterval resync} \<and>
      (\<exists>m st t. mnamespace m = ns \<and> mname m = n \<and> set t \<subseteq> set tr \<and>
        runs (reconcileAll L m freshDetectorState) t (st, Inr ()) \<and> (suspend (spec m) \<longrightarrow> d = driftInterval resync))"
proof -
  obtain t1 x t2 where t1: "tr = t1 @ t2" "runs (getMisskey ns n) t1 x"
    and t2: "runs (case x of Inl e \<Rightarrow> if isNotFound e then Ret (Inr 0) else Ret (Inl e)
     | Inr m \<Rightarrow> if om_deletionTimestamp (mk_meta m) \<noteq> None then chk (reconcileDelete L m) (\<lambda>_. Ret (Inr 0))
         else chk (ensureFinalizer L m) (reconcileLive L resync)) t2 (Inr d)"
    using run unfolding reconcileMisskey_def runs_bnd by blast
  have sub: "set t1 \<subseteq> set tr" "set t2 \<subseteq> set tr" using t1(1) by auto
  have delays: "0 < 15 * second" "0 < driftInterval resync"
    by (simp_all add: second_def driftInterval_def defaultDriftResyncInterval_def minute_def)
  show ?thesis
  proof (cases "case x of Inl e \<Rightarrow> isNotFound e | Inr m \<Rightarrow> om_deletionTimestamp (mk_meta m) \<noteq> None")
    case True
    with t2 have "d = 0" by (auto simp: runs_chk_Inr split: sum.splits if_splits)
    with True t1(2) sub(1) show ?thesis by blast
  next
    case False
    with t2 obtain m where x: "x = Inr m" and live: "runs (chk (ensureFinalizer L m) (reconcileLive L resync)) t2 (Inr d)"
      by (auto split: sum.splits if_splits)
    then obtain t3 m1 t4 where t3: "t2 = t3 @ t4" "runs (ensureFinalizer L m) t3 (Inr m1)" "runs (reconcileLive L resync m1) t4 (Inr d)"
      unfolding runs_chk_Inr by blast
    from live_run [OF t3(3)] obtain m2 st t where m2: "sameInstance m1 m2" "set t \<subseteq> set t4"
      "runs (reconcileAll L m2 freshDetectorState) t (st, Inr ())"
      "d = driftInterval resync \<or> d = 15 * second \<and> \<not> suspend (spec m2)" .
    have "mnamespace m = ns \<and> mname m = n" using t1(2) x runs_getMisskey by blast
    then have "mnamespace m2 = ns" "mname m2 = n" using ensureFinalizer_same [OF id t3(2)] m2(1) by (auto simp: sameInstance_def)
    moreover have "set t \<subseteq> set tr" using m2(2) t3(1) sub(2) by auto
    ultimately show ?thesis using m2(3,4) delays by blast
  qed
qed

subsection \<open>Suspension\<close>

definition stopped :: "misskey \<Rightarrow> string \<Rightarrow> (req \<times> resp) list \<Rightarrow> bool" where
  "stopped m w tr \<longleftrightarrow>
     (\<exists>e. (QGet KDeployment (mnamespace m) w, RErr e) \<in> set tr \<and> isNotFound e) \<or>
     (\<exists>dep. (QGet KDeployment (mnamespace m) w, RObj dep) \<in> set tr \<and> dep_replicas (deploymentOf dep) = Some 0) \<or>
     (\<exists>dep x. (QGet KDeployment (mnamespace m) w, RObj dep) \<in> set tr \<and> (QUpdate (scaledToZero dep), RObj x) \<in> set tr)"

lemma suspendWorkload_stops:
  assumes "runs (suspendWorkload L m w) tr (Inr ())"
  shows "(\<exists>e\<in>set tr. deletedAt KHorizontalPodAutoscaler (mnamespace m) w e) \<and>
    (\<exists>e\<in>set tr. deletedAt KScaledObject (mnamespace m) w e) \<and> stopped m w tr"
proof -
  obtain t1 t2 t3 where tr: "tr = t1 @ t2 @ t3" and h: "runs (deleteHPA m w) t1 (Inr ())" "runs (deleteScaledObject m w) t2 (Inr ())"
    and g: "runs (bnd (kget KDeployment (mnamespace m) w) (\<lambda>r. case r of
       Inl e \<Rightarrow> if isNotFound e then Ret (Inr ()) else Ret (Inl e)
     | Inr dep \<Rightarrow>
         if dep_replicas (deploymentOf dep) \<noteq> Some 0 then
           chk (kupdate (scaledToZero dep)) (\<lambda>_.
             eventThen L EventNormal ''Suspended'' ''Suspend'' (''scaled '' @ w @ '' to 0 replicas'') (Ret (Inr ())))
         else Ret (Inr ()))) t3 (Inr ())"
    using assms unfolding suspendWorkload_def runs_chk_Inr by auto
  from g have "stopped m w t3"
  proof (cases rule: runs_kget)
    case (err r e t)
    then show ?thesis using asObjAt_notFound [of KDeployment _ w r e] by (auto simp: stopped_def split: if_splits)
  next
    case (ok dep t)
    show ?thesis
    proof (cases "dep_replicas (deploymentOf dep) = Some 0")
      case False
      with ok(3) have "\<exists>x. (QUpdate (scaledToZero dep), RObj x) \<in> set t"
        by (auto simp: runs_chk_Inr kupdate_def runs_Call_iff)
      with ok(1) show ?thesis unfolding stopped_def by auto
    qed (use ok in \<open>auto simp: stopped_def\<close>)
  qed
  then have "stopped m w tr" unfolding stopped_def tr by auto
  with h tr show ?thesis using deleteHPA_shows [OF h(1)] deleteScaledObject_shows [OF h(2)] by auto
qed

lemma reconcileAll_rollout:
  assumes "runs (reconcileAll L m0 st0) tr (st', Inr u)"
  obtains s st d st1 b t where "runs (reconcileRollout L (m0\<lparr>status := s\<rparr>) (resolve m0) st d) t (st1, Inr b)" "set t \<subseteq> set tr"
proof -
  have chkS: "\<exists>t1 a t2. t = t1 @ t2 \<and> runs c t1 (Inr a) \<and> runs (f a) t2 (z, Inr v)"
    if "runs (chkS y c f) t (z, Inr v)" for y c t z v and f :: "'x \<Rightarrow> ('y \<times> (error + 'z)) io"
    using that unfolding chkS_def runs_bnd by (force split: sum.split_asm)
  obtain t1 m t2 where base: "tr = t1 @ t2" "runs (reconcileBase L m0 (resolve m0)) t1 (Inr m)"
    and t2: "runs (chkS st0 (reconcileServices L m (resolve m0)) (\<lambda>_. bnd (readSensitiveDetectorConfigState m st0) (\<lambda>st.
      case ds_err st of Some e \<Rightarrow> Ret (st, Inl e)
      | None \<Rightarrow> bnd (reconcileRollout L m (resolve m0) st (\<not> sensitiveDetectorEnabled (resolve m0) \<and> \<not> ds_exists st)) (\<lambda>(st', r).
          case r of Inl e \<Rightarrow> Ret (st', Inl e)
          | Inr configDone \<Rightarrow> chkS st' (reconcileEdge L m (resolve m0)) (\<lambda>_.
              finalizeSensitiveDetectorCleanup L m (resolve m0) configDone st'))))) t2 (st', Inr u)"
    using chkS [OF assms [unfolded reconcileAll_def Let_def]] by blast
  obtain s where m: "m = m0\<lparr>status := s\<rparr>" using base_frame [OF base(2)] by blast
  from chkS [OF t2] obtain t3 t4 st t5 where sub: "t2 = t3 @ t4 @ t5"
    and t5: "runs (case ds_err st of Some e \<Rightarrow> Ret (st, Inl e)
      | None \<Rightarrow> bnd (reconcileRollout L m (resolve m0) st (\<not> sensitiveDetectorEnabled (resolve m0) \<and> \<not> ds_exists st)) (\<lambda>(st', r).
          case r of Inl e \<Rightarrow> Ret (st', Inl e)
          | Inr configDone \<Rightarrow> chkS st' (reconcileEdge L m (resolve m0)) (\<lambda>_.
              finalizeSensitiveDetectorCleanup L m (resolve m0) configDone st'))) t5 (st', Inr u)"
    unfolding runs_bnd by blast
  show thesis
  proof (cases "ds_err st")
    case None
    with t5 obtain t6 st1 r t7 where t6: "t5 = t6 @ t7"
      "runs (reconcileRollout L m (resolve m0) st (\<not> sensitiveDetectorEnabled (resolve m0) \<and> \<not> ds_exists st)) t6 (st1, r)"
      and r: "runs (case r of Inl e \<Rightarrow> Ret (st1, Inl e) | Inr configDone \<Rightarrow> chkS st1 (reconcileEdge L m (resolve m0)) (\<lambda>_.
              finalizeSensitiveDetectorCleanup L m (resolve m0) configDone st1)) t7 (st', Inr u)"
      unfolding runs_bnd by (auto simp: runs_bnd)
    from r obtain b where "r = Inr b" by (cases r) auto
    with that [of s st _ t6 st1 b] t6 m base sub show thesis by auto
  qed (use t5 in simp)
qed

text \<open>
  C10: suspending an instance stops it. While \<^verbatim>\<open>spec.suspend\<close> is set no reconcile ever stores a
  Deployment of app or worker, and after a successful one both autoscalers of app and of
  worker have been deleted and each Deployment is absent, was seen at zero replicas or has
  been scaled to zero.
\<close>
theorem suspended_instance_stops:
  assumes run: "runs (reconcileAll L m st) tr (st', res)" and own: "stable_owner L" "mnamespace m \<noteq> []" and susp: "suspend (spec m)"
  shows "(\<forall>e\<in>set tr. \<not> workloadStore m e) \<and>
    (res = Inr () \<longrightarrow> (\<forall>w\<in>{nameApp m, nameWorker m}.
       (\<exists>e\<in>set tr. deletedAt KHorizontalPodAutoscaler (mnamespace m) w e) \<and>
       (\<exists>e\<in>set tr. deletedAt KScaledObject (mnamespace m) w e) \<and> stopped m w tr))"
proof (intro conjI impI)
  have "guarded (workloadStore m) (\<lambda>_. False) (reconcileAll L m st)"
  proof (rule reconcileAll_frame)
    fix s st1 d
    let ?m = "m\<lparr>status := s\<rparr>"
    have ns: "mnamespace ?m \<noteq> []" using own by simp
    note quiet = around_rollout_quiet [OF own]
    show "guarded (workloadStore m) (\<lambda>_. False) (reconcileBase L m (resolve m))"
      "guarded (workloadStore m) (\<lambda>_. False) (reconcileServices L ?m (resolve m))"
      "guarded (workloadStore m) (\<lambda>_. False) (readSensitiveDetectorConfigState ?m st)"
      "guarded (workloadStore m) (\<lambda>_. False) (reconcileEdge L ?m (resolve m))"
      "guarded (workloadStore m) (\<lambda>_. False) (finalizeSensitiveDetectorCleanup L ?m (resolve m) d st1)"
      by (rule quiet)+
    show "guarded (workloadStore m) (\<lambda>_. False) (reconcileRollout L ?m (resolve m) st1 d)"
      unfolding reconcileRollout_def using susp by (simp add: guarded_chkS [OF quiet_guarded [OF suspend_quiet]] guarded_Ret)
  qed
  from guardedD [OF this run] show "\<forall>e\<in>set tr. \<not> workloadStore m e" by (simp add: gated_never)
  assume "res = Inr ()"
  with run obtain s st1 d st2 b t where ro: "runs (reconcileRollout L (m\<lparr>status := s\<rparr>) (resolve m) st1 d) t (st2, Inr b)" "set t \<subseteq> set tr"
    by (auto elim: reconcileAll_rollout)
  let ?m = "m\<lparr>status := s\<rparr>"
  have "runs (chkS st1 (suspendWorkloads L ?m (resolve m)) (\<lambda>_. Ret (st1, Inr d))) t (st2, Inr b)"
    using ro(1) susp by (simp add: reconcileRollout_def)
  then have sw: "runs (suspendWorkloads L ?m (resolve m)) t (Inr ())"
    unfolding chkS_def runs_bnd by (force split: sum.split_asm)
  have stop: "(\<exists>e\<in>set tr. deletedAt KHorizontalPodAutoscaler (mnamespace m) w e) \<and>
       (\<exists>e\<in>set tr. deletedAt KScaledObject (mnamespace m) w e) \<and> stopped m w tr" if w: "w \<in> {nameApp m, nameWorker m}" for w
  proof -
    obtain t' where t': "runs (suspendWorkload L ?m w) t' (Inr ())" "set t' \<subseteq> set t"
      by (rule runs_forE_each [OF sw [unfolded suspendWorkloads_def], of w]) (use w in auto)
    have "stopped m w t' \<Longrightarrow> stopped m w tr" using t'(2) ro(2) unfolding stopped_def by blast
    moreover have "stopped ?m w t' = stopped m w t'" by (simp add: stopped_def)
    ultimately show ?thesis using suspendWorkload_stops [OF t'(1)] t'(2) ro(2) by auto
  qed
  then show "\<forall>w\<in>{nameApp m, nameWorker m}. (\<exists>e\<in>set tr. deletedAt KHorizontalPodAutoscaler (mnamespace m) w e) \<and>
       (\<exists>e\<in>set tr. deletedAt KScaledObject (mnamespace m) w e) \<and> stopped m w tr" by blast
qed

subsection \<open>The backup before a migration\<close>

definition migrationCreate :: "misskey \<Rightarrow> req \<times> resp \<Rightarrow> bool" where
  "migrationCreate m e \<longleftrightarrow> (\<exists>x. fst e = QCreate x \<and> ko_kind x = KJob \<and> kname x = nameMigrate m)"

definition backupSeen :: "misskey \<Rightarrow> req \<times> resp \<Rightarrow> bool" where
  "backupSeen m e \<longleftrightarrow>
     (\<exists>b. e = (QGet KCnpgBackup (mnamespace m) (namePreBackup m), RObj b) \<and> nestedString b [''status'', ''phase''] = ''completed'') \<or>
     (\<exists>j. e = (QGet KJob (mnamespace m) (nameMigrate m), RObj j))"

lemma preBackup_seen:
  assumes run: "runs (reconcilePreMigrationBackup L m p) tr (Inr True)"
    and on: "preBackupEnabled m" "dbManaged p" "pg_backup (postgres (spec m)) \<noteq> None"
  shows "\<exists>e\<in>set tr. backupSeen m e"
proof -
  have "(\<not> preBackupEnabled m \<or> \<not> dbManaged p \<or> pg_backup (postgres (spec m)) = None) = False" using on by simp
  from run [unfolded reconcilePreMigrationBackup_def this if_False runs_chk_Inr] obtain t1 t2 where tr: "tr = t1 @ t2" and t2: "runs (bnd (kget KJob (mnamespace m) (nameMigrate m)) (\<lambda>r. case r of
          Inr _ \<Rightarrow> Ret (Inr True)
        | Inl e \<Rightarrow> if \<not> isNotFound e then Ret (Inl e) else preBackupStep L m)) t2 (Inr True)"
    by blast
  have step: "\<exists>e\<in>set t. backupSeen m e" if "runs (preBackupStep L m) t (Inr True)" for t
    using that unfolding preBackupStep_def
  proof (cases rule: runs_kget)
    case (err r e t')
    then show ?thesis by (auto simp: runs_chk_Inr split: if_splits dest!: eventThen_runs)
  next
    case (ok b t')
    then show ?thesis by (auto simp: backupSeen_def Let_def split: if_splits dest!: eventThen_runs)
  qed
  from t2 have "\<exists>e\<in>set t2. backupSeen m e"
    by (cases rule: runs_kget) (auto simp: backupSeen_def split: if_splits dest!: step [unfolded backupSeen_def])
  with tr show ?thesis by auto
qed

definition noCreate :: "req \<Rightarrow> bool" where
  "noCreate q \<longleftrightarrow> (\<forall>x. q \<noteq> QCreate x)"

lemma noCreate_guarded: "calls noCreate c \<Longrightarrow> guarded (migrationCreate m) G c"
  by (erule guarded_quiet) (auto simp: migrationCreate_def noCreate_def)

lemma within_create:
  assumes "calls (within m' F) c" "\<And>n. \<not> F KJob n"
  shows "guarded (migrationCreate m) G c"
  by (rule guarded_quiet [OF assms(1)]) (use assms(2) in \<open>auto simp: migrationCreate_def within_def\<close>)

lemma around_rollout_no_migration:
  assumes own: "stable_owner L" "mnamespace m' \<noteq> []"
  shows "guarded (migrationCreate m) G (reconcileBase L m' p)" "guarded (migrationCreate m) G (reconcileServices L m' p)"
    "guarded (migrationCreate m) G (readSensitiveDetectorConfigState m' st)" "guarded (migrationCreate m) G (reconcileEdge L m' p)"
    "guarded (migrationCreate m) G (finalizeSensitiveDetectorCleanup L m' p d st)"
proof -
  show "guarded (migrationCreate m) G (reconcileBase L m' p)"
    by (rule within_create [OF base_within [OF own(1)]]) (auto simp: generatedSecret_def)
  show "guarded (migrationCreate m) G (reconcileEdge L m' p)"
    by (rule within_create [OF edge_within [OF own(1)]]) (auto simp: monitorKinds_def)
  show "guarded (migrationCreate m) G (readSensitiveDetectorConfigState m' st)"
    by (rule guarded_quiet [OF condition_reads(10)]) (auto simp: migrationCreate_def)
  show "guarded (migrationCreate m) G (reconcileServices L m' p)"
    unfolding reconcileServices_def cleanupObjectStorage_def
    by (intro guarded_chk guarded_whenE within_create [OF reconcileRedis_within [OF own(1)]]
        within_create [OF meilisearch_within [OF own(1)]] within_create [OF appService_within [OF own(1)]] noCreate_guarded
        cleanupObjectStorageJobs_calls deleteIfExists_calls)
       (auto simp: generatedSecret_def redisKinds_def noCreate_def)
  show "guarded (migrationCreate m) G (finalizeSensitiveDetectorCleanup L m' p d st)"
    unfolding finalizeSensitiveDetectorCleanup_def cleanupSensitiveDetector_def cleanupSensitiveDetectorConfigState_def
      sensitiveDetectorConverged_def
    by (rule noCreate_guarded, intro struct_intros misskeyWorkloadsConverged_calls cleanupSensitiveDetectorConfigJobs_calls
        deleteIfExists_calls)
       (auto simp: noCreate_def cleanupGeneratedSensitiveDetectorSecret_def intro!: struct_intros)
qed


subsection \<open>Autoscalers\<close>

text \<open>
  C22: a workload never gets two autoscalers. An HPA is stored only after the deletion of the
  workload's ScaledObject was confirmed, a ScaledObject only after the deletion of its HPA
  was; and without autoscaling a successful run has removed both.
\<close>
theorem autoscalers_exclusive:
  assumes run: "runs (reconcileAutoscaler L m c t a p) tr res" and own: "stable_owner L"
  shows "gated (autoscalerStore KHorizontalPodAutoscaler) (deletedAt KScaledObject (mnamespace m) t) tr
    \<and> gated (autoscalerStore KScaledObject) (deletedAt KHorizontalPodAutoscaler (mnamespace m) t) tr
    \<and> (a = None \<and> res = Inr () \<longrightarrow> (\<forall>k\<in>{KHorizontalPodAutoscaler, KScaledObject}. \<exists>e\<in>set tr. deletedAt k (mnamespace m) t e))"
proof (intro conjI impI ballI)
  have del: "guarded (autoscalerStore k) G (deleteHPA m t)" "guarded (autoscalerStore k) G (deleteScaledObject m t)" for k G
    by (rule guarded_quiet [of "\<lambda>q. stores q = None"]; auto intro!: delete_calls simp: autoscalerStore_def)+
  have quiet: "guarded (autoscalerStore k) G x" if "calls (within m F) x" "\<And>n. \<not> F k n" for k G F and x :: "(error + unit) io"
    by (rule guarded_quiet [OF that(1)]) (use that(2) in \<open>auto simp: autoscalerStore_def within_def elim!: stores.elims\<close>)
  have keda: "calls (within m (\<lambda>k n. k \<in> {KScaledObject, KTriggerAuthentication})) (reconcileScaledObject L m c t x p)" for x
    unfolding reconcileScaledObject_def deleteTriggerAuth_def Let_def
    by (intro struct_intros applySSA_within [OF own] deleteIfExists_within) auto
  have hpa: "calls (within m (\<lambda>k n. k = KHorizontalPodAutoscaler)) (applyObj L m (newObj KHorizontalPodAutoscaler (mnamespace m) t) (\<lambda>hpa.
        ret (setBody (BHPA (buildHPASpec t x)) (withLabels (labelsFor m c) hpa))))" for x
    by (intro applyObj_within [OF own] struct_intros) auto
  have "guarded (autoscalerStore KHorizontalPodAutoscaler) (deletedAt KScaledObject (mnamespace m) t) (reconcileAutoscaler L m c t a p)"
    unfolding reconcileAutoscaler_def
    by (intro guarded_option guarded_if guarded_chk del quiet [OF keda] guarded_chk_seen [OF del(2)] disjI1 deleteScaledObject_shows) auto
  from guardedD [OF this run] show "gated (autoscalerStore KHorizontalPodAutoscaler) (deletedAt KScaledObject (mnamespace m) t) tr" .
  have "guarded (autoscalerStore KScaledObject) (deletedAt KHorizontalPodAutoscaler (mnamespace m) t) (reconcileAutoscaler L m c t a p)"
    unfolding reconcileAutoscaler_def
    by (intro guarded_option guarded_if guarded_chk_seen [OF del(1)] disjI1 deleteHPA_shows guarded_chk del quiet [OF hpa]) auto
  from guardedD [OF this run] show "gated (autoscalerStore KScaledObject) (deletedAt KHorizontalPodAutoscaler (mnamespace m) t) tr" .
  fix k
  assume "a = None \<and> res = Inr ()" "k \<in> {KHorizontalPodAutoscaler, KScaledObject}"
  with run show "\<exists>e\<in>set tr. deletedAt k (mnamespace m) t e"
    unfolding reconcileAutoscaler_def
    by (auto simp: runs_chk_Inr dest: deleteHPA_shows deleteScaledObject_shows) (meson Un_iff deleteHPA_shows deleteScaledObject_shows)+
qed

end
