(* ===== verification/Status.thy ===== *)
theory Status
  imports Lifecycle
begin

section \<open>What the status says\<close>

text \<open>
  The status a reconcile writes: its Ready condition agrees with the conditions of the parts
  that stand next to it and with the outcome of the reconcile, and its messages fit the limit
  the operator sets itself without cutting a character in two.
\<close>

subsection \<open>Conditions\<close>

definition condStatus :: "condition list \<Rightarrow> string \<Rightarrow> string option" where
  "condStatus cs t = map_option cond_status (List.find (\<lambda>c. cond_type c = t) cs)"

text \<open>
  \<open>lawful_conditions\<close>: setting a condition replaces the one of its type, removing one removes
  that type only, as \<^verbatim>\<open>apimachinery/pkg/api/meta\<close> documents it.
\<close>

definition lawful_conditions :: "libs \<Rightarrow> bool" where
  "lawful_conditions L \<longleftrightarrow>
     (\<forall>cs c t. condStatus (l_setStatusCondition L cs c) t = (if t = cond_type c then Some (cond_status c) else condStatus cs t)) \<and>
     (\<forall>cs u t. condStatus (l_removeStatusCondition L cs u) t = (if t = u then None else condStatus cs t))"

lemma removed_status:
  "lawful_conditions L \<Longrightarrow> condStatus (foldl (l_removeStatusCondition L) cs ts) t = (if t \<in> set ts then None else condStatus cs t)"
  by (induction ts arbitrary: cs) (auto simp: lawful_conditions_def)

lemma set_status:
  assumes "lawful_conditions L"
  shows "condStatus (foldl (\<lambda>cs c. l_setStatusCondition L cs (mkCondition cur now c)) cs conds) t =
    (case map_of (rev conds) t of Some v \<Rightarrow> Some (fst v) | None \<Rightarrow> condStatus cs t)"
proof (induction conds arbitrary: cs)
  case (Cons c conds)
  obtain u v where c: "c = (u, v)" by (cases c)
  have "condStatus (l_setStatusCondition L cs (mkCondition cur now c)) t = (if t = u then Some (fst v) else condStatus cs t)"
    using assms c by (auto simp: lawful_conditions_def mkCondition_def split: prod.splits)
  with Cons.IH c show ?case by (auto simp: map_add_def split: option.split)
qed simp

subsection \<open>The conditions of the parts\<close>

definition subsystemTypes :: "string list" where
  "subsystemTypes = [''DatabaseReady'', ''RedisReady'', ''SearchReady'', ''MigrationComplete'', ''ObjectStorageConfigured'',
     ''SensitiveDetectorReady'', ''AppReady'', ''WorkerReady'', ''ProxyReady'', ''IngressReady'']"

definition sorts :: "string list \<Rightarrow> (string \<times> verdict) list \<times> string list \<Rightarrow> bool" where
  "sorts ts x \<longleftrightarrow> (case x of (conds, remove) \<Rightarrow>
     set (map fst conds) \<union> set remove = set ts \<and> set (map fst conds) \<inter> set remove = {} \<and> distinct (map fst conds))"

lemma condIf_sorts: "yields (sorts [t]) (condIf b t v)"
  unfolding condIf_def by (intro yields_intros) (auto simp: sorts_def)

lemma sorts_append:
  assumes "sorts [t] (s1, r1)" "sorts ts (s2, r2)" "t \<notin> set ts"
  shows "sorts (t # ts) (s1 @ s2, r1 @ r2)"
proof -
  obtain A1 A2 where a: "set (map fst s1) = A1" "set (map fst s2) = A2" by simp
  have "A1 \<union> set r1 = {t}" "A1 \<inter> set r1 = {}" "A2 \<union> set r2 = set ts" "A2 \<inter> set r2 = {}"
    using assms(1,2) unfolding sorts_def prod.case a by simp_all
  note u = this
  then have sub: "A1 \<subseteq> {t}" "set r1 \<subseteq> {t}" "A2 \<subseteq> set ts" "set r2 \<subseteq> set ts" by blast+
  have "(A1 \<union> A2) \<union> (set r1 \<union> set r2) = (A1 \<union> set r1) \<union> (A2 \<union> set r2)" by blast
  then have "(A1 \<union> A2) \<union> (set r1 \<union> set r2) = insert t (set ts)" using u by simp
  moreover have "A1 \<inter> A2 = {}" "A1 \<inter> set r2 = {}" "A2 \<inter> set r1 = {}" using sub assms(3) by blast+
  then have "(A1 \<union> A2) \<inter> (set r1 \<union> set r2) = {}" "A1 \<inter> A2 = {}" using u by blast+
  ultimately show ?thesis using assms(1,2) unfolding sorts_def prod.case map_append set_append distinct_append a by simp
qed

lemma gather_sorts:
  "list_all2 (\<lambda>t c. yields (sorts [t]) c) ts cs \<Longrightarrow> distinct ts \<Longrightarrow> yields (sorts ts) (gatherConds cs)"
proof (induction ts cs rule: list_all2_induct)
  case (Cons t ts c cs)
  have rest: "yields (sorts ts) (gatherConds cs)" using Cons by simp
  show ?case unfolding gatherConds.simps
  proof (rule yields_bnd_using [OF Cons.hyps(1)])
    fix x
    assume x: "sorts [t] x"
    show "yields (sorts (t # ts)) (case x of (s1, r1) \<Rightarrow> bnd (gatherConds cs) (\<lambda>(s2, r2). Ret (s1 @ s2, r1 @ r2)))"
    proof (cases x)
      case (Pair s1 r1)
      have "yields (sorts (t # ts)) (bnd (gatherConds cs) (\<lambda>(s2, r2). Ret (s1 @ s2, r1 @ r2)))"
        by (rule yields_bnd_using [OF rest])
           (use x Pair Cons.prems in \<open>auto intro!: yields_Ret sorts_append split: prod.splits\<close>)
      with Pair show ?thesis by simp
    qed
  qed
qed (simp add: yields_Ret sorts_def)

lemma subsystemConds_sorts: "yields (sorts subsystemTypes) (subsystemConds L m p st)"
  unfolding subsystemConds_def by (rule gather_sorts) (simp_all add: subsystemTypes_def condIf_sorts)

subsection \<open>Ready\<close>

lemma map_of_rev_distinct:
  assumes "distinct (map fst xs)"
  shows "map_of (rev xs) k = map_of xs k"
proof (rule option.expand)
  have d: "distinct (map fst (rev xs))" using assms by (simp add: rev_map [symmetric])
  show "(map_of (rev xs) k = None) = (map_of xs k = None)" by (simp add: map_of_eq_None_iff)
  assume "map_of (rev xs) k \<noteq> None" "map_of xs k \<noteq> None"
  then obtain v w where "map_of (rev xs) k = Some v" "map_of xs k = Some w" by auto
  with map_of_eq_Some_iff [OF d, of k v] map_of_eq_Some_iff [OF assms, of k v]
  show "the (map_of (rev xs) k) = the (map_of xs k)" by simp
qed

lemma new_status_conditions:
  assumes law: "lawful_conditions L" and sorts: "sorts subsystemTypes (conds, remove)"
  shows "condStatus (st_conditions (newStatus L m p cur now conds remove ag b)) ''Ready'' = Some (ag_status ag)"
    and "t \<in> set subsystemTypes \<Longrightarrow>
      condStatus (st_conditions (newStatus L m p cur now conds remove ag b)) t = map_option fst (map_of conds t)"
proof -
  let ?all = "conds @ [(''Ready'', ag_status ag, ag_reason ag, ag_message ag)]"
  have types: "set (map fst conds) \<union> set remove = set subsystemTypes" "set (map fst conds) \<inter> set remove = {}" "distinct (map fst conds)"
    using sorts by (simp_all add: sorts_def)
  have ready: "''Ready'' \<notin> set subsystemTypes" by (simp add: subsystemTypes_def)
  have get: "condStatus (st_conditions (newStatus L m p cur now conds remove ag b)) u =
      (if u \<in> set remove then None
       else case map_of (rev ?all) u of Some v \<Rightarrow> Some (fst v) | None \<Rightarrow> condStatus (st_conditions (status cur)) u)" for u
    by (simp add: newStatus_def Let_def removed_status [OF law] set_status [OF law, of cur now _ ?all, simplified])
  show "condStatus (st_conditions (newStatus L m p cur now conds remove ag b)) ''Ready'' = Some (ag_status ag)"
    using types(1) ready unfolding get by auto
  assume t: "t \<in> set subsystemTypes"
  then have "t \<noteq> ''Ready''" using ready by auto
  then have "map_of (rev ?all) t = map_of conds t" using map_of_rev_distinct [OF types(3)] by simp
  moreover have "map_of conds t = None \<longleftrightarrow> t \<in> set remove"
    using t types unfolding map_of_eq_None_iff by auto
  ultimately show "condStatus (st_conditions (newStatus L m p cur now conds remove ag b)) t = map_option fst (map_of conds t)"
    unfolding get by (cases "map_of conds t") auto
qed

lemma all_true_iff:
  assumes "sorts subsystemTypes (conds, remove)"
  shows "list_all (\<lambda>(t, s, _). s = ''True'') conds \<longleftrightarrow> (\<forall>t\<in>set subsystemTypes. map_option fst (map_of conds t) \<in> {None, Some ''True''})"
proof -
  have d: "distinct (map fst conds)" and sub: "set (map fst conds) \<subseteq> set subsystemTypes"
    using assms by (auto simp: sorts_def)
  show ?thesis
  proof
    assume "list_all (\<lambda>(t, s, _). s = ''True'') conds"
    then have "fst v = ''True''" if "map_of conds t = Some v" for t v
      using map_of_SomeD [OF that] by (cases v) (auto simp: list_all_iff)
    then have "map_option fst (map_of conds t) \<in> {None, Some ''True''}" for t by (cases "map_of conds t") auto
    then show "\<forall>t\<in>set subsystemTypes. map_option fst (map_of conds t) \<in> {None, Some ''True''}" by blast
  next
    assume r: "\<forall>t\<in>set subsystemTypes. map_option fst (map_of conds t) \<in> {None, Some ''True''}"
    have "fst v = ''True''" if "(t, v) \<in> set conds" for t v
    proof -
      have "map_of conds t = Some v" using d that by simp
      moreover have "t \<in> set subsystemTypes" using sub that by force
      ultimately show ?thesis using r by force
    qed
    then show "list_all (\<lambda>(t, s, _). s = ''True'') conds" by (auto simp: list_all_iff)
  qed
qed


subsection \<open>Messages\<close>

lemma runeCut_le: "runeCut s n \<le> n"
  by (induction n) auto

lemma runeCut_start: "runeCut s n = 0 \<or> runeStart (s ! runeCut s n)"
  by (induction n) auto

lemma runeCut_longest: "runeCut s n < j \<Longrightarrow> j \<le> n \<Longrightarrow> \<not> runeStart (s ! j)"
proof (induction n)
  case (Suc n)
  then show ?case by (cases "j = Suc n") (auto split: if_splits)
qed simp

text \<open>
  C24: a long message is cut to at most 1024 bytes, at the last character boundary that leaves
  room for the marker, and a short one is kept as it is.
\<close>
theorem messages_bounded:
  "length (truncateMsg s) \<le> 1024 \<and> (length s \<le> 1024 \<longrightarrow> truncateMsg s = s) \<and>
   (length s > 1024 \<longrightarrow> (\<exists>n. truncateMsg s = take n s @ truncateSuffix \<and> (n = 0 \<or> runeStart (s ! n)) \<and>
      (\<forall>j. n < j \<and> j \<le> 1024 - length truncateSuffix \<longrightarrow> \<not> runeStart (s ! j))))"
proof -
  have len: "length truncateSuffix = 14" by (simp add: truncateSuffix_def)
  have "length (take (runeCut s 1010) s @ truncateSuffix) \<le> 1024" using runeCut_le [of s 1010] len by simp
  then show ?thesis
    unfolding truncateMsg_def len
    using runeCut_start [of s 1010] runeCut_longest [of s 1010]
    by (auto intro!: exI [of _ "runeCut s 1010"] simp del: runeCut.simps)
qed

subsection \<open>Retries end\<close>

text \<open>\<open>occursAtMost P n p\<close>: no run of \<open>p\<close> has more than \<open>n\<close> exchanges that satisfy \<open>P\<close>.\<close>

definition occursAtMost :: "(req \<Rightarrow> bool) \<Rightarrow> nat \<Rightarrow> 'a io \<Rightarrow> bool" where
  "occursAtMost P n p \<longleftrightarrow> (\<forall>tr a. runs p tr a \<longrightarrow> length (filter (\<lambda>e. P (fst e)) tr) \<le> n)"

lemma occursAtMost_quiet: "calls (\<lambda>q. \<not> P q) p \<Longrightarrow> occursAtMost P 0 p"
  unfolding occursAtMost_def using calls_runs by (fastforce simp: filter_empty_conv)

lemma occursAtMost_bnd:
  assumes "occursAtMost P i p" "\<And>a. occursAtMost P j (f a)"
  shows "occursAtMost P (i + j) (bnd p f)"
  unfolding occursAtMost_def
proof (intro allI impI)
  fix tr a
  assume "runs (bnd p f) tr a"
  then obtain t1 b t2 where "tr = t1 @ t2" "runs p t1 b" "runs (f b) t2 a" by (auto simp: runs_bnd)
  moreover have "length (filter (\<lambda>e. P (fst e)) t1) \<le> i" using assms(1) calculation(2) unfolding occursAtMost_def by blast
  moreover have "length (filter (\<lambda>e. P (fst e)) t2) \<le> j" using assms(2) calculation(3) unfolding occursAtMost_def by blast
  ultimately show "length (filter (\<lambda>e. P (fst e)) tr) \<le> i + j" by simp
qed

lemma occursAtMost_chk: "occursAtMost P i p \<Longrightarrow> (\<And>a. occursAtMost P j (f a)) \<Longrightarrow> occursAtMost P (i + j) (chk p f)"
  unfolding chk_def by (rule occursAtMost_bnd) (auto simp: occursAtMost_def split: sum.split)

lemma occursAtMost_retry:
  assumes "occursAtMost P 1 p"
  shows "occursAtMost P (Suc n) (retryOnConflict n p)"
proof (induction n)
  case (Suc n)
  have "occursAtMost P (Suc n) (case r of Inl e \<Rightarrow> if isConflict e then retryOnConflict n p else Ret (Inl e) | Inr a \<Rightarrow> Ret (Inr a))" for r
    using Suc by (auto simp: occursAtMost_def split: sum.split)
  from occursAtMost_bnd [OF assms this] show ?case by simp
qed (use assms in simp)

definition isStatusUpdate :: "req \<Rightarrow> bool" where
  "isStatusUpdate q \<longleftrightarrow> (case q of QStatusUpdate _ \<Rightarrow> True | _ \<Rightarrow> False)"

lemma occursAtMost_status: "occursAtMost isStatusUpdate 1 (kstatusUpdate x)"
  by (auto simp: occursAtMost_def kstatusUpdate_def runs_Call_iff)

lemma occursAtMost_read: "calls readOnly p \<Longrightarrow> occursAtMost isStatusUpdate 0 p"
  by (rule occursAtMost_quiet, erule calls_mono) (auto simp: isStatusUpdate_def split: req.splits)

lemma occursAtMost_attempts:
  "occursAtMost isStatusUpdate 1 (statusAttempt L m p conds remove ag)"
  "occursAtMost isStatusUpdate 1 (channelStatusAttempt n target i u)"
proof -
  have get: "occursAtMost isStatusUpdate 0 (getMisskey ns n)" "occursAtMost isStatusUpdate 0 (getChannel n)" "occursAtMost isStatusUpdate 0 timeNow" for ns n
    by (rule occursAtMost_read; simp add: getMisskey_def getChannel_def kget_def timeNow_def chk_def calls_intros split: sum.split)+
  have backup: "occursAtMost isStatusUpdate 0 (readBackupStatus m p)" by (rule occursAtMost_read) (rule condition_reads)
  have "occursAtMost isStatusUpdate (0 + (0 + (0 + 1))) (statusAttempt L m p conds remove ag)"
    unfolding statusAttempt_def by (intro occursAtMost_chk occursAtMost_bnd get backup occursAtMost_status)
  then show "occursAtMost isStatusUpdate 1 (statusAttempt L m p conds remove ag)" by simp
  have "occursAtMost isStatusUpdate 0 (if b then timeNow else Ret 0)" for b
    using get(3) by (simp add: occursAtMost_def)
  then have "occursAtMost isStatusUpdate (0 + (0 + 1)) (channelStatusAttempt n target i u)"
    unfolding channelStatusAttempt_def by (intro occursAtMost_chk occursAtMost_bnd get occursAtMost_status)
  then show "occursAtMost isStatusUpdate 1 (channelStatusAttempt n target i u)" by simp
qed


end
