(* ===== verification/Webhook.thy ===== *)
theory Webhook
  imports Config "HOL-Library.Multiset"
begin

section \<open>Admission webhooks (misskey\_webhook.go, misskeychannel\_webhook.go)\<close>

text \<open>
  The defaulter fixes the tenant, the validators enforce the allow lists for images and
  cluster issuers, and the warnings tell the user about settings that have no effect or break
  the rendered configuration. Two things are parameters: the order in which Go iterates over a
  map (\<open>ord\<close>), and the top-level keys that \<^verbatim>\<open>sigs.k8s.io/yaml\<close> reads from a document
  (\<open>unmarshal\<close>, \<open>None\<close> when the document does not parse).
\<close>

subsection \<open>Allow lists\<close>

definition imageAllowed :: "string \<Rightarrow> string list \<Rightarrow> bool" where
  "imageAllowed img allowed \<longleftrightarrow>
     (if img = [] \<or> length allowed = 0 then True else list_ex (\<lambda>a. hasPrefix img a) allowed)"

definition nameAllowed :: "string \<Rightarrow> string list \<Rightarrow> bool" where
  "nameAllowed name allowed \<longleftrightarrow> (if length allowed = 0 then True else list_ex (\<lambda>a. name = a) allowed)"

definition reservedConfigKeys :: "string list" where
  "reservedConfigKeys =
     [''url'', ''port'', ''setupPassword'',
      ''db'', ''dbReplications'', ''dbSlaves'',
      ''redis'', ''redisForJobQueue'', ''redisForPubsub'',
      ''redisForTimelines'', ''redisForReactions'',
      ''fulltextSearch'', ''meilisearch'',
      ''id'', ''proxyRemoteFiles'', ''signToActivityPubGet'',
      ''deliverJobConcurrency'', ''inboxJobConcurrency'',
      ''deliverJobPerSec'', ''inboxJobPerSec'', ''relationshipJobPerSec'',
      ''deliverJobMaxAttempts'', ''inboxJobMaxAttempts'',
      ''proxy'', ''proxySmtp'', ''proxyBypassHosts'',
      ''maxFileSize'', ''mediaProxy'']"

definition Default :: "misskey \<Rightarrow> misskey" where
  "Default m =
     (if tenant (spec m) = [] then m\<lparr>spec := (spec m)\<lparr>tenant := mnamespace m\<rparr>\<rparr> else m)"

record misskeyCustomValidator =
  allowedImageRegistries :: "string list"
  allowedClusterIssuers :: "string list"

subsection \<open>The images of a spec\<close>

text \<open>\<^verbatim>\<open>add\<close>: an empty image is left out. The paths are distinct, so the map is a list of pairs.\<close>

definition addImage :: "string \<Rightarrow> string \<Rightarrow> (string \<times> string) list" where
  "addImage path img = (if img \<noteq> [] then [(path, img)] else [])"

definition haImages :: "string \<Rightarrow> redisHA option \<Rightarrow> (string \<times> string) list" where
  "haImages path ha = (case ha of None \<Rightarrow> []
     | Some h \<Rightarrow> addImage (path @ ''.ha.image'') (ha_image h) @ addImage (path @ ''.ha.sentinelImage'') (ha_sentinelImage h))"

definition roleImages :: "string \<Rightarrow> redisRole option \<Rightarrow> (string \<times> string) list" where
  "roleImages name role = (case role of None \<Rightarrow> [] | Some r \<Rightarrow> haImages (''spec.redis.roles.'' @ name) (ro_ha r))"

definition specImages :: "misskey \<Rightarrow> (string \<times> string) list" where
  "specImages m =
     (let sp = spec m; rd = redis sp in
      addImage ''spec.image'' (image sp) @
      addImage ''spec.proxy.image'' (px_image (proxy sp)) @
      addImage ''spec.postgres.image'' (pg_image (postgres sp)) @
      addImage ''spec.redis.image'' (rd_image rd) @
      haImages ''spec.redis'' (rd_ha rd) @
      (case rd_roles rd of None \<Rightarrow> []
       | Some roles \<Rightarrow>
           roleImages ''jobQueue'' (rl_jobQueue roles) @ roleImages ''pubsub'' (rl_pubsub roles) @
           roleImages ''timelines'' (rl_timelines roles) @ roleImages ''reactions'' (rl_reactions roles)) @
      addImage ''spec.search.meilisearch.image'' (ms_image (se_meilisearch (search sp))) @
      (case objectStorage sp of None \<Rightarrow> [] | Some os \<Rightarrow> addImage ''spec.objectStorage.image'' (os_image os)) @
      (case sensitiveDetector sp of None \<Rightarrow> []
       | Some d \<Rightarrow>
           (if sd_external d = None then addImage ''spec.sensitiveDetector.image'' (sd_image d) else []) @
           addImage ''spec.sensitiveDetector.configJobImage'' (sd_configJobImage d)) @
      addImage ''spec.monitoring.redisExporterImage'' (mo_redisExporterImage (monitoring sp)))"

subsection \<open>Validation\<close>

record fieldError =
  fe_path :: string
  fe_value :: string
  fe_detail :: string

record invalidError =
  ie_kind :: string
  ie_name :: string
  ie_errors :: "fieldError list"

definition invalidOr :: "string \<Rightarrow> string \<Rightarrow> fieldError list \<Rightarrow> invalidError option" where
  "invalidOr kind name errs =
     (if length errs = 0 then None else Some \<lparr>ie_kind = kind, ie_name = name, ie_errors = errs\<rparr>)"

definition imageError :: "string \<Rightarrow> string \<Rightarrow> fieldError" where
  "imageError path img = \<lparr>fe_path = path, fe_value = img,
     fe_detail = ''image registry is not in the allowed list (--allowed-image-registries)''\<rparr>"

definition issuerErrors :: "misskeyCustomValidator \<Rightarrow> misskey \<Rightarrow> fieldError list" where
  "issuerErrors v m = (case ig_issuerRef (ingress (spec m)) of
     None \<Rightarrow> []
   | Some ref \<Rightarrow>
       if ir_kind ref \<noteq> ''Issuer'' \<and> \<not> nameAllowed (ir_name ref) (allowedClusterIssuers v)
       then [\<lparr>fe_path = ''spec.ingress.issuerRef.name'', fe_value = ir_name ref,
              fe_detail = ''ClusterIssuer is not in the allowed list (--allowed-cluster-issuers)''\<rparr>]
       else [])"

type_synonym mapOrder = "(string \<times> string) list \<Rightarrow> (string \<times> string) list"

definition validate :: "mapOrder \<Rightarrow> misskeyCustomValidator \<Rightarrow> misskey \<Rightarrow> invalidError option" where
  "validate ord v m = invalidOr ''Misskey'' (mname m)
     (map (\<lambda>(path, img). imageError path img)
        (filter (\<lambda>(path, img). \<not> imageAllowed img (allowedImageRegistries v)) (ord (specImages m))) @
      issuerErrors v m)"

definition channelValidate :: "string list \<Rightarrow> misskeyChannel \<Rightarrow> invalidError option" where
  "channelValidate allowed c =
     (if imageAllowed (ch_image (ch_spec c)) allowed then None
      else invalidOr ''MisskeyChannel'' (om_name (mc_meta c)) [imageError ''spec.image'' (ch_image (ch_spec c))])"

subsection \<open>Warnings\<close>

definition instancesOr :: "int32 \<Rightarrow> int32" where
  "instancesOr instances = (if instances = 0 then 1 else instances)"

definition extraConfigWarnings :: "(string \<Rightarrow> string list option) \<Rightarrow> string \<Rightarrow> string list" where
  "extraConfigWarnings unmarshal extra =
     (if allSpace extra then []
      else case unmarshal extra of
        None \<Rightarrow> [''spec.extraConfig is not valid YAML and will break Misskey's config parse'']
      | Some keys \<Rightarrow>
          map (\<lambda>k. ''spec.extraConfig key '' @ quoteGo k @
            '' duplicates an operator-managed key; duplicate top-level keys break Misskey's YAML parse'')
            (sort (filter (\<lambda>k. k \<in> set reservedConfigKeys) keys)))"

definition isTrue :: "bool option \<Rightarrow> bool" where
  "isTrue b \<longleftrightarrow> b = Some True"

definition mutableTag :: "string \<Rightarrow> bool" where
  "mutableTag img \<longleftrightarrow> \<not> contains (afterLast (CHR ''/'') img) '':'' \<or> hasSuffix img '':latest''"

definition warnIf :: "bool \<Rightarrow> string \<Rightarrow> string list" where
  "warnIf b w = (if b then [w] else [])"

definition advisoryWarnings :: "(string \<Rightarrow> string list option) \<Rightarrow> misskey \<Rightarrow> string list" where
  "advisoryWarnings unmarshal m =
     (let sp = spec m; pg = postgres sp; img = image sp in
      (if pg_external pg \<noteq> None
       then warnIf (isTrue (pg_readOffload pg)) ''spec.postgres.readOffload has no effect with an external database''
       else warnIf (isTrue (pg_readOffload pg) \<and> instancesOr (pg_instances pg) < 2)
              ''spec.postgres.readOffload needs postgres.instances>=2 to take effect'') @
      warnIf (rd_external (redis sp) \<noteq> None \<and> rd_roles (redis sp) \<noteq> None)
        ''spec.redis.roles is ignored while redis.external is set'' @
      warnIf (se_provider (search sp) = SearchSQLPgroonga \<and> pg_external pg = None \<and> pg_image pg = [])
        ''search.provider=sqlPgroonga requires postgres.image with the PGroonga extension'' @
      warnIf (pg_recovery pg \<noteq> None \<or> pg_import pg \<noteq> None)
        ''spec.postgres.recovery/import restores an existing database: keep spec.url and spec.idGenerationMethod identical to the source instance, and use a postgres.image compatible with the source's PostgreSQL major version and installed extensions'' @
      warnIf ((case ap_autoscaling (app sp) of None \<Rightarrow> False | Some a \<Rightarrow> aa_rps a \<noteq> None) \<and>
              \<not> isTrue (mo_enabled (monitoring sp)))
        ''autoscaling.rps needs monitoring.enabled so the proxy metrics port is exposed and scraped'' @
      warnIf (img \<noteq> [] \<and> \<not> trackImageDigest sp \<and> \<not> contains img ''@'' \<and> mutableTag img)
        ''spec.image uses a mutable latest tag; set trackImageDigest: true or pin a version/digest, otherwise new pushes never roll app/worker'' @
      warnIf (case objectStorage sp of None \<Rightarrow> False
              | Some os \<Rightarrow> isTrue (os_setPublicRead os) \<and> contains (os_endpoint os) ''r2.cloudflarestorage.com'')
        ''spec.objectStorage.setPublicRead must be false for Cloudflare R2 (it does not support object ACLs)'' @
      warnIf (case pg_import pg of None \<Rightarrow> False
              | Some imp \<Rightarrow> is_sslMode (im_source imp) \<in> {''disable'', ''allow'', ''prefer'', []})
        ''spec.postgres.import.source.sslMode is weaker than require; use require or verify-full to prevent a man-in-the-middle downgrade of the import connection'' @
      warnIf (hasPrefix (url sp) ''http://'')
        ''spec.url uses http://; federated peers will see a plaintext URL. Prefer https://'' @
      extraConfigWarnings unmarshal (extraConfig sp))"

subsection \<open>Handlers\<close>

definition validateCreate ::
  "mapOrder \<Rightarrow> (string \<Rightarrow> string list option) \<Rightarrow> misskeyCustomValidator \<Rightarrow> misskey \<Rightarrow> invalidError + string list" where
  "validateCreate ord unmarshal v m =
     (case validate ord v m of Some e \<Rightarrow> Inl e | None \<Rightarrow> Inr (advisoryWarnings unmarshal m))"

definition validateUpdate ::
  "mapOrder \<Rightarrow> (string \<Rightarrow> string list option) \<Rightarrow> misskeyCustomValidator \<Rightarrow> misskey \<Rightarrow> misskey \<Rightarrow> invalidError + string list" where
  "validateUpdate ord unmarshal v old new =
     (case validate ord v new of Some e \<Rightarrow> Inl e | None \<Rightarrow> Inr (advisoryWarnings unmarshal new))"

definition validateDelete :: "misskeyCustomValidator \<Rightarrow> misskey \<Rightarrow> invalidError + string list" where
  "validateDelete v m = Inr []"

definition channelValidateCreate :: "string list \<Rightarrow> misskeyChannel \<Rightarrow> string list \<times> invalidError option" where
  "channelValidateCreate allowed c = ([], channelValidate allowed c)"

definition channelValidateUpdate :: "string list \<Rightarrow> misskeyChannel \<Rightarrow> misskeyChannel \<Rightarrow> string list \<times> invalidError option" where
  "channelValidateUpdate allowed old new = ([], channelValidate allowed new)"

definition channelValidateDelete :: "string list \<Rightarrow> misskeyChannel \<Rightarrow> string list \<times> invalidError option" where
  "channelValidateDelete allowed c = ([], None)"

subsection \<open>The top-level keys of a rendered configuration\<close>

text \<open>
  A reader of block YAML as far as top-level keys go: a key starts at the beginning of a line
  that is neither indented nor a comment and ends at the colon.
\<close>

datatype yamlScan = LineStart | InKey string | SkipLine

fun topKeysFrom :: "yamlScan \<Rightarrow> string \<Rightarrow> string list" where
  "topKeysFrom LineStart [] = []"
| "topKeysFrom LineStart (c # s) =
     (if c = CHR 0x0A then topKeysFrom LineStart s
      else if c = CHR 0x20 \<or> c = CHR 0x23 then topKeysFrom SkipLine s
      else topKeysFrom (InKey [c]) s)"
| "topKeysFrom (InKey k) [] = [k]"
| "topKeysFrom (InKey k) (c # s) =
     (if c = CHR 0x0A then k # topKeysFrom LineStart s
      else if c = CHR 0x3A then k # topKeysFrom SkipLine s
      else topKeysFrom (InKey (k @ [c])) s)"
| "topKeysFrom SkipLine [] = []"
| "topKeysFrom SkipLine (c # s) = (if c = CHR 0x0A then topKeysFrom LineStart s else topKeysFrom SkipLine s)"

definition topKeys :: "string \<Rightarrow> string list" where
  "topKeys = topKeysFrom LineStart"

lemma skip_plain [simp]: "CHR 0x0A \<notin> set s \<Longrightarrow> topKeysFrom SkipLine (s @ t) = topKeysFrom SkipLine t"
  by (induction s) auto

lemma skip_nl [simp]: "topKeysFrom SkipLine (nl @ t) = topKeysFrom LineStart t" "topKeysFrom LineStart (nl @ t) = topKeysFrom LineStart t"
  by (simp_all add: nl_def)

lemma inRange_high: "inRange lo hi c \<Longrightarrow> 128 \<le> lo \<Longrightarrow> 128 \<le> byte c"
  by (simp add: inRange_def)

lemma runeLen_cases:
  obtains (1) "s = []" | (2) a where "s = [a]" | (3) a b where "s = [a, b]" | (5) a b c where "s = [a, b, c]"
  | (4) a b c d t where "s = a # b # c # d # t"
  by (metis list.exhaust)

lemma runeLen_wide:
  "s \<noteq> [] \<Longrightarrow> runeLen s = 1 \<or> (\<forall>c\<in>set (take (runeLen s) s). 128 \<le> byte c)"
proof (cases s rule: runeLen_cases)
  case (4 a b c d t)
  have "runeLen s = 1 \<or> runeLen s = 2 \<and> 128 \<le> byte a \<and> 128 \<le> byte b \<or>
    runeLen s = 3 \<and> 128 \<le> byte a \<and> 128 \<le> byte b \<and> 128 \<le> byte c \<or>
    runeLen s = 4 \<and> 128 \<le> byte a \<and> 128 \<le> byte b \<and> 128 \<le> byte c \<and> 128 \<le> byte d"
    using 4 by (simp add: runeLen_def inRange_def)
  with 4 show ?thesis by auto
qed (auto simp: runeLen_def dest: inRange_high)

lemma runes_wide: "r \<in> set (runes s) \<Longrightarrow> (\<exists>c. r = [c]) \<or> (\<forall>c\<in>set r. 128 \<le> byte c)"
proof (induction s rule: runes.induct)
  case (1 s)
  show ?case
  proof (cases "s = []")
    case False
    with runeLen_wide [OF False] have "(\<exists>c. take (runeLen s) s = [c]) \<or> (\<forall>c\<in>set (take (runeLen s) s). 128 \<le> byte c)"
      by (cases s) auto
    with 1 False show ?thesis by (subst (asm) runes.simps) auto
  qed (use 1 in simp)
qed

lemma hexDigit_plain: "n < 16 \<Longrightarrow> hexDigit n \<noteq> CHR 0x0A"
proof
  assume n: "n < 16" "hexDigit n = CHR 0x0A"
  then have "(of_char (hexDigit n) :: nat) = 10" by simp
  with n(1) show False by (auto simp: hexDigit_def of_char_of split: if_splits)
qed

lemma byte_less: "byte c < 256"
  unfolding byte_def using nat_of_char_less_256 by simp

lemma jsonAscii_plain: "CHR 0x0A \<notin> set (jsonAscii c)"
proof -
  have "byte c \<noteq> 10 \<Longrightarrow> CHR 0x0A \<noteq> c" by (auto simp: byte_def)
  moreover have "hexDigit (byte c div 16) \<noteq> CHR 0x0A" "hexDigit (byte c mod 16) \<noteq> CHR 0x0A"
    using byte_less [of c] by (intro hexDigit_plain; simp)+
  ultimately show ?thesis by (auto simp: jsonAscii_def Let_def hexByte_def byte_def)
qed

lemma jsonRune_plain: "r \<in> set (runes s) \<Longrightarrow> CHR 0x0A \<notin> set (jsonRune r)"
proof -
  assume "r \<in> set (runes s)"
  from runes_wide [OF this] show ?thesis
    by (auto simp: jsonRune_def jsonAscii_plain byte_def split: list.splits)
qed

lemma yq_plain [simp]: "CHR 0x0A \<notin> set (yq s)"
  using jsonRune_plain by (auto simp: yq_def jsonString_def dq_def)

lemma itoa_plain [simp]: "CHR 0x0A \<notin> set (itoa i)"
  using digits10_digit [of "CHR 0x0A"] by (auto simp: itoa_def)

lemma formatBool_plain [simp]: "CHR 0x0A \<notin> set (formatBool b)"
  by (simp add: formatBool_def)

lemma placeholder_plain [simp]: "CHR 0x0A \<notin> set k \<Longrightarrow> CHR 0x0A \<notin> set (placeholder k)"
  by (simp add: placeholder_def)

lemma joinWith_plain: "CHR 0x0A \<notin> set sep \<Longrightarrow> (\<forall>x\<in>set xs. CHR 0x0A \<notin> set x) \<Longrightarrow> CHR 0x0A \<notin> set (joinWith sep xs)"
  by (induction sep xs rule: joinWith.induct) auto

text \<open>
  A piece of a document that consists of whole lines and has the top-level keys \<open>ks\<close>.
\<close>

definition yamlPiece :: "string list \<Rightarrow> string \<Rightarrow> bool" where
  "yamlPiece ks s \<longleftrightarrow> (\<forall>rest. topKeysFrom LineStart (s @ rest) = ks @ topKeysFrom LineStart rest)"

lemma piece_append: "yamlPiece ks s \<Longrightarrow> yamlPiece ls t \<Longrightarrow> yamlPiece (ks @ ls) (s @ t)"
  by (simp add: yamlPiece_def)

lemma piece_if: "(b \<Longrightarrow> yamlPiece ks s) \<Longrightarrow> yamlPiece (if b then ks else []) (if b then s else [])"
  by (simp add: yamlPiece_def)

lemma piece_option:
  "(\<And>a. x = Some a \<Longrightarrow> yamlPiece ks (f a)) \<Longrightarrow>
     yamlPiece (if x \<noteq> None then ks else []) (case x of None \<Rightarrow> [] | Some a \<Rightarrow> f a)"
  by (cases x) (simp_all add: yamlPiece_def)

lemma piece_concat: "(\<And>x. x \<in> set xs \<Longrightarrow> yamlPiece [] (f x)) \<Longrightarrow> yamlPiece [] (concat (map f xs))"
  by (induction xs) (auto simp: yamlPiece_def)

lemma piece_redis:
  assumes "CHR 0x0A \<notin> set (re_passEnv ep)"
    and key: "\<And>rest. topKeysFrom LineStart (key @ '':'' @ nl @ rest) = key # topKeysFrom LineStart rest"
  shows "yamlPiece [key] (renderRedisBlock key ep)"
proof -
  define S where "S = concat (map (\<lambda>s. ''    - host: '' @ yq (rhp_host s) @ nl @ ''      port: '' @ itoa (rhp_port s) @ nl) (re_sentinels ep))"
  have "yamlPiece [] S" unfolding S_def by (rule piece_concat) (simp add: yamlPiece_def)
  then have S: "topKeysFrom LineStart (S @ rest) = topKeysFrom LineStart rest" for rest by (simp add: yamlPiece_def)
  show ?thesis unfolding renderRedisBlock_def S_def [symmetric] yamlPiece_def using assms(1) S key by simp
qed

definition emittedKeys :: "misskey \<Rightarrow> plan \<Rightarrow> bool list" where
  "emittedKeys m p =
     (let pf = performance (spec m); ob = outboundProxy (spec m); role = (\<lambda>k. map_of (redisRolesP p) k \<noteq> None) in
      [True, True, setupEnabled p, True, True, dbReplications p,
       True, role ''jobQueue'', role ''pubsub'', role ''timelines'', role ''reactions'',
       True, meiliEnabled p, True, True, True,
       pf_deliverJobConcurrency pf \<noteq> None, pf_inboxJobConcurrency pf \<noteq> None, pf_deliverJobPerSec pf \<noteq> None,
       pf_inboxJobPerSec pf \<noteq> None, pf_relationshipJobPerSec pf \<noteq> None, pf_deliverJobMaxAttempts pf \<noteq> None,
       pf_inboxJobMaxAttempts pf \<noteq> None,
       ob_http ob \<noteq> [], ob_smtp ob \<noteq> [], ob_bypassHosts ob \<noteq> [],
       fi_maxFileSize (files (spec m)) \<noteq> None, fi_mediaProxy (files (spec m)) \<noteq> []])"

definition keysIf :: "bool list \<Rightarrow> string list \<Rightarrow> string list" where
  "keysIf bs ks = concat (map (\<lambda>(b, k). if b then [k] else []) (zip bs ks))"

lemma keysIf_props: "distinct ks \<Longrightarrow> distinct (keysIf bs ks) \<and> set (keysIf bs ks) \<subseteq> set ks"
proof (induction bs arbitrary: ks)
  case (Cons b bs)
  then show ?case by (cases ks) (auto simp: keysIf_def)
qed (simp add: keysIf_def)

lemma piece_db: "yamlPiece ([''db'', ''dbReplications''] @ (if dbReplications p then [''dbSlaves''] else [])) (renderDB p)"
proof -
  have "yamlPiece [] (concat (map renderSlave xs))" for xs
    by (rule piece_concat) (simp add: yamlPiece_def renderSlave_def)
  then show ?thesis unfolding renderDB_def yamlPiece_def by simp
qed

lemma piece_search:
  "CHR 0x0A \<notin> set (provider p) \<Longrightarrow> CHR 0x0A \<notin> set (meiliScope p) \<Longrightarrow>
     yamlPiece ([''fulltextSearch''] @ (if meiliEnabled p then [''meilisearch''] else [])) (renderSearch p)"
  unfolding renderSearch_def yamlPiece_def by simp

lemma piece_redis_all:
  assumes "CHR 0x0A \<notin> set (re_passEnv (redisDefault p))"
    and "\<And>rd ep. rd \<in> set redisRoleDescs \<Longrightarrow> map_of (redisRolesP p) (rdd_key rd) = Some ep \<Longrightarrow> CHR 0x0A \<notin> set (re_passEnv ep)"
  shows "yamlPiece ([''redis''] @ keysIf (map (\<lambda>k. map_of (redisRolesP p) k \<noteq> None)
      [''jobQueue'', ''pubsub'', ''timelines'', ''reactions''])
      [''redisForJobQueue'', ''redisForPubsub'', ''redisForTimelines'', ''redisForReactions'']) (renderRedis p)"
proof -
  have role: "yamlPiece (if x \<noteq> None then [key] else []) (case x of Some ep \<Rightarrow> renderRedisBlock key ep | None \<Rightarrow> [])"
    if "x = map_of (redisRolesP p) k" "k \<in> rdd_key ` set redisRoleDescs" "\<And>rest. topKeysFrom LineStart (key @ '':'' @ nl @ rest) = key # topKeysFrom LineStart rest" for x key k
    by (rule piece_option) (use assms(2) that in \<open>auto intro!: piece_redis\<close>)
  have nl0: "yamlPiece [] nl" by (simp add: yamlPiece_def)
  have eq: "renderRedis p = renderRedisBlock ''redis'' (redisDefault p) @
      (case map_of (redisRolesP p) ''jobQueue'' of Some ep \<Rightarrow> renderRedisBlock ''redisForJobQueue'' ep | None \<Rightarrow> []) @
      (case map_of (redisRolesP p) ''pubsub'' of Some ep \<Rightarrow> renderRedisBlock ''redisForPubsub'' ep | None \<Rightarrow> []) @
      (case map_of (redisRolesP p) ''timelines'' of Some ep \<Rightarrow> renderRedisBlock ''redisForTimelines'' ep | None \<Rightarrow> []) @
      (case map_of (redisRolesP p) ''reactions'' of Some ep \<Rightarrow> renderRedisBlock ''redisForReactions'' ep | None \<Rightarrow> []) @ nl"
    by (simp add: renderRedis_def redisRoleDescs_def cong: option.case_cong)
  have "yamlPiece ([''redis''] @ (if map_of (redisRolesP p) ''jobQueue'' \<noteq> None then [''redisForJobQueue''] else []) @
      (if map_of (redisRolesP p) ''pubsub'' \<noteq> None then [''redisForPubsub''] else []) @
      (if map_of (redisRolesP p) ''timelines'' \<noteq> None then [''redisForTimelines''] else []) @
      (if map_of (redisRolesP p) ''reactions'' \<noteq> None then [''redisForReactions''] else []) @ []) (renderRedis p)"
    unfolding eq
    by (intro piece_append piece_redis role nl0 refl) (use assms(1) in \<open>auto simp: redisRoleDescs_def\<close>)
  then show ?thesis by (simp add: keysIf_def)
qed

lemma piece_int:
  "(\<And>rest. topKeysFrom LineStart (key @ '': '' @ rest) = key # topKeysFrom SkipLine rest) \<Longrightarrow>
     yamlPiece (if v \<noteq> None then [key] else []) (writeInt key v)"
  unfolding writeInt_def by (rule piece_option) (simp add: yamlPiece_def)

lemma piece_performance:
  "yamlPiece (keysIf
     [pf_deliverJobConcurrency pf \<noteq> None, pf_inboxJobConcurrency pf \<noteq> None, pf_deliverJobPerSec pf \<noteq> None,
      pf_inboxJobPerSec pf \<noteq> None, pf_relationshipJobPerSec pf \<noteq> None, pf_deliverJobMaxAttempts pf \<noteq> None,
      pf_inboxJobMaxAttempts pf \<noteq> None]
     [''deliverJobConcurrency'', ''inboxJobConcurrency'', ''deliverJobPerSec'', ''inboxJobPerSec'',
      ''relationshipJobPerSec'', ''deliverJobMaxAttempts'', ''inboxJobMaxAttempts'']) (renderPerformance pf)"
  unfolding renderPerformance_def keysIf_def zip_Cons_Cons list.map concat.simps prod.case zip_Nil append_Nil2
  by (intro piece_append piece_int) simp_all

lemma piece_proxy:
  "yamlPiece (keysIf [ob_http ob \<noteq> [], ob_smtp ob \<noteq> [], ob_bypassHosts ob \<noteq> []]
     [''proxy'', ''proxySmtp'', ''proxyBypassHosts'']) (renderOutboundProxy ob)"
proof -
  have "CHR 0x0A \<notin> set (joinWith '', '' (map yq hs))" for hs by (rule joinWith_plain) auto
  then show ?thesis
    unfolding renderOutboundProxy_def length_greater_0_conv keysIf_def zip_Cons_Cons list.map concat.simps prod.case zip_Nil append_Nil2
    by (intro piece_append piece_if) (simp_all add: yamlPiece_def)
qed

lemma piece_files:
  "yamlPiece (keysIf [fi_maxFileSize f \<noteq> None, fi_mediaProxy f \<noteq> []] [''maxFileSize'', ''mediaProxy'']) (renderFiles f)"
  unfolding renderFiles_def keysIf_def zip_Cons_Cons list.map concat.simps prod.case zip_Nil append_Nil2
  by (intro piece_append piece_if piece_option) (simp_all add: yamlPiece_def)

definition oneLine :: "string \<Rightarrow> bool" where
  "oneLine s \<longleftrightarrow> CHR 0x0A \<notin> set s"

definition extraKeys :: "misskey \<Rightarrow> string list" where
  "extraKeys m = (if allSpace (extraConfig (spec m)) then []
     else topKeys (trimRightSet (extraConfig (spec m)) nl @ nl))"

lemma renderDefaultYML_keys:
  assumes "CHR 0x0A \<notin> set (provider p)" "CHR 0x0A \<notin> set (meiliScope p)" "CHR 0x0A \<notin> set (idGenerationMethod (spec m))"
    and "CHR 0x0A \<notin> set (re_passEnv (redisDefault p))"
    and "\<And>rd ep. rd \<in> set redisRoleDescs \<Longrightarrow> map_of (redisRolesP p) (rdd_key rd) = Some ep \<Longrightarrow> CHR 0x0A \<notin> set (re_passEnv ep)"
  shows "topKeys (renderDefaultYML m p) = keysIf (emittedKeys m p) reservedConfigKeys @ extraKeys m"
proof -
  note pieces = piece_db [of p] piece_redis_all [OF assms(4,5)] piece_search [OF assms(1,2)]
    piece_performance [of "performance (spec m)"] piece_proxy [of "outboundProxy (spec m)"] piece_files [of "files (spec m)"]
  have "CHR 0x0A \<notin> set (stringOr (idGenerationMethod (spec m)) ''aidx'')" using assms(3) by (simp add: stringOr_def)
  with pieces show ?thesis
    unfolding renderDefaultYML_def topKeys_def extraKeys_def yamlPiece_def emittedKeys_def reservedConfigKeys_def keysIf_def
    by (simp add: Let_def)
qed

lemma resolve_search:
  "provider (resolve m) = stringOr (se_provider (search (spec m))) SearchMeilisearch"
  "meiliScope (resolve m) \<in> {[], stringOr (ms_scope (se_meilisearch (search (spec m)))) ''local''}"
  by (auto simp: resolve_def resolveSearch_def zeroPlan_def Let_def split: option.split)

lemma passEnv_plain: "rd \<in> set redisRoleDescs \<Longrightarrow> CHR 0x0A \<notin> set (rdd_passEnv rd)"
  by (auto simp: redisRoleDescs_def)

lemma config_keys:
  assumes "oneLine (se_provider (search (spec m)))" "oneLine (ms_scope (se_meilisearch (search (spec m))))"
    "oneLine (idGenerationMethod (spec m))" "p \<in> {resolve m, migratePlan m (resolve m)}"
  shows "topKeys (renderDefaultYML m p) = keysIf (emittedKeys m p) reservedConfigKeys @ extraKeys m"
proof (rule renderDefaultYML_keys)
  have same: "provider p = provider (resolve m)" "meiliScope p = meiliScope (resolve m)"
    "redisDefault p = redisDefault (resolve m)" "redisRolesP p = redisRolesP (resolve m)"
    using assms(4) by (auto simp: migratePlan_def Let_def)
  show "CHR 0x0A \<notin> set (provider p)" "CHR 0x0A \<notin> set (meiliScope p)"
    using assms(1,2) resolve_search [of m] unfolding same by (auto simp: oneLine_def stringOr_def SearchMeilisearch_def split: if_splits)
  show "CHR 0x0A \<notin> set (idGenerationMethod (spec m))" using assms(3) by (simp add: oneLine_def)
  show "CHR 0x0A \<notin> set (re_passEnv (redisDefault p))" unfolding same default_passEnv by simp
  show "CHR 0x0A \<notin> set (re_passEnv ep)" if "rd \<in> set redisRoleDescs" "map_of (redisRolesP p) (rdd_key rd) = Some ep" for rd ep
    using role_passEnv [of rd m ep] passEnv_plain that unfolding same by simp
qed


text \<open>
  C21: the verdict of the validator does not depend on the order in which Go walks a map: for
  every iteration order the same resources are rejected, with the same errors up to their
  order, and the warnings about \<^verbatim>\<open>extraConfig\<close> come out the same for every order of its keys.
\<close>
theorem admission_order_independent:
  assumes "Multiset.mset (ord (specImages m)) = Multiset.mset (specImages m)"
  shows "(validate ord v m = None \<longleftrightarrow>
      (\<forall>(path, img)\<in>set (specImages m). imageAllowed img (allowedImageRegistries v)) \<and> issuerErrors v m = [])
    \<and> rel_option (\<lambda>a b. Multiset.mset (ie_errors a) = Multiset.mset (ie_errors b)) (validate ord v m) (validate id v m)
    \<and> (\<forall>ks ks'. Multiset.mset ks = Multiset.mset ks' \<longrightarrow>
         extraConfigWarnings (\<lambda>_. Some ks) e = extraConfigWarnings (\<lambda>_. Some ks') e)"
proof (intro conjI allI impI)
  have set: "set (ord (specImages m)) = set (specImages m)" using assms by (rule mset_eq_setD)
  show "validate ord v m = None \<longleftrightarrow>
      (\<forall>(path, img)\<in>set (specImages m). imageAllowed img (allowedImageRegistries v)) \<and> issuerErrors v m = []"
    by (auto simp: validate_def invalidOr_def set filter_empty_conv)
  let ?errs = "\<lambda>xs. map (\<lambda>(path, img). imageError path img)
     (filter (\<lambda>(path, img). \<not> imageAllowed img (allowedImageRegistries v)) xs) @ issuerErrors v m"
  have errs: "Multiset.mset (?errs (ord (specImages m))) = Multiset.mset (?errs (specImages m))"
    using assms by simp
  then have "length (?errs (ord (specImages m))) = length (?errs (specImages m))" by (rule mset_eq_length)
  with errs show "rel_option (\<lambda>a b. Multiset.mset (ie_errors a) = Multiset.mset (ie_errors b)) (validate ord v m) (validate id v m)"
    unfolding validate_def invalidOr_def id_apply by (simp split del: if_split) simp
  show "extraConfigWarnings (\<lambda>_. Some ks) e = extraConfigWarnings (\<lambda>_. Some ks') e" if "Multiset.mset ks = Multiset.mset ks'" for ks ks'
  proof -
    have "sort (filter P ks) = sort (filter P ks')" for P
      by (rule properties_for_sort) (use that in simp_all)
    then show ?thesis by (simp add: extraConfigWarnings_def)
  qed
qed

end
