(* ===== verification/Hardening.thy ===== *)
theory Hardening
  imports Gates Webhook
begin

section \<open>What the operator runs: restricted Pods, vetted images\<close>

text \<open>
  Every Deployment, StatefulSet and Job that a reconcile stores is well-formed and confined
  (\<open>podOk\<close>), and each of its containers runs an image that satisfies a predicate \<open>V\<close>. With
  \<open>V\<close> the verdict of the admission webhook this joins the two programs: what the webhook
  let through is all that ever runs.
\<close>

definition runsOnly :: "(string \<Rightarrow> bool) \<Rightarrow> string list \<Rightarrow> podSpec \<Rightarrow> bool" where
  "runsOnly V claims pod \<longleftrightarrow> podOk claims pod \<and>
     (\<forall>c\<in>set (ps_initContainers pod) \<union> set (ps_containers pod). V (c_image c))"

definition workloadOk :: "(string \<Rightarrow> bool) \<Rightarrow> kobj \<Rightarrow> bool" where
  "workloadOk V x \<longleftrightarrow>
     (ko_kind x = KDeployment \<longrightarrow> (\<exists>d. ko_body x = BDeployment d \<and> runsOnly V [] (dep_pod d))) \<and>
     (ko_kind x = KStatefulSet \<longrightarrow>
        (\<exists>s. ko_body x = BStatefulSet s \<and> runsOnly V (map vc_name (sts_volumeClaims s)) (sts_pod s))) \<and>
     (ko_kind x = KJob \<longrightarrow> (\<exists>j. ko_body x = BJob j \<and> runsOnly V [] (job_pod j)))"

definition hardened :: "(string \<Rightarrow> bool) \<Rightarrow> req \<Rightarrow> bool" where
  "hardened V q \<longleftrightarrow> (\<forall>x. q = QStore x \<or> q = QCreate x \<or> q = QApply x \<longrightarrow> workloadOk V x)"

subsection \<open>Rules\<close>

lemma hardened_simps [simp]:
  "hardened V (QStore x) = workloadOk V x" "hardened V (QCreate x) = workloadOk V x" "hardened V (QApply x) = workloadOk V x"
  "hardened V (QUpdate x)" "hardened V (QDelete k ns n pol)" "hardened V (QStatusUpdate x)" "writes q = None \<Longrightarrow> hardened V q"
  by (auto simp: hardened_def)

lemma workloadOk_other: "ko_kind x \<notin> {KDeployment, KStatefulSet, KJob} \<Longrightarrow> workloadOk V x"
  by (simp add: workloadOk_def)

lemma hardened_within:
  assumes "calls (within m F) c" "\<And>n. \<not> F KDeployment n \<and> \<not> F KStatefulSet n \<and> \<not> F KJob n"
  shows "calls (hardened V) c"
proof (rule calls_mono [OF assms(1)])
  have other: "workloadOk V x" if "F (ko_kind x) (kname x)" for x
    by (rule workloadOk_other) (use assms(2) [of "kname x"] that in auto)
  show "hardened V q" if "within m F q" for q
    using that by (auto simp: hardened_def within_def intro: other)
qed

lemma workloadOk_owned:
  "stable_owner L \<Longrightarrow> l_setControllerReference L m x = Inr y \<Longrightarrow> workloadOk V y = workloadOk V x"
  using stable_ownerD(1,4) [of L m x y] by (simp add: workloadOk_def)

lemma applyObj_hardened:
  assumes "stable_owner L" "\<And>s. atKey (ko_kind obj) (knamespace obj) (kname obj) s \<Longrightarrow> calls (hardened V) (mutate s)"
    and "\<And>s t new. atKey (ko_kind obj) (knamespace obj) (kname obj) s \<Longrightarrow> runs (mutate s) t (Inr new) \<Longrightarrow> workloadOk V new"
  shows "calls (hardened V) (applyObj L m obj mutate)"
  by (rule applyObj_calls) (use assms workloadOk_owned [OF assms(1)] in auto)

lemma createOwned_hardened:
  "stable_owner L \<Longrightarrow> workloadOk V x \<Longrightarrow> calls (hardened V) (createOwned L m x)"
  by (rule createOwned_calls) (simp add: workloadOk_owned)

lemma set_kinds [simp]:
  "ko_kind (setService m c ps x) = ko_kind x" "ko_kind (redisService m i x) = ko_kind x"
  "ko_kind (setStatefulSet m c n an pod claims x) = ko_kind x"
  by (simp_all add: setService_def redisService_def setStatefulSet_def Let_def)

lemma deployment_ok:
  "ko_kind s = KDeployment \<Longrightarrow> workloadOk V (setDeployment m c r pod an s) \<longleftrightarrow> runsOnly V [] pod"
  by (simp add: workloadOk_def) (simp add: setDeployment_def Let_def)

lemma statefulSet_ok:
  "ko_kind s = KStatefulSet \<Longrightarrow> workloadOk V (setStatefulSet m c n an pod claims s) \<longleftrightarrow> runsOnly V (map vc_name claims) pod"
  by (simp add: workloadOk_def) (simp add: setStatefulSet_def)

lemma job_ok: "workloadOk V (newJob m n l a pod) \<longleftrightarrow> runsOnly V [] pod"
  by (simp add: workloadOk_def newJob_def)

lemma applyStatefulSet_hardened:
  assumes "stable_owner L" "ko_kind obj = KStatefulSet"
    and reads: "\<And>s. calls readOnly (mutate s)"
    and kind: "\<And>s t new. ko_kind s = KStatefulSet \<Longrightarrow> runs (mutate s) t (Inr new) \<Longrightarrow> ko_kind new = KStatefulSet"
    and good: "\<And>s t new. ko_kind s = KStatefulSet \<Longrightarrow> runs (mutate s) t (Inr new) \<Longrightarrow> workloadOk V new"
  shows "calls (hardened V) (applyStatefulSet L m obj mutate)"
  unfolding applyStatefulSet_def Let_def
proof (rule calls_chk_runs)
  have quiet: "calls (hardened V) (mutate s)" for s by (rule calls_mono [OF reads]) (simp add: readOnly_writes)
  then show "calls (hardened V) (mutate obj)" .
  fix t sts
  assume "runs (mutate obj) t (Inr sts)"
  then have "ko_kind sts = KStatefulSet" by (rule kind [OF assms(2)])
  then have "calls (hardened V) (applyObj L m sts mutate)"
    by (intro applyObj_hardened [OF assms(1)] quiet good) (auto simp: atKey_def)
  then show "calls (hardened V) (bnd (kget KStatefulSet (knamespace sts) (kname sts)) (\<lambda>r. case r of
        Inl e \<Rightarrow> if isNotFound e then applyObj L m sts mutate else Ret (Inl e)
      | Inr existing \<Rightarrow>
          if om_deletionTimestamp (ko_meta existing) \<noteq> None then Ret (Inl (stillTerminating (kname sts)))
          else chk (if volumeClaimTemplatesChanged (sts_volumeClaims (statefulSetOf existing)) (sts_volumeClaims (statefulSetOf sts))
                    then recreateStatefulSet L m sts existing (sts_volumeClaims (statefulSetOf sts)) else Ret (Inr ())) (\<lambda>_.
                 applyObj L m sts mutate)))"
    by (intro struct_intros recreate_calls) auto
qed

subsection \<open>The Pods of each component\<close>

definition vets :: "(string \<Rightarrow> bool) \<Rightarrow> misskey \<Rightarrow> bool" where
  "vets V m \<longleftrightarrow> V (image (spec m)) \<and> V ''ghcr.io/cloudnative-pg/postgresql:17'' \<and>
     V (stringOr (px_image (proxy (spec m))) ''caddy:2'') \<and>
     V (stringOr (rd_image (redis (spec m))) ''redis:8-alpine'') \<and>
     V (stringOr (mo_redisExporterImage (monitoring (spec m))) ''oliver006/redis_exporter:v1.62.0-alpine'') \<and>
     V (stringOr (ms_image (se_meilisearch (search (spec m)))) ''getmeili/meilisearch:v1'') \<and>
     (\<forall>os. objectStorage (spec m) = Some os \<longrightarrow> V (stringOr (os_image os) ''ghcr.io/cloudnative-pg/postgresql:17'')) \<and>
     (\<forall>d. sensitiveDetector (spec m) = Some d \<longrightarrow>
        (sd_external d = None \<longrightarrow> V (stringOr (sd_image d) ''ghcr.io/misskey-dev/sensitive-detector:0.0.2'')) \<and>
        V (stringOr (sd_configJobImage d) ''ghcr.io/cloudnative-pg/postgresql:17''))"

lemma nonRoot_ex [simp]: "\<exists>uid. nonRootPodSecurityContext a = nonRootPodSecurityContext uid"
  by blast

lemma misskey_pod: "V (image (spec m)) \<Longrightarrow> runsOnly V [] (buildMisskeyPodSpec L m p role co)"
  using buildMisskeyPodSpec_ok
  by (auto simp: runsOnly_def buildMisskeyPodSpec_def misskeyInitContainers_def misskeyMainContainer_def zeroContainer_def Let_def
      split: if_splits)

lemma migration_pod: "V (image (spec m)) \<Longrightarrow> workloadOk V (buildMigrationJob L m p an)"
  unfolding buildMigrationJob_def Let_def job_ok runsOnly_def podOk_def
  using misskey_init_ok misskey_volumes_distinct
  by (auto simp: zeroPodSpec_def misskeyInitContainers_def containerOk_def zeroContainer_def misskeyConfigMounts_def
      misskeyVolumes_def pod_ok_defs Let_def split: if_splits)

lemma psql_pod: "V img \<Longrightarrow> runsOnly V [] (psqlPod L m n img f cm env)"
  by (simp add: runsOnly_def psqlPod_def pod_ok_defs)

lemma caddy_pod: "V (stringOr (px_image (proxy (spec m))) ''caddy:2'') \<Longrightarrow> runsOnly V [] (buildCaddyPodSpec L m html)"
  by (simp add: runsOnly_def buildCaddyPodSpec_def caddyVolumes_def caddyMounts_def pod_ok_defs Let_def)

lemma meili_pod:
  "V (stringOr (ms_image (se_meilisearch (search (spec m)))) ''getmeili/meilisearch:v1'') \<Longrightarrow>
     runsOnly V [''data''] (buildMeiliPodSpec L m p)"
  by (simp add: runsOnly_def buildMeiliPodSpec_def pod_ok_defs Let_def)

lemma redis_pod:
  "V (ri_image i) \<Longrightarrow> V (stringOr (mo_redisExporterImage (monitoring (spec m))) ''oliver006/redis_exporter:v1.62.0-alpine'') \<Longrightarrow>
     runsOnly V [''data''] (buildRedisPodSpec L m i)"
  by (simp add: runsOnly_def buildRedisPodSpec_def redisExporterContainer_def pod_ok_defs)

lemma detector_pod:
  "sensitiveDetector (spec m) = Some d \<Longrightarrow> V (stringOr (sd_image d) ''ghcr.io/misskey-dev/sensitive-detector:0.0.2'') \<Longrightarrow>
     runsOnly V [] (buildSensitiveDetectorPodSpec L m p)"
  by (simp add: runsOnly_def buildSensitiveDetectorPodSpec_def pod_ok_defs)

subsection \<open>The reconcilers\<close>

lemma pdb_hardened: "stable_owner L \<Longrightarrow> calls (hardened V) (reconcilePDB L m c)"
  by (rule hardened_within [OF reconcilePDB_within [of _ "\<lambda>k n. k = KPodDisruptionBudget"]]) auto

lemma workloads_hardened:
  assumes "stable_owner L" "V (image (spec m))"
  shows "calls (hardened V) (reconcileApp L m p)" "calls (hardened V) (reconcileWorker L m p)"
  unfolding reconcileApp_def reconcileWorker_def Let_def
  by (intro struct_intros applyObj_hardened [OF assms(1)] pdb_hardened [OF assms(1)] misskeyChecksum_calls
      hardened_within [OF autoscaler_within [OF assms(1)]];
      auto simp: autoscalerKinds_def runs_chk_Inr atKey_def deployment_ok intro!: misskey_pod assms(2))+

lemma proxy_hardened:
  assumes "stable_owner L" "V (stringOr (px_image (proxy (spec m))) ''caddy:2'')"
  shows "calls (hardened V) (reconcileProxy L m)"
  unfolding reconcileProxy_def deleteProxyResources_def deleteLegacyMaintenanceWorkload_def deleteMaintenanceHTMLConfigMap_def Let_def
  by (intro struct_intros applyObj_hardened [OF assms(1)] pdb_hardened [OF assms(1)] deleteIfExists_calls)
     (auto simp: atKey_def deployment_ok workloadOk_other intro!: caddy_pod assms(2))

lemma detector_hardened:
  assumes "stable_owner L" and "\<And>d. sensitiveDetector (spec m) = Some d \<Longrightarrow> sensitiveDetectorManaged p \<Longrightarrow>
      V (stringOr (sd_image d) ''ghcr.io/misskey-dev/sensitive-detector:0.0.2'')"
  shows "calls (hardened V) (reconcileSensitiveDetector L m p)"
  unfolding reconcileSensitiveDetector_def Let_def
  by (intro struct_intros applyObj_hardened [OF assms(1)] pdb_hardened [OF assms(1)] secretVersion_calls)
     (auto simp: atKey_def deployment_ok runs_chk_Inr workloadOk_other intro!: detector_pod assms(2))

lemma migration_hardened:
  assumes "stable_owner L" "V (image (spec m))"
  shows "calls (hardened V) (reconcileMigration L m p)"
  unfolding reconcileMigration_def migrationJobStep_def migrationJobAbsent_def migrationJobFound_def Let_def
  by (intro struct_intros cleanupOldMigrationJobs_calls createOwned_hardened [OF assms(1)] deleteBackground_calls
      migrationChecksum_calls migration_pod assms(2)) auto

lemma objectStorage_hardened:
  assumes "stable_owner L" "V (objImage p)"
  shows "calls (hardened V) (reconcileObjectStorage L m p)"
  unfolding reconcileObjectStorage_def objectStorageApply_def objectStorageJobAbsent_def objectStorageJobFound_def Let_def
  by (intro struct_intros cleanupObjectStorageJobs_calls createOwned_hardened [OF assms(1)] applyObj_hardened [OF assms(1)] objectStorageHash_calls)
     (auto simp: buildObjectStorageJob_def job_ok atKey_def workloadOk_other intro!: psql_pod assms(2))

lemma detectorConfig_hardened:
  assumes "stable_owner L" "V (sensitiveDetectorConfigImage p) \<or> sensitiveDetectorConfigImage p = []"
    "V ''ghcr.io/cloudnative-pg/postgresql:17''"
  shows "calls (hardened V) (reconcileSensitiveDetectorConfig L m p st)"
  unfolding reconcileSensitiveDetectorConfig_def readSensitiveDetectorConfigState_def hasSensitiveDetectorConfigState_def
    detectorConfigPrepare_def detectorConfigJob_def detectorJobAbsent_def detectorJobFound_def Let_def
  by (intro struct_intros cleanupSensitiveDetectorConfigJobs_calls sensitiveDetectorConfigHash_calls
      createOwned_hardened [OF assms(1)] applyObj_hardened [OF assms(1)])
     (use assms(2,3) in \<open>auto simp: buildSensitiveDetectorConfigJob_def job_ok atKey_def workloadOk_other intro!: psql_pod\<close>)

lemma meili_hardened:
  assumes "stable_owner L" "V (stringOr (ms_image (se_meilisearch (search (spec m)))) ''getmeili/meilisearch:v1'')"
  shows "calls (hardened V) (reconcileMeilisearch L m p)"
  unfolding reconcileMeilisearch_def
  by (intro struct_intros applyObj_hardened [OF assms(1)] applyStatefulSet_hardened [OF assms(1)] meili_volumes.reads)
     (auto simp: atKey_def meiliMutate_def runs_chk_Inr Let_def statefulSet_ok dataClaim_def workloadOk_other
       intro!: meili_pod assms(2))

lemma instance_image [simp]:
  "ri_image (buildManagedInstance L m s r h) = stringOr (rd_image (redis (spec m))) ''redis:8-alpine''"
  by (simp add: buildManagedInstance_def overrideRole_def enableHA_def Let_def split: option.split)

lemma redis_images:
  assumes "i \<in> set (managedRedisInstances L m)"
  shows "ri_image i = stringOr (rd_image (redis (spec m))) ''redis:8-alpine''"
proof -
  have "ri_image j = stringOr (rd_image (redis (spec m))) ''redis:8-alpine''" if "roleInstance L m roles rd = Some j" for roles rd j
    using that by (auto simp: roleInstance_def split: option.splits if_splits)
  with assms show ?thesis
    unfolding managedRedisInstances_def Let_def by (auto simp: set_map_filter_iff split: if_splits option.splits)
qed

lemma standalone_hardened:
  assumes "stable_owner L" "V (ri_image i)"
    "V (stringOr (mo_redisExporterImage (monitoring (spec m))) ''oliver006/redis_exporter:v1.62.0-alpine'')"
  shows "calls (hardened V) (reconcileRedisStandalone L m i)"
  unfolding reconcileRedisStandalone_def Let_def
  by (intro struct_intros applyObj_hardened [OF assms(1)] deleteIfExists_calls applyStatefulSet_hardened [OF assms(1)] redis_volumes.reads)
     (auto simp: atKey_def redisMutate_def runs_chk_Inr statefulSet_ok dataClaim_def workloadOk_other intro!: redis_pod assms)

lemma redis_hardened:
  assumes "stable_owner L" "vets V m"
  shows "calls (hardened V) (reconcileRedis L m)"
proof -
  have other: "workloadOk V x" if "l_setControllerReference L m y = Inr x" "ko_kind y \<notin> {KDeployment, KStatefulSet, KJob}" for x y
    using workloadOk_owned [OF assms(1) that(1)] workloadOk_other [OF that(2)] by simp
  have inst: "calls (hardened V) (reconcileRedisStandalone L m i)" if "i \<in> set (managedRedisInstances L m)" for i
    by (rule standalone_hardened) (use assms redis_images [OF that] in \<open>auto simp: vets_def\<close>)
  show ?thesis
    unfolding reconcileRedis_def reconcileRedisInstance_def cleanupRedisSuffix_def reconcileRedisHA_def
      reconcileRedisHANetworkPolicy_def deleteRedisStandalone_def deleteRedisHA_def deleteRedisHANetworkPolicy_def Let_def
    by (intro struct_intros hardened_within [OF secrets_within(3) [OF assms(1)]] applyObj_hardened [OF assms(1)] applySSA_calls
        deleteIfExists_calls inst)
       (auto simp: generatedSecret_def atKey_def workloadOk_other intro: other)
qed

subsection \<open>The whole reconcile\<close>

lemma detector_plan_frame:
  "sensitiveDetectorManaged (resolveSetup m p) = sensitiveDetectorManaged p" "sensitiveDetectorManaged (resolveIngress m p) = sensitiveDetectorManaged p"
  "sensitiveDetectorConfigImage (resolveSetup m p) = sensitiveDetectorConfigImage p"
  "sensitiveDetectorConfigImage (resolveIngress m p) = sensitiveDetectorConfigImage p"
  "objAutoConfigure (resolveSetup m p) = objAutoConfigure p" "objAutoConfigure (resolveIngress m p) = objAutoConfigure p"
  "objAutoConfigure (resolveDetector m p) = objAutoConfigure p"
  "objImage (resolveSetup m p) = objImage p" "objImage (resolveIngress m p) = objImage p" "objImage (resolveDetector m p) = objImage p"
  by (simp_all add: resolveSetup_def resolveIngress_def resolveDetector_def Let_def split: option.split)

lemma early_plan_frame:
  "sensitiveDetectorManaged (resolveObjectStorage m p) = sensitiveDetectorManaged p"
  "sensitiveDetectorConfigImage (resolveObjectStorage m p) = sensitiveDetectorConfigImage p"
  "sensitiveDetectorManaged (resolveSearch m p) = sensitiveDetectorManaged p" "sensitiveDetectorManaged (resolveRedis m p) = sensitiveDetectorManaged p"
  "sensitiveDetectorManaged (resolveDB m p) = sensitiveDetectorManaged p"
  "sensitiveDetectorConfigImage (resolveSearch m p) = sensitiveDetectorConfigImage p"
  "sensitiveDetectorConfigImage (resolveRedis m p) = sensitiveDetectorConfigImage p"
  "sensitiveDetectorConfigImage (resolveDB m p) = sensitiveDetectorConfigImage p"
  "objAutoConfigure (resolveSearch m p) = objAutoConfigure p" "objAutoConfigure (resolveRedis m p) = objAutoConfigure p"
  "objAutoConfigure (resolveDB m p) = objAutoConfigure p"
  by (simp_all add: resolveObjectStorage_def resolveSearch_def resolveRedis_def resolveDB_def Let_def split: option.split)

lemmas plan_frames = detector_plan_frame early_plan_frame

lemma zeroPlan_flags: "\<not> objAutoConfigure zeroPlan" "\<not> sensitiveDetectorManaged zeroPlan" "sensitiveDetectorConfigImage zeroPlan = []"
  by (simp_all add: zeroPlan_def)

lemma resolve_images:
  "objAutoConfigure (resolve m) \<Longrightarrow> \<exists>os. objectStorage (spec m) = Some os \<and>
     objImage (resolve m) = stringOr (os_image os) ''ghcr.io/cloudnative-pg/postgresql:17''"
  "sensitiveDetectorManaged (resolve m) \<Longrightarrow> sensitiveDetector (spec m) = Some d \<Longrightarrow> sd_external d = None"
  "sensitiveDetectorConfigImage (resolve m) = (case sensitiveDetector (spec m) of None \<Rightarrow> []
     | Some d \<Rightarrow> stringOr (sd_configJobImage d) ''ghcr.io/cloudnative-pg/postgresql:17'')"
proof -
  show "\<exists>os. objectStorage (spec m) = Some os \<and> objImage (resolve m) = stringOr (os_image os) ''ghcr.io/cloudnative-pg/postgresql:17''"
    if "objAutoConfigure (resolve m)"
    using that zeroPlan_flags by (cases "objectStorage (spec m)") (simp_all add: resolve_def plan_frames resolveObjectStorage_def)
  show "sd_external d = None" if "sensitiveDetectorManaged (resolve m)" "sensitiveDetector (spec m) = Some d"
    using that zeroPlan_flags by (cases "sd_external d") (simp_all add: resolve_def plan_frames resolveDetector_def)
  show "sensitiveDetectorConfigImage (resolve m) = (case sensitiveDetector (spec m) of None \<Rightarrow> []
     | Some d \<Rightarrow> stringOr (sd_configJobImage d) ''ghcr.io/cloudnative-pg/postgresql:17'')"
    using zeroPlan_flags by (simp add: resolve_def plan_frames resolveDetector_def Let_def split: option.split)
qed

abbreviation unhardened :: "(string \<Rightarrow> bool) \<Rightarrow> req \<times> resp \<Rightarrow> bool" where
  "unhardened V e \<equiv> \<not> hardened V (fst e)"

lemma hardened_guarded: "calls (hardened V) c \<Longrightarrow> guarded (unhardened V) G c"
  by (erule guarded_quiet) simp

lemma base_hardened:
  assumes "stable_owner L" "vets V m"
  shows "calls (hardened V) (reconcileBase L m (resolve m))"
  unfolding reconcileBase_def
  by (intro struct_intros detector_hardened [OF assms(1)] hardened_within [OF secrets_within(1) [OF assms(1)]]
      hardened_within [OF secrets_within(2) [OF assms(1)]] hardened_within [OF secrets_within(4) [OF assms(1)]]
      hardened_within [OF reconcileConfigMaps_within [OF assms(1)]] hardened_within [OF reconcileTenancy_within [OF assms(1)]]
      hardened_within [OF reconcilePostgres_within [OF assms(1)]] hardened_within [OF reconcilePoolers_within [OF assms(1)]]
      hardened_within [OF backupVerify_within [OF assms(1)]])
     (use assms(2) resolve_images(2) [of m] in \<open>auto simp: generatedSecret_def verifyWrites_def vets_def\<close>)

lemma services_hardened:
  assumes "stable_owner L" "vets V m"
  shows "calls (hardened V) (reconcileServices L m p)"
  unfolding reconcileServices_def cleanupObjectStorage_def
  by (intro struct_intros redis_hardened [OF assms] meili_hardened [OF assms(1)] hardened_within [OF appService_within [OF assms(1)]]
      cleanupObjectStorageJobs_calls deleteIfExists_calls)
     (use assms(2) in \<open>auto simp: vets_def\<close>)

lemma rollout_hardened:
  assumes own: "stable_owner L" "mnamespace m \<noteq> []" and vets: "vets V m"
    and plan: "objAutoConfigure p \<Longrightarrow> V (objImage p)" "V (sensitiveDetectorConfigImage p) \<or> sensitiveDetectorConfigImage p = []"
  shows "guarded (unhardened V) G (reconcileRollout L m p st d)"
proof -
  have img: "V (image (spec m))" "V ''ghcr.io/cloudnative-pg/postgresql:17''" using vets by (simp_all add: vets_def)
  have quiet: "calls noStore c \<Longrightarrow> guarded (unhardened V) G c" for c :: "'x io"
    by (erule guarded_quiet) (auto simp: hardened_def noStore_def)
  have mig: "calls (hardened V) (reconcileMigration L m p)" by (rule migration_hardened) (use own img in auto)
  have pre: "calls (hardened V) (reconcilePreMigrationBackup L m p)" by (rule hardened_within [OF preBackup_within [OF own]]) simp
  have obj: "objAutoConfigure p \<Longrightarrow> calls (hardened V) (reconcileObjectStorage L m p)"
    by (rule objectStorage_hardened) (use own plan in auto)
  have det: "calls (hardened V) (reconcileSensitiveDetectorConfig L m p st)"
    by (rule detectorConfig_hardened) (use own plan img in auto)
  have work: "calls (hardened V) (reconcileApp L m p)" "calls (hardened V) (reconcileWorker L m p)"
    by (rule workloads_hardened; use own img in simp)+
  show ?thesis
    unfolding reconcileRollout_def rolloutMigrated_def rolloutWorkloads_def
    by (intro guarded_if guarded_chkS guarded_bnd guarded_prod guarded_sum guarded_chk guarded_Ret quiet [OF suspend_quiet]
        quiet [OF reads_quiet(2)] quiet [OF reads_quiet(3)] hardened_guarded mig pre obj det work)
qed

lemma vets_status [simp]: "vets V (m\<lparr>status := s\<rparr>) = vets V m"
  by (simp add: vets_def)

lemma reconcileAll_hardened:
  assumes own: "stable_owner L" "mnamespace m0 \<noteq> []" and vets: "vets V m0" and run: "runs (reconcileAll L m0 st0) tr res"
  shows "\<forall>e\<in>set tr. hardened V (fst e)"
proof -
  have plan: "objAutoConfigure (resolve m0) \<Longrightarrow> V (objImage (resolve m0))"
    "V (sensitiveDetectorConfigImage (resolve m0)) \<or> sensitiveDetectorConfigImage (resolve m0) = []"
    using vets resolve_images(1,3) [of m0] by (auto simp: vets_def split: option.splits)
  have reads: "calls noStore c \<Longrightarrow> guarded (unhardened V) (\<lambda>_. False) c" for c :: "'x io"
    by (erule guarded_quiet) (auto simp: hardened_def noStore_def)
  have "guarded (unhardened V) (\<lambda>_. False) (reconcileAll L m0 st0)"
  proof (rule reconcileAll_frame)
    fix s st d
    let ?m = "m0\<lparr>status := s\<rparr>"
    have ns: "mnamespace ?m \<noteq> []" using own by simp
    show "guarded (unhardened V) (\<lambda>_. False) (reconcileBase L m0 (resolve m0))"
      by (rule hardened_guarded [OF base_hardened [OF own(1) vets]])
    show "guarded (unhardened V) (\<lambda>_. False) (reconcileServices L ?m (resolve m0))"
      by (rule hardened_guarded [OF services_hardened [OF own(1)]]) (simp add: vets)
    show "guarded (unhardened V) (\<lambda>_. False) (readSensitiveDetectorConfigState ?m st0)" by (rule reads [OF reads_quiet(4)])
    show "guarded (unhardened V) (\<lambda>_. False) (reconcileRollout L ?m (resolve m0) st d)"
      by (rule rollout_hardened [OF own(1) ns]) (use vets plan in auto)
    show "guarded (unhardened V) (\<lambda>_. False) (reconcileEdge L ?m (resolve m0))"
      unfolding reconcileEdge_def
      by (intro hardened_guarded struct_intros proxy_hardened [OF own(1)] hardened_within [OF reconcileIngress_within [OF own(1)]]
          hardened_within [OF reconcileMonitoring_within [OF own(1)]]) (use vets in \<open>auto simp: vets_def monitorKinds_def\<close>)
    show "guarded (unhardened V) (\<lambda>_. False) (finalizeSensitiveDetectorCleanup L ?m (resolve m0) d st)"
      unfolding finalizeSensitiveDetectorCleanup_def cleanupSensitiveDetector_def cleanupSensitiveDetectorConfigState_def
        sensitiveDetectorConverged_def
      by (intro hardened_guarded struct_intros misskeyWorkloadsConverged_calls hardened_within [OF cleanupSecret_within]
          cleanupSensitiveDetectorConfigJobs_calls deleteIfExists_calls) (auto simp: generatedSecret_def)
  qed
  from guardedD [OF this run] show ?thesis by (simp add: gated_never)
qed

subsection \<open>From admission to Pods\<close>

definition operatorImages :: "string list" where
  "operatorImages = [''ghcr.io/cloudnative-pg/postgresql:17'', ''caddy:2'', ''redis:8-alpine'',
     ''oliver006/redis_exporter:v1.62.0-alpine'', ''getmeili/meilisearch:v1'', ''ghcr.io/misskey-dev/sensitive-detector:0.0.2'']"

definition vetted :: "misskeyCustomValidator \<Rightarrow> string \<Rightarrow> bool" where
  "vetted v img \<longleftrightarrow> imageAllowed img (allowedImageRegistries v) \<or> img \<in> set operatorImages"

lemma addImage_vetted:
  assumes "\<forall>(path, img)\<in>set (addImage path img). imageAllowed img (allowedImageRegistries v)" "d \<in> set operatorImages"
  shows "vetted v (stringOr img d)"
  using assms by (auto simp: addImage_def vetted_def stringOr_def)

lemma admitted_vets:
  assumes all: "\<forall>(path, img)\<in>set (specImages m). imageAllowed img (allowedImageRegistries v)"
    and i: "imageAllowed i (allowedImageRegistries v)"
  shows "vets (vetted v) (m\<lparr>spec := (spec m)\<lparr>image := i\<rparr>\<rparr>)"
proof -
  have sub: "vetted v (stringOr img d)" if "set (addImage path img) \<subseteq> set (specImages m)" "d \<in> set operatorImages" for path img d
    by (rule addImage_vetted [of path]) (use that all in blast)+
  have ops: "''caddy:2'' \<in> set operatorImages" "''redis:8-alpine'' \<in> set operatorImages" "''getmeili/meilisearch:v1'' \<in> set operatorImages"
    "''oliver006/redis_exporter:v1.62.0-alpine'' \<in> set operatorImages" "''ghcr.io/cloudnative-pg/postgresql:17'' \<in> set operatorImages"
    "''ghcr.io/misskey-dev/sensitive-detector:0.0.2'' \<in> set operatorImages" by (simp_all add: operatorImages_def)
  have "vetted v (stringOr (px_image (proxy (spec m))) ''caddy:2'')"
    by (rule sub [of "''spec.proxy.image''"]) (auto simp: specImages_def Let_def ops)
  moreover have "vetted v (stringOr (rd_image (redis (spec m))) ''redis:8-alpine'')"
    by (rule sub [of "''spec.redis.image''"]) (auto simp: specImages_def Let_def ops)
  moreover have "vetted v (stringOr (mo_redisExporterImage (monitoring (spec m))) ''oliver006/redis_exporter:v1.62.0-alpine'')"
    by (rule sub [of "''spec.monitoring.redisExporterImage''"]) (auto simp: specImages_def Let_def ops)
  moreover have "vetted v (stringOr (ms_image (se_meilisearch (search (spec m)))) ''getmeili/meilisearch:v1'')"
    by (rule sub [of "''spec.search.meilisearch.image''"]) (auto simp: specImages_def Let_def ops)
  moreover have "vetted v (stringOr (os_image os) ''ghcr.io/cloudnative-pg/postgresql:17'')" if "objectStorage (spec m) = Some os" for os
    by (rule sub [of "''spec.objectStorage.image''"]) (use that in \<open>auto simp: specImages_def Let_def ops\<close>)
  moreover have "vetted v (stringOr (sd_configJobImage d) ''ghcr.io/cloudnative-pg/postgresql:17'')" if "sensitiveDetector (spec m) = Some d" for d
    by (rule sub [of "''spec.sensitiveDetector.configJobImage''"]) (use that in \<open>auto simp: specImages_def Let_def ops\<close>)
  moreover have "vetted v (stringOr (sd_image d) ''ghcr.io/misskey-dev/sensitive-detector:0.0.2'')"
    if "sensitiveDetector (spec m) = Some d" "sd_external d = None" for d
    by (rule sub [of "''spec.sensitiveDetector.image''"]) (use that in \<open>auto simp: specImages_def Let_def ops\<close>)
  ultimately show ?thesis using i ops by (simp add: vets_def) (simp add: vetted_def)
qed

text \<open>
  C2: what the webhook let through is all that ever runs. For a Misskey that the validator
  admitted, with its own image or one that passed the channel's validator, every Deployment,
  StatefulSet and Job a reconcile stores has a restricted Pod (no token, non-root, no
  capabilities, mounts backed by volumes), and every container in it runs an image that starts
  with an allowed registry or is one of the operator's own defaults.
\<close>
theorem only_vetted_images_run:
  assumes adm: "validate ord v m = None" "Multiset.mset (ord (specImages m)) = Multiset.mset (specImages m)"
    and chan: "channelValidate (allowedImageRegistries v) c = None" "i \<in> {image (spec m), ch_image (ch_spec c)}"
    and own: "stable_owner L" "mnamespace m \<noteq> []"
    and run: "runs (reconcileAll L (m\<lparr>spec := (spec m)\<lparr>image := i\<rparr>\<rparr>) st) tr res"
    and x: "(q, r) \<in> set tr" "q \<in> {QStore x, QCreate x, QApply x}"
  shows "(ko_kind x = KDeployment \<longrightarrow> (\<exists>d. ko_body x = BDeployment d \<and> runsOnly (vetted v) [] (dep_pod d)))
    \<and> (ko_kind x = KStatefulSet \<longrightarrow>
        (\<exists>s. ko_body x = BStatefulSet s \<and> runsOnly (vetted v) (map vc_name (sts_volumeClaims s)) (sts_pod s)))
    \<and> (ko_kind x = KJob \<longrightarrow> (\<exists>j. ko_body x = BJob j \<and> runsOnly (vetted v) [] (job_pod j)))"
proof -
  have "set (ord (specImages m)) = set (specImages m)" using adm(2) by (rule mset_eq_setD)
  with adm(1) have all: "\<forall>(path, img)\<in>set (specImages m). imageAllowed img (allowedImageRegistries v)"
    by (auto simp: validate_def invalidOr_def filter_empty_conv split: if_splits)
  have "imageAllowed (image (spec m)) (allowedImageRegistries v)"
    using all by (auto simp: specImages_def addImage_def imageAllowed_def Let_def split: if_splits)
  moreover have "imageAllowed (ch_image (ch_spec c)) (allowedImageRegistries v)"
    using chan(1) by (auto simp: channelValidate_def invalidOr_def split: if_splits)
  ultimately have "vets (vetted v) (m\<lparr>spec := (spec m)\<lparr>image := i\<rparr>\<rparr>)" using chan(2) by (intro admitted_vets all) auto
  from reconcileAll_hardened [OF own(1) _ this run] own(2) have "\<forall>e\<in>set tr. hardened (vetted v) (fst e)" by simp
  with x have "workloadOk (vetted v) x" by (force simp: hardened_def)
  then show ?thesis by (simp add: workloadOk_def)
qed

end
