(* ===== verification/Safekeeping.thy ===== *)
theory Safekeeping
  imports Redis Postgres
begin

section \<open>Data that must survive: credentials, volumes, the database\<close>

text \<open>
  What the contracts of \<open>Secrets\<close> and \<open>Stateful\<close> give for the operator's own reconcilers, and
  the agreement between the database the operator provisions and the one app and worker are
  told to use.
\<close>

subsection \<open>Generated credentials\<close>

definition generatedCredentials :: "libs \<Rightarrow> misskey \<Rightarrow> ((error + unit) io \<times> string \<times> string \<times> nat) set" where
  "generatedCredentials L m =
     {(reconcileSetupSecret L m, nameSetup m, setupPasswordID, 16),
      (reconcileMeiliSecret L m, nameMeili m, meiliMasterKeyID, 32),
      (reconcileRedisAuthSecret L m, nameRedisAuthSecret m, ''password'', 24),
      (reconcileSensitiveDetectorSecret L m, nameSensitiveDetector m, sensitiveDetectorAPIKeyID, 32)}"

text \<open>
  C12: a generated credential is kept until it is asked to change. Whichever of the four Secrets
  is reconciled and whatever the server hands out, the Secret that is stored carries the
  credential that was read, unless there was none or a rotation was requested; then it carries
  fresh random bytes of the right length. All other keys of the Secret are left as they were.
\<close>
theorem credentials_kept_or_drawn:
  assumes c: "(c, name, keyID, n) \<in> generatedCredentials L m" and own: "stable_owner L"
    and run: "runs c tr res" and st: "(QStore x, r) \<in> set tr"
  shows "kname x = name \<and> (\<exists>s. (QFetch (newObj KSecret (mnamespace m) name), RObj s) \<in> set tr \<and>
    (if credential keyID s = None \<or> rotationRequested m s
     then \<exists>buf. (QRandom n, RStr buf) \<in> set tr \<and> credential keyID x = Some (hexEncode buf)
     else credential keyID x = credential keyID s) \<and>
    (\<forall>k. k \<noteq> keyID \<longrightarrow> credential k x = credential k s))"
proof -
  let ?ok = "\<exists>s. (QFetch (newObj KSecret (mnamespace m) name), RObj s) \<in> set tr \<and> lawful_credential keyID n m tr s x \<and>
      kname x = kname (newObj KSecret (mnamespace m) name) \<and> (\<forall>k. k \<noteq> keyID \<longrightarrow> credential k x = credential k s)"
  from c consider "c = reconcileSetupSecret L m" "name = nameSetup m" "keyID = setupPasswordID" "n = 16"
    | "c = reconcileMeiliSecret L m" "name = nameMeili m" "keyID = meiliMasterKeyID" "n = 32"
    | "c = reconcileRedisAuthSecret L m" "name = nameRedisAuthSecret m" "keyID = ''password''" "n = 24"
    | "c = reconcileSensitiveDetectorSecret L m" "name = nameSensitiveDetector m" "keyID = sensitiveDetectorAPIKeyID" "n = 32"
    unfolding generatedCredentials_def by blast
  then have ?ok
  proof cases
    case 1
    then show ?thesis using run st setup_secret.stored [OF own] unfolding reconcileSetupSecret_def by blast
  next
    case 2
    then have "runs (applyObj L m (newObj KSecret (mnamespace m) (nameMeili m)) (meiliSecretMutate m)) tr res"
      using run st unfolding reconcileMeiliSecret_def by (auto split: if_splits)
    with 2 st meili_secret.stored [OF own] show ?thesis by blast
  next
    case 3
    then show ?thesis using run st redis_secret.stored [OF own] unfolding reconcileRedisAuthSecret_def by blast
  next
    case 4
    then have "runs (applyObj L m (newObj KSecret (mnamespace m) (nameSensitiveDetector m)) (detectorSecretMutate m)) tr res"
      using run st unfolding reconcileSensitiveDetectorSecret_def by (auto split: if_splits option.splits)
    with 4 st detector_secret.stored [OF own] show ?thesis by blast
  qed
  then obtain s where "(QFetch (newObj KSecret (mnamespace m) name), RObj s) \<in> set tr" "lawful_credential keyID n m tr s x"
    "kname x = name" "\<forall>k. k \<noteq> keyID \<longrightarrow> credential k x = credential k s" by auto
  then show ?thesis unfolding lawful_credential_def by blast
qed

subsection \<open>Volumes\<close>

definition statefulClients :: "libs \<Rightarrow> misskey \<Rightarrow> plan \<Rightarrow> ((error + unit) io \<times> string) set" where
  "statefulClients L m p = insert (reconcileMeilisearch L m p, nameMeili m)
     ((\<lambda>i. (reconcileRedisStandalone L m i, nameRedisInstance m (ri_suffix i))) ` UNIV)"

text \<open>The part of a client that touches volumes is its StatefulSet.\<close>

lemma meili_part:
  assumes "runs (reconcileMeilisearch L m p) tr res" "e \<in> set tr" "\<not> noVolumeWrite (fst e)"
  obtains t where "set t \<subseteq> set tr" "e \<in> set t"
    "runs (applyStatefulSet L m (newObj KStatefulSet (mnamespace m) (nameMeili m)) (meiliMutate L m p)) t res"
proof -
  have "calls noVolumeWrite (applyObj L m (newObj KService (mnamespace m) (nameMeili m)) (\<lambda>svc.
      ret (setService m ''meilisearch'' [servicePortTo ''http'' meiliPort meiliPort] svc)))"
    by (rule applyObj_calls) (auto simp: noVolumeWrite_def intro!: struct_intros)
  from calls_runs [OF this] assms(3)
  have out: "e \<notin> set t" if "runs (applyObj L m (newObj KService (mnamespace m) (nameMeili m)) (\<lambda>svc.
      ret (setService m ''meilisearch'' [servicePortTo ''http'' meiliPort meiliPort] svc))) t a" for t a
    using that by (metis prod.collapse)
  show thesis
    using assms(1,2) unfolding reconcileMeilisearch_def
    by (rule runs_chk_after) (use out that in auto)
qed

lemma redis_part:
  assumes "runs (reconcileRedisStandalone L m i) tr res" "e \<in> set tr" "\<not> noVolumeWrite (fst e)"
    and "\<forall>pol. fst e \<noteq> QDelete KNetworkPolicy (mnamespace m) (nameRedisInstance m (ri_suffix i)) pol"
  obtains t a where "set t \<subseteq> set tr" "e \<in> set t"
    "runs (applyStatefulSet L m (newObj KStatefulSet (mnamespace m) (nameRedisInstance m (ri_suffix i))) (redisMutate L m i)) t a"
proof -
  let ?svc = "applyObj L m (newObj KService (mnamespace m) (nameRedisInstance m (ri_suffix i))) (\<lambda>svc. ret (redisService m i svc))"
  have "calls noVolumeWrite ?svc" by (rule applyObj_calls) (auto simp: noVolumeWrite_def intro!: struct_intros)
  from calls_runs [OF this] assms(3) have out: "e \<notin> set t" if "runs ?svc t a" for t a
    using that by (metis prod.collapse)
  have del: "e \<notin> set t" if "runs (deleteIfExists KNetworkPolicy (mnamespace m) (nameRedisInstance m (ri_suffix i))) t a" for t a
    using calls_runs [OF deleteIfExists_calls [of "\<lambda>q. q = QDelete KNetworkPolicy (mnamespace m) (nameRedisInstance m (ri_suffix i)) PropagationDefault"] that]
      assms(4) by (metis prod.collapse)
  from assms(1,2) obtain t2 where t2: "set t2 \<subseteq> set tr" "e \<in> set t2"
    "runs (chk (applyStatefulSet L m (newObj KStatefulSet (mnamespace m) (nameRedisInstance m (ri_suffix i))) (redisMutate L m i)) (\<lambda>_.
      deleteIfExists KNetworkPolicy (mnamespace m) (nameRedisInstance m (ri_suffix i)))) t2 res"
    unfolding reconcileRedisStandalone_def Let_def by (rule runs_chk_after) (use out in auto)
  from t2(3,2) show thesis by (rule runs_chk_before) (use del t2(1) that in blast)+
qed

text \<open>
  \<open>volumesKept m name tr\<close>: every claim update in \<open>tr\<close> enlarges the claim just read; no claim is
  deleted, and a StatefulSet only the one called \<open>name\<close>, with its Pods and claims orphaned, after
  one was read whose templates differ from the desired ones.
\<close>

definition volumesKept :: "misskey \<Rightarrow> string \<Rightarrow> (req \<times> resp) list \<Rightarrow> bool" where
  "volumesKept m name tr \<longleftrightarrow>
     (\<forall>y r. (QUpdate y, r) \<in> set tr \<longrightarrow> (\<exists>pvc want. (QGet KPersistentVolumeClaim (mnamespace m) (kname y), RObj pvc) \<in> set tr \<and>
        y = grownClaim want pvc \<and> storageRequest (claimOf pvc) < want)) \<and>
     (\<forall>k ns n pol r. (QDelete k ns n pol, r) \<in> set tr \<longrightarrow> k \<noteq> KPersistentVolumeClaim \<and>
        (k = KStatefulSet \<longrightarrow> n = name \<and> pol = PropagationOrphan \<and>
          (\<exists>old desired. (QGet KStatefulSet (mnamespace m) name, RObj old) \<in> set tr \<and>
             volumeClaimTemplatesChanged (sts_volumeClaims (statefulSetOf old)) desired)))"

lemma meili_keeps:
  assumes run: "runs (reconcileMeilisearch L m p) tr res"
  shows "volumesKept m (nameMeili m) tr"
  unfolding volumesKept_def
proof (intro conjI allI impI)
  fix y r
  assume "(QUpdate y, r) \<in> set tr"
  with run obtain t where "set t \<subseteq> set tr" "(QUpdate y, r) \<in> set t"
    "runs (applyStatefulSet L m (newObj KStatefulSet (mnamespace m) (nameMeili m)) (meiliMutate L m p)) t res"
    by (rule meili_part) (simp add: noVolumeWrite_def)
  with meili_volumes.claim_update [of L m p t res y r]
  show "\<exists>pvc want. (QGet KPersistentVolumeClaim (mnamespace m) (kname y), RObj pvc) \<in> set tr \<and>
      y = grownClaim want pvc \<and> storageRequest (claimOf pvc) < want" by blast
next
  fix k ns n pol r
  assume "(QDelete k ns n pol, r) \<in> set tr"
  with run obtain t where t: "set t \<subseteq> set tr" "(QDelete k ns n pol, r) \<in> set t"
    "runs (applyStatefulSet L m (newObj KStatefulSet (mnamespace m) (nameMeili m)) (meiliMutate L m p)) t res"
    by (rule meili_part) (simp add: noVolumeWrite_def)
  note d = meili_volumes.set_delete [OF t(3,2)]
  then show "k \<noteq> KPersistentVolumeClaim" "n = nameMeili m" "pol = PropagationOrphan" by auto
  show "\<exists>old desired. (QGet KStatefulSet (mnamespace m) (nameMeili m), RObj old) \<in> set tr \<and>
      volumeClaimTemplatesChanged (sts_volumeClaims (statefulSetOf old)) desired" using d t(1) by blast
qed

lemma redis_keeps:
  assumes run: "runs (reconcileRedisStandalone L m i) tr res"
  shows "volumesKept m (nameRedisInstance m (ri_suffix i)) tr"
  unfolding volumesKept_def
proof (intro conjI allI impI)
  let ?sts = "applyStatefulSet L m (newObj KStatefulSet (mnamespace m) (nameRedisInstance m (ri_suffix i))) (redisMutate L m i)"
  fix y r
  assume "(QUpdate y, r) \<in> set tr"
  with run obtain t a where "set t \<subseteq> set tr" "(QUpdate y, r) \<in> set t" "runs ?sts t a"
    by (rule redis_part) (simp_all add: noVolumeWrite_def)
  with redis_volumes.claim_update [of L m i t a y r]
  show "\<exists>pvc want. (QGet KPersistentVolumeClaim (mnamespace m) (kname y), RObj pvc) \<in> set tr \<and>
      y = grownClaim want pvc \<and> storageRequest (claimOf pvc) < want" by blast
next
  let ?n = "nameRedisInstance m (ri_suffix i)"
  fix k ns n pol r
  assume e: "(QDelete k ns n pol, r) \<in> set tr"
  have part: "k = KStatefulSet \<and> n = ?n \<and> pol = PropagationOrphan \<and>
      (\<exists>old desired. (QGet KStatefulSet (mnamespace m) ?n, RObj old) \<in> set tr \<and>
         volumeClaimTemplatesChanged (sts_volumeClaims (statefulSetOf old)) desired)" if other: "k \<noteq> KNetworkPolicy"
  proof -
    from run e obtain t a where t: "set t \<subseteq> set tr" "(QDelete k ns n pol, r) \<in> set t"
      "runs (applyStatefulSet L m (newObj KStatefulSet (mnamespace m) ?n) (redisMutate L m i)) t a"
      by (rule redis_part) (use other in \<open>simp_all add: noVolumeWrite_def\<close>)
    from redis_volumes.set_delete [OF t(3,2)] t(1) show ?thesis by blast
  qed
  then show "k \<noteq> KPersistentVolumeClaim" by auto
  assume "k = KStatefulSet"
  with part show "n = ?n" "pol = PropagationOrphan"
    "\<exists>old desired. (QGet KStatefulSet (mnamespace m) ?n, RObj old) \<in> set tr \<and>
      volumeClaimTemplatesChanged (sts_volumeClaims (statefulSetOf old)) desired" by auto
qed


subsection \<open>The database\<close>

definition bootstrapField :: "kobj \<Rightarrow> string \<Rightarrow> string" where
  "bootstrapField x f = (case nestedString x [''spec'', ''bootstrap'', ''recovery'', f] of
     [] \<Rightarrow> nestedString x [''spec'', ''bootstrap'', ''initdb'', f] | s \<Rightarrow> s)"

lemma content_cnpg: "contentOf (cnpgObject m k n c fs) = JObj [(''spec'', JObj fs)]"
  by (simp add: contentOf_def cnpgObject_def)

lemma cluster_bootstrap:
  "bootstrapField (buildDBCluster L m) ''database'' = databaseOf m" "bootstrapField (buildDBCluster L m) ''owner'' = ownerOf m"
proof -
  have ne: "databaseOf m \<noteq> []" "ownerOf m \<noteq> []" by (simp_all add: databaseOf_def ownerOf_def stringOr_def)
  show "bootstrapField (buildDBCluster L m) ''database'' = databaseOf m" "bootstrapField (buildDBCluster L m) ''owner'' = ownerOf m"
    using ne unfolding bootstrapField_def buildDBCluster_def nestedString_def content_cnpg Let_def
    by (cases "pg_recovery (postgres (spec m))"; auto simp: clusterBase_def recoveryFields_def initdbFields_def importFields_def Let_def
        split: option.split list.split)+
qed

lemma applySSA_shows:
  assumes "runs (applySSA L m obj) tr (Inr ())" "stable_owner L"
  shows "\<exists>x. (QApply x, ROk) \<in> set tr \<and> ko_kind x = ko_kind obj \<and> kname x = kname obj \<and> knamespace x = knamespace obj \<and> ko_body x = ko_body obj"
proof -
  obtain x where x: "l_setControllerReference L m obj = Inr x" "(QApply x, ROk) \<in> set tr"
    using assms(1) unfolding applySSA_def by (cases "l_setControllerReference L m obj") (auto simp: kapply_def runs_Call_iff)
  with stable_ownerD [OF assms(2) x(1)] show ?thesis by blast
qed

definition appliedPooler :: "misskey \<Rightarrow> string \<Rightarrow> string \<Rightarrow> (req \<times> resp) list \<Rightarrow> bool" where
  "appliedPooler m name ty tr \<longleftrightarrow> (\<exists>x. (QApply x, ROk) \<in> set tr \<and> ko_kind x = KCnpgPooler \<and> knamespace x = mnamespace m \<and>
     kname x = name \<and> nestedString x [''spec'', ''type''] = ty \<and> nestedString x [''spec'', ''cluster'', ''name''] = nameDB m)"

lemma pooler_applied:
  assumes "runs (applySSA L m (buildPooler L m pc name ty)) t (Inr ())" "stable_owner L" "set t \<subseteq> set tr"
  shows "appliedPooler m name ty tr"
proof -
  obtain x where "(QApply x, ROk) \<in> set t" "ko_kind x = KCnpgPooler" "kname x = name" "knamespace x = mnamespace m"
    and b: "ko_body x = ko_body (buildPooler L m pc name ty)"
    using applySSA_shows [OF assms(1,2)] by (auto simp: buildPooler_def)
  moreover have "nestedString x p = nestedString (buildPooler L m pc name ty) p" for p
    using b by (simp add: nestedString_def contentOf_def)
  ultimately show ?thesis using assms(3) unfolding appliedPooler_def buildPooler_def nestedString_def content_cnpg by force
qed

text \<open>
  C14: app and worker are told to use the database that is there. After the database part of a
  successful reconcile of a managed database, the Cluster was applied with the database and
  the owner that the rendered configuration names; the host the configuration names for writing
  is the Cluster's own service, or a pooler of the writing kind for this Cluster that was just
  applied; and so is the host of every read replica, of the reading kind.
\<close>
theorem database_endpoints_provided:
  assumes run: "runs (chk (reconcilePostgres L m) (\<lambda>_. reconcilePoolers L m)) tr (Inr ())" and own: "stable_owner L"
    and managed: "pg_external (postgres (spec m)) = None"
  shows "(\<exists>x. (QApply x, ROk) \<in> set tr \<and> ko_kind x = KCnpgCluster \<and> knamespace x = mnamespace m \<and> kname x = nameDB m \<and>
      bootstrapField x ''database'' = dbName (resolve m) \<and> bootstrapField x ''owner'' = dbUser (resolve m))
    \<and> (dbHost (resolve m) = nameDBService m \<or> appliedPooler m (dbHost (resolve m)) ''rw'' tr)
    \<and> (\<forall>s\<in>set (dbSlaves (resolve m)). de_db s = dbName (resolve m) \<and> de_user s = dbUser (resolve m) \<and>
        (de_host s = nameDBReadService m \<or> appliedPooler m (de_host s) ''ro'' tr))"
proof -
  obtain t1 t2 where tr: "tr = t1 @ t2" and pg: "runs (reconcilePostgres L m) t1 (Inr ())" and po: "runs (reconcilePoolers L m) t2 (Inr ())"
    using run by (auto simp: runs_chk_Inr)
  obtain t3 t4 where t3: "runs (applySSA L m (buildDBCluster L m)) t3 (Inr ())" "t1 = t3 @ t4"
    using pg unfolding reconcilePostgres_def runs_chk_Inr by auto
  obtain x where x: "(QApply x, ROk) \<in> set t3" "ko_kind x = KCnpgCluster" "kname x = nameDB m" "knamespace x = mnamespace m"
    and b: "ko_body x = ko_body (buildDBCluster L m)"
    using applySSA_shows [OF t3(1) own] by (auto simp: buildDBCluster_def Let_def)
  have "nestedString x p = nestedString (buildDBCluster L m) p" for p
    using b by (simp add: nestedString_def contentOf_def)
  then have "bootstrapField x f = bootstrapField (buildDBCluster L m) f" for f
    by (simp only: bootstrapField_def)
  moreover have names: "dbName (resolve m) = databaseOf m" "dbUser (resolve m) = ownerOf m"
    using managed by (simp_all add: resolve_def resolveDB_def databaseOf_def ownerOf_def Let_def)
  ultimately have cluster: "\<exists>x. (QApply x, ROk) \<in> set tr \<and> ko_kind x = KCnpgCluster \<and> knamespace x = mnamespace m \<and> kname x = nameDB m \<and>
      bootstrapField x ''database'' = dbName (resolve m) \<and> bootstrapField x ''owner'' = dbUser (resolve m)"
    using x t3(2) tr cluster_bootstrap [of L m] by auto
  have poolers: "appliedPooler m (nameDBPoolerRW m) ''rw'' tr \<and> (readOffloadActive m \<longrightarrow> appliedPooler m (nameDBPoolerRO m) ''ro'' tr)"
    if some: "pg_pooler (postgres (spec m)) = Some pc" for pc
  proof -
    obtain t5 t6 where t: "t2 = t5 @ t6" and rw: "runs (applySSA L m (buildPooler L m pc (nameDBPoolerRW m) ''rw'')) t5 (Inr ())"
      and rest: "runs (if readOffloadActive m then applySSA L m (buildPooler L m pc (nameDBPoolerRO m) ''ro'')
            else deletePooler m (nameDBPoolerRO m)) t6 (Inr ())"
      using po unfolding reconcilePoolers_def some option.case runs_chk_Inr by auto
    have "set t5 \<subseteq> set tr" "set t6 \<subseteq> set tr" using t tr by auto
    with pooler_applied [OF rw own] pooler_applied [OF _ own, of m pc "nameDBPoolerRO m" "''ro''" t6] rest
    show ?thesis by (auto split: if_splits)
  qed
  have host: "dbHost (resolve m) = (if poolerEnabled m then nameDBPoolerRW m else nameDBService m)"
    and slaves: "dbSlaves (resolve m) = (if readOffloadActive m then [\<lparr>de_host = (if poolerEnabled m then nameDBPoolerRO m else nameDBReadService m),
                              de_port = postgresPort, de_db = databaseOf m, de_user = ownerOf m\<rparr>] else [])"
    using managed by (simp_all add: resolve_db resolveDB_def zeroPlan_def databaseOf_def ownerOf_def Let_def)
  show ?thesis using cluster poolers unfolding host slaves names by (auto simp: poolerEnabled_def)
qed

end
