(* ===== verification/Possible.thy ===== *)
theory Possible
  imports Witnesses Status Hardening Safekeeping
begin

section \<open>What can happen in a run\<close>

text \<open>
  The properties say what must not happen in any run. The other direction, that the parts can
  be completed, up to a whole reconcile, and that a certain request can occur, is derived here with two modalities over
  runs and rules that follow the code: \<open>able p\<close> says that some run of \<open>p\<close> succeeds, \<open>encounters E p\<close>
  that some run of \<open>p\<close> has an exchange \<open>E\<close>.
\<close>

definition able :: "(error + 'a) io \<Rightarrow> bool" where
  "able p \<longleftrightarrow> (\<exists>t a. runs p t (Inr a))"

definition encounters :: "(req \<times> resp \<Rightarrow> bool) \<Rightarrow> 'a io \<Rightarrow> bool" where
  "encounters E p \<longleftrightarrow> (\<exists>t a. runs p t a \<and> (\<exists>e\<in>set t. E e))"

lemma ableI: "runs p t (Inr a) \<Longrightarrow> able p"
  by (auto simp: able_def)

lemma able_ret: "able (Ret (Inr a))" "able (ret x)"
  by (auto simp: able_def ret_def intro: runs_Ret)

lemma able_Call: "able (k r) \<Longrightarrow> able (Call q k)"
  unfolding able_def by (blast intro: runs_Call)

lemma able_bnd: "runs p t a \<Longrightarrow> able (f a) \<Longrightarrow> able (bnd p f)"
  unfolding able_def by (auto simp: runs_bnd)

lemma runs_chkI: "runs p t (Inr a) \<Longrightarrow> runs (f a) t' b \<Longrightarrow> runs (chk p f) (t @ t') b"
  by (auto simp: runs_chk)

lemma able_chk: "able p \<Longrightarrow> (\<And>t a. runs p t (Inr a) \<Longrightarrow> able (f a)) \<Longrightarrow> able (chk p f)"
  unfolding able_def [of p] chk_def by (fastforce intro: able_bnd)

lemma able_whenE: "(b \<Longrightarrow> able p) \<Longrightarrow> able (whenE b p)"
  by (cases b) (auto intro: able_ret)

lemma able_forE: "(\<And>x. x \<in> set xs \<Longrightarrow> able (f x)) \<Longrightarrow> able (forE xs f)"
  by (induction xs) (auto intro!: able_ret able_chk)

lemma able_if: "(b \<Longrightarrow> able p) \<Longrightarrow> (\<not> b \<Longrightarrow> able q) \<Longrightarrow> able (if b then p else q)"
  by simp

lemma able_option: "(x = None \<Longrightarrow> able p) \<Longrightarrow> (\<And>a. x = Some a \<Longrightarrow> able (f a)) \<Longrightarrow> able (case x of None \<Rightarrow> p | Some a \<Rightarrow> f a)"
  by (cases x) simp_all

lemma encountersI: "runs p t a \<Longrightarrow> e \<in> set t \<Longrightarrow> E e \<Longrightarrow> encounters E p"
  by (auto simp: encounters_def)

lemma encounters_here: "encounters E p \<Longrightarrow> encounters E (bnd p f)"
  unfolding encounters_def by (auto simp: runs_bnd) (metis Un_iff runs_total set_append)

lemma encounters_later: "runs p t a \<Longrightarrow> encounters E (f a) \<Longrightarrow> encounters E (bnd p f)"
  unfolding encounters_def by (auto simp: runs_bnd) (metis Un_iff set_append)

lemma encounters_chk: "encounters E p \<Longrightarrow> encounters E (chk p f)"
  unfolding chk_def by (rule encounters_here)

lemma encounters_after: "able p \<Longrightarrow> (\<And>t a. runs p t (Inr a) \<Longrightarrow> encounters E (f a)) \<Longrightarrow> encounters E (chk p f)"
  unfolding able_def chk_def by (fastforce intro: encounters_later)

lemma encounters_chkS: "encounters E p \<Longrightarrow> encounters E (chkS s p f)"
  unfolding chkS_def by (rule encounters_here)

lemma encounters_afterS: "able p \<Longrightarrow> (\<And>t a. runs p t (Inr a) \<Longrightarrow> encounters E (f a)) \<Longrightarrow> encounters E (chkS s p f)"
  unfolding able_def chkS_def by (fastforce intro: encounters_later)

subsection \<open>The API helpers\<close>

lemma able_deleteIfExists: "able (deleteIfExists k ns n)"
  by (rule ableI [where t = "[(QDelete k ns n PropagationDefault, ROk)]" and a = "()"])
    (simp add: runs_deleteIfExists gone_def)

lemma able_applySSA: "able (applySSA refLibs m x)"
  by (rule ableI [where a = "()"]) (auto simp: applySSA_def refSetOwner_def kapply_def runs_Call_iff asUnit_def intro!: exI [of _ ROk])

lemma applyObj_run:
  assumes "runs (mutate x) t (Inr new)" "l_setControllerReference L m new = Inr y"
  shows "runs (applyObj L m x mutate) ((QFetch x, RObj x) # t @ [(QStore y, ROk)]) (Inr ())"
proof -
  have fetch: "runs (kfetch x) [(QFetch x, RObj x)] (Inr x)"
    by (simp add: kfetch_def runs_Call_iff atKey_def)
  have "runs (chk (Ret (l_setControllerReference L m new)) kstore) [(QStore y, ROk)] (Inr ())"
    by (simp add: assms(2) kstore_def runs_Call_iff asUnit_def)
  then have "runs (chk (mutate x) (\<lambda>new. chk (Ret (l_setControllerReference L m new)) kstore)) (t @ [(QStore y, ROk)]) (Inr ())"
    by (rule runs_chkI [OF assms(1)])
  then have "runs (applyObj L m x mutate) ([(QFetch x, RObj x)] @ t @ [(QStore y, ROk)]) (Inr ())"
    unfolding applyObj_def by (rule runs_chkI [OF fetch])
  then show ?thesis by simp
qed

lemma able_applyObj: "able (mutate x) \<Longrightarrow> able (applyObj refLibs m x mutate)"
  unfolding able_def [of "mutate x"] by (auto simp: refSetOwner_def intro: ableI [OF applyObj_run])

lemma encounters_applyObj:
  assumes "runs (mutate x) t (Inr new)" "l_setControllerReference L m new = Inr y" "E (QStore y, ROk)"
  shows "encounters E (applyObj L m x mutate)"
  using applyObj_run [of mutate x, OF assms(1,2)] assms(3) unfolding encounters_def by fastforce

lemma able_reads: "able (secretVersion ns n)" "able (randomHex i)"
proof -
  have "runs (secretVersion ns n) [(QGet KSecret ns n, RErr (ErrNotFound []))] (Inr (n @ '':missing''))"
    by (simp add: secretVersion_def kget_def runs_Call_iff asObjAt_def)
  then show "able (secretVersion ns n)" by (rule ableI)
  have "runs (randomHex i) [(QRandom i, RStr [])] (Inr (hexEncode []))"
    by (simp add: randomHex_def randRead_def chk_def runs_Call_iff asStr_def)
  then show "able (randomHex i)" by (rule ableI)
qed

lemmas able_intros = able_ret able_chk able_whenE able_forE able_if able_option able_deleteIfExists able_applySSA able_applyObj able_reads

subsection \<open>The first parts of a reconcile can be completed\<close>

lemma able_secrets:
  "able (reconcileMeiliSecret refLibs m)" "able (reconcileSetupSecret refLibs m)" "able (reconcileRedisAuthSecret refLibs m)"
  unfolding reconcileMeiliSecret_def meiliSecretMutate_def reconcileSetupSecret_def setupSecretMutate_def
    reconcileRedisAuthSecret_def redisAuthSecretMutate_def Let_def
  by (intro able_intros)+

lemma able_parts:
  "able (reconcileConfigMaps refLibs m p)" "able (reconcileTenancy refLibs m)"
  "able (reconcilePostgres refLibs m)" "able (reconcilePoolers refLibs m)"
  "able (deleteRedisHA m s)" "able (deleteRedisHANetworkPolicy m s)"
  unfolding reconcileConfigMaps_def reconcileTenancy_def reconcileNetworkIsolation_def reconcileEgressIsolation_def
    reconcileResourceQuota_def reconcileLimitRange_def reconcilePostgres_def reconcilePoolers_def deletePooler_def
    deleteRedisHA_def deleteRedisHANetworkPolicy_def
  by (intro able_intros)+

lemma detector_unmanaged: "sensitiveDetector (spec m) = None \<Longrightarrow> \<not> sensitiveDetectorManaged (resolve m)"
proof -
  have "sensitiveDetectorManaged (resolveSetup m q) = sensitiveDetectorManaged q" for q
    by (auto simp: resolveSetup_def split: option.splits)
  moreover have "sensitiveDetectorManaged (resolveIngress m q) = sensitiveDetectorManaged q" for q
    by (simp add: resolveIngress_def)
  moreover have "\<not> sensitiveDetectorManaged (resolveObjectStorage m (resolveSearch m (resolveRedis m (resolveDB m zeroPlan))))"
    by (auto simp: resolveObjectStorage_def resolveSearch_def resolveRedis_def resolveDB_def zeroPlan_def Let_def split: option.splits)
  ultimately show "sensitiveDetector (spec m) = None \<Longrightarrow> \<not> sensitiveDetectorManaged (resolve m)"
    by (simp add: resolve_def resolveDetector_def)
qed

lemma able_base:
  assumes "sensitiveDetector (spec m) = None" "pg_backup (postgres (spec m)) = None"
  shows "able (reconcileBase refLibs m (resolve m))"
proof -
  have "able (reconcileBackupVerify refLibs m)"
    unfolding reconcileBackupVerify_def assms(2) by (simp add: able_intros)
  then show ?thesis unfolding reconcileBase_def using detector_unmanaged [OF assms(1)]
    by (intro able_intros able_secrets able_parts) simp_all
qed

subsection \<open>What happens to the StatefulSet of a Redis instance\<close>

definition storesAt :: "kind \<Rightarrow> string \<Rightarrow> req \<times> resp \<Rightarrow> bool" where
  "storesAt k n e \<longleftrightarrow> (\<exists>x. fst e = QStore x \<and> ko_kind x = k \<and> kname x = n)"

abbreviation redisSet :: "misskey \<Rightarrow> redisManagedInstance \<Rightarrow> kobj" where
  "redisSet m inst \<equiv> newObj KStatefulSet (mnamespace m) (nameRedisInstance m (ri_suffix inst))"

lemma redisMutate_run:
  obtains t new where "\<And>x. runs (redisMutate L m inst x) t (Inr (new x))"
    "\<And>x. ko_kind (new x) = ko_kind x \<and> kname (new x) = kname x \<and> knamespace (new x) = knamespace x"
    "\<And>x. sts_volumeClaims (statefulSetOf (new x)) = [dataClaim (ri_storageClass inst) (ri_storage inst)]"
proof -
  obtain t ver where v: "runs (secretVersion (mnamespace m) (nameRedisAuthSecret m)) t (Inr ver)"
    using able_reads(1) unfolding able_def by blast
  let ?new = "\<lambda>x. setStatefulSet m (redisComponent (ri_suffix inst)) (nameRedisInstance m (ri_suffix inst))
      (checksumAnnotation [ver]) (buildRedisPodSpec L m inst) [dataClaim (ri_storageClass inst) (ri_storage inst)] x"
  have "runs (redisMutate L m inst x) t (Inr (?new x))" for x
    unfolding redisMutate_def ret_def using runs_chkI [OF v runs_Ret] by auto
  then show thesis by (rule that) (simp_all add: setStatefulSet_def statefulSetOf_def setBody_def)
qed

lemma encounters_redisAuth: "encounters (storesAt KSecret (nameRedisAuthSecret m)) (reconcileRedisAuthSecret refLibs m)"
proof -
  let ?s = "newObj KSecret (mnamespace m) (nameRedisAuthSecret m)"
  have "able (redisAuthSecretMutate m ?s)" unfolding redisAuthSecretMutate_def Let_def by (intro able_intros)
  then obtain t new where mut: "runs (redisAuthSecretMutate m ?s) t (Inr new)" unfolding able_def by blast
  then have key: "ko_kind new = KSecret" "kname new = nameRedisAuthSecret m"
    unfolding redisAuthSecretMutate_def markRotation_def ret_def Let_def
    by (auto simp: runs_chk_Inr split: if_splits)
  show ?thesis unfolding reconcileRedisAuthSecret_def
    by (rule encounters_applyObj [where mutate = "redisAuthSecretMutate m", OF mut])
      (auto simp: refSetOwner_def storesAt_def key)
qed

lemma encounters_redis:
  assumes "encounters E (applyStatefulSet refLibs m (redisSet m inst) (redisMutate refLibs m inst))"
  shows "encounters E (reconcileRedisStandalone refLibs m inst)"
  unfolding reconcileRedisStandalone_def Let_def using assms by (intro encounters_after encounters_chk able_intros)

lemma encounters_redis_store:
  "encounters (storesAt KStatefulSet (nameRedisInstance m (ri_suffix inst))) (reconcileRedisStandalone refLibs m inst)"
    (is "encounters ?E _")
proof (rule encounters_redis)
  let ?n = "nameRedisInstance m (ri_suffix inst)"
  obtain t new where mut: "\<And>x. runs (redisMutate refLibs m inst x) t (Inr (new x))"
    and key: "\<And>x. ko_kind (new x) = ko_kind x \<and> kname (new x) = kname x \<and> knamespace (new x) = knamespace x"
    using redisMutate_run by metis
  have absent: "runs (kget KStatefulSet (mnamespace m) ?n) [(QGet KStatefulSet (mnamespace m) ?n, RErr (ErrNotFound []))] (Inl (ErrNotFound []))"
    by (simp add: kget_def runs_Call_iff)
  have "encounters ?E (applyObj refLibs m (new (redisSet m inst)) (redisMutate refLibs m inst))"
    by (rule encounters_applyObj [OF mut]) (auto simp: refSetOwner_def storesAt_def key)
  then show "encounters ?E (applyStatefulSet refLibs m (redisSet m inst) (redisMutate refLibs m inst))"
    unfolding applyStatefulSet_def chk_def Let_def
    by (intro encounters_later [OF mut]) (auto simp: key intro!: encounters_later [OF absent])
qed

text \<open>One whose claim templates are outdated is deleted, leaving its Pods and claims.\<close>

lemma encounters_redis_recreate:
  "encounters (\<lambda>e. fst e = QDelete KStatefulSet (mnamespace m) (nameRedisInstance m (ri_suffix inst)) PropagationOrphan)
     (reconcileRedisStandalone refLibs m inst)" (is "encounters ?E _")
proof (rule encounters_redis)
  let ?n = "nameRedisInstance m (ri_suffix inst)" and ?old = "redisSet m inst"
  obtain t new where mut: "\<And>x. runs (redisMutate refLibs m inst x) t (Inr (new x))"
    and key: "\<And>x. ko_kind (new x) = ko_kind x \<and> kname (new x) = kname x \<and> knamespace (new x) = knamespace x"
    and cl: "\<And>x. sts_volumeClaims (statefulSetOf (new x)) = [dataClaim (ri_storageClass inst) (ri_storage inst)]"
    using redisMutate_run by metis
  have found: "runs (kget KStatefulSet (mnamespace m) ?n) [(QGet KStatefulSet (mnamespace m) ?n, RObj ?old)] (Inr ?old)"
    by (simp add: kget_def runs_Call_iff atKey_def)
  have live: "om_deletionTimestamp (ko_meta ?old) = None" by (simp add: newObj_def newMeta_def)
  have ch: "volumeClaimTemplatesChanged (sts_volumeClaims (statefulSetOf ?old)) [dataClaim (ri_storageClass inst) (ri_storage inst)]"
    by (simp add: volumeClaimTemplatesChanged_def statefulSetOf_def zeroStatefulSet_def newObj_def)
  obtain te where ex: "runs (expandStatefulSetPVCs refLibs m ?old [dataClaim (ri_storageClass inst) (ri_storage inst)]) te ()"
    using runs_total by (metis old.unit.exhaust)
  have "encounters ?E (kdelete KStatefulSet (mnamespace m) ?n PropagationOrphan)"
    by (rule encountersI [where t = "[(QDelete KStatefulSet (mnamespace m) ?n PropagationOrphan, ROk)]" and a = "Inr ()"])
      (auto simp: kdelete_def runs_Call_iff asUnit_def)
  then have "encounters ?E (recreateStatefulSet refLibs m (new ?old) ?old [dataClaim (ri_storageClass inst) (ri_storage inst)])"
    unfolding recreateStatefulSet_def by (intro encounters_later [OF ex] encounters_chk encounters_here) simp
  then show "encounters ?E (applyStatefulSet refLibs m (redisSet m inst) (redisMutate refLibs m inst))"
    unfolding applyStatefulSet_def chk_def Let_def
    by (intro encounters_later [OF mut])
      (simp add: key cl, rule encounters_later [OF found], simp add: ch cl live, erule encounters_here)
qed

subsection \<open>A whole reconcile can succeed\<close>

lemma runs_bndI: "runs p t a \<Longrightarrow> runs (f a) t' b \<Longrightarrow> runs (bnd p f) (t @ t') b"
  by (auto simp: runs_bnd)

lemma runs_chkSI: "runs p t (Inr a) \<Longrightarrow> runs (f a) t' b \<Longrightarrow> runs (chkS s p f) (t @ t') b"
  unfolding chkS_def by (erule runs_bndI) simp

text \<open>A missing object is always a possible answer.\<close>

lemma absent_run: "runs (kget k ns n) [(QGet k ns n, RErr (ErrNotFound []))] (Inl (ErrNotFound []))"
  by (simp add: kget_def runs_Call_iff)

lemma able_applyStatefulSet: "(\<And>x. able (mutate x)) \<Longrightarrow> able (applyStatefulSet refLibs m x mutate)"
  unfolding applyStatefulSet_def Let_def by (intro able_chk able_bnd [OF absent_run]) (auto intro: able_applyObj)

lemma able_mutations: "able (redisMutate refLibs m inst x)" "able (meiliMutate refLibs m p x)"
  unfolding redisMutate_def meiliMutate_def Let_def by (intro able_intros)+

lemma able_redis: "able (reconcileRedis refLibs m)"
  unfolding reconcileRedis_def reconcileRedisInstance_def reconcileRedisStandalone_def reconcileRedisHA_def reconcileRedisHANetworkPolicy_def
    cleanupRedisSuffix_def deleteRedisStandalone_def Let_def
  by (intro able_intros able_secrets able_parts able_applyStatefulSet able_mutations)

lemma able_services: "able (reconcileServices refLibs m p)"
proof -
  have "runs (cleanupObjectStorageJobs m []) [(QList KJob (mnamespace m) (selectorFor m ''objstorage''), RObjs [])] (Inr ())"
    by (simp add: cleanupObjectStorageJobs_def klist_def chk_def runs_Call_iff)
  then have "able (cleanupObjectStorage m)" unfolding cleanupObjectStorage_def by (intro able_chk able_deleteIfExists ableI)
  then show ?thesis
    unfolding reconcileServices_def reconcileMeilisearch_def reconcileAppService_def
    by (intro able_intros able_redis able_applyStatefulSet able_mutations)
qed

lemma able_edge: "able (reconcileEdge refLibs m p)"
  unfolding reconcileEdge_def reconcileProxy_def deleteLegacyMaintenanceWorkload_def deleteProxyResources_def deleteMaintenanceHTMLConfigMap_def
    reconcilePDB_def reconcileIngress_def reconcileMonitoring_def applyOrDelete_def redisMonitors_def Let_def
  by (intro able_intros)

lemma able_suspend: "able (suspendWorkloads refLibs m p)"
  unfolding suspendWorkloads_def suspendWorkload_def deleteHPA_def deleteScaledObject_def deleteTriggerAuth_def
  by (intro able_forE able_chk able_deleteIfExists able_bnd [OF absent_run]) (simp add: able_intros)

lemma not_converged: "\<exists>t. runs (misskeyWorkloadsConverged m p) t False"
proof -
  obtain t r where run: "runs (misskeyChecksum m p) t r" using runs_total [of "misskeyChecksum m p"] by blast
  have "runs (allConverged m s [nameApp m, nameWorker m])
      ([(QGet KDeployment (mnamespace m) (nameApp m), RErr (ErrNotFound []))] @ []) False" for s
    unfolding allConverged.simps by (intro runs_bndI [OF absent_run]) simp
  then have "\<exists>t'. runs (case r of Inl e \<Rightarrow> Ret False | Inr cs \<Rightarrow> allConverged m (mget cs configChecksumAnnotation) [nameApp m, nameWorker m]) t' False"
    by (cases r) (auto intro: runs_Ret)
  with run show ?thesis unfolding misskeyWorkloadsConverged_def runs_bnd by blast
qed

text \<open>Of a suspended instance without restore tests and detector, from an empty cluster.\<close>

lemma suspended_succeeds:
  assumes susp: "suspend (spec m)" and m: "sensitiveDetector (spec m) = None" "pg_backup (postgres (spec m)) = None"
  obtains t st where "runs (reconcileAll refLibs m freshDetectorState) t (st, Inr ())"
proof -
  let ?p = "resolve m" and ?st = "\<lparr>ds_checked = True, ds_exists = False, ds_err = None\<rparr>"
  obtain t1 m' where base: "runs (reconcileBase refLibs m ?p) t1 (Inr m')" using able_base [OF m] unfolding able_def by blast
  then obtain s where m': "m' = m\<lparr>status := s\<rparr>" using base_frame by blast
  obtain t2 where serv: "runs (reconcileServices refLibs m' ?p) t2 (Inr ())" using able_services unfolding able_def by (metis old.unit.exhaust)
  obtain t3 where edge: "runs (reconcileEdge refLibs m' ?p) t3 (Inr ())" using able_edge unfolding able_def by (metis old.unit.exhaust)
  obtain t4 where stop: "runs (suspendWorkloads refLibs m' ?p) t4 (Inr ())" using able_suspend unfolding able_def by (metis old.unit.exhaust)
  obtain t5 where conv: "runs (misskeyWorkloadsConverged m' ?p) t5 False" using not_converged by blast
  have read: "runs (readSensitiveDetectorConfigState m' freshDetectorState)
      [(QGet KConfigMap (mnamespace m') (nameSensitiveDetectorConfig m'), RErr (ErrNotFound []))] ?st"
    by (simp add: readSensitiveDetectorConfigState_def hasSensitiveDetectorConfigState_def freshDetectorState_def kget_def runs_Call_iff)
  define done0 where "done0 = (\<not> sensitiveDetectorEnabled ?p \<and> \<not> ds_exists ?st)"
  have "runs (reconcileRollout refLibs m' ?p ?st done0) (t4 @ []) (?st, Inr done0)"
    unfolding reconcileRollout_def using susp runs_chkSI [OF stop runs_Ret] by (simp add: m')
  moreover have "\<exists>t. runs (finalizeSensitiveDetectorCleanup refLibs m' ?p done0 ?st) t (?st, Inr ())"
    unfolding finalizeSensitiveDetectorCleanup_def runs_bnd using conv by (cases done0) auto
  ultimately obtain t6 where "runs (bnd (reconcileRollout refLibs m' ?p ?st done0) (\<lambda>(st', r).
              case r of
                Inl e \<Rightarrow> Ret (st', Inl e)
              | Inr configDone \<Rightarrow>
                  chkS st' (reconcileEdge refLibs m' ?p) (\<lambda>_.
                    finalizeSensitiveDetectorCleanup refLibs m' ?p configDone st'))) t6 (?st, Inr ())"
    unfolding runs_bnd using runs_chkSI [OF edge] by fastforce
  then have "runs (reconcileAll refLibs m freshDetectorState) (t1 @ t2 @ [(QGet KConfigMap (mnamespace m') (nameSensitiveDetectorConfig m'), RErr (ErrNotFound []))] @ t6) (?st, Inr ())"
    unfolding reconcileAll_def Let_def done0_def
    by (intro runs_chkSI [OF base] runs_chkSI [OF serv] runs_bndI [OF read]) simp
  with that show thesis .
qed

text \<open>
  An image whose channel cannot be read is left as the spec has it, and this is the image the
  status then shows, even if the last reconcile had pinned it there.
\<close>

lemma unread_channel_drops_pin:
  assumes "imageFrom (spec m) = Some src"
  shows "runs (resolveImageInMemory L m) [(QGet KMisskeyChannel [] (if_channel src), RErr e)]
      (m, Inl (ErrWrap (''resolve imageFrom.channel '' @ quoteGo (if_channel src)) e))"
    and "st_image (newStatus L m p cur now conds remove ag b) = image (spec m)"
proof -
  have "runs (getChannel (if_channel src)) [(QGet KMisskeyChannel [] (if_channel src), RErr e)] (Inl e)"
    by (simp add: getChannel_def kget_def chk_def runs_Call_iff)
  then have "runs (resolveChannel m) ([(QGet KMisskeyChannel [] (if_channel src), RErr e)] @ [])
      (Inl (ErrWrap (''resolve imageFrom.channel '' @ quoteGo (if_channel src)) e))"
    unfolding resolveChannel_def assms option.case by (rule runs_bndI) simp
  then have "runs (resolveImageInMemory L m) (([(QGet KMisskeyChannel [] (if_channel src), RErr e)] @ []) @ [])
      (m, Inl (ErrWrap (''resolve imageFrom.channel '' @ quoteGo (if_channel src)) e))"
    unfolding resolveImageInMemory_def by (rule runs_bndI) simp
  then show "runs (resolveImageInMemory L m) [(QGet KMisskeyChannel [] (if_channel src), RErr e)]
      (m, Inl (ErrWrap (''resolve imageFrom.channel '' @ quoteGo (if_channel src)) e))" by simp
  show "st_image (newStatus L m p cur now conds remove ag b) = image (spec m)" by (simp add: newStatus_def Let_def)
qed

end
