(* ===== verification/Rendering.thy ===== *)
theory Rendering
  imports Pod
begin

section \<open>The configuration a container reads\<close>

text \<open>
  The operator writes a template (\<open>renderDefaultYML\<close>), the init container's script replaces the
  placeholders one key after the other (\<open>renderConfigScript\<close>). Here: the quoting of strings can
  be undone; the script does the same as one simultaneous substitution as long as no secret
  contains a dollar sign; then every placeholder of the template is filled; and what happens
  otherwise.
\<close>

subsection \<open>Quoted strings can be read back\<close>

text \<open>The reader of a JSON string, after the opening quote.\<close>

definition hexValue :: "char \<Rightarrow> nat option" where
  "hexValue c = (if inRange 48 57 c then Some (byte c - 48)
     else if inRange 97 102 c then Some (byte c - 87)
     else if inRange 65 70 c then Some (byte c - 55) else None)"

definition utf8Encode :: "nat \<Rightarrow> string" where
  "utf8Encode n =
     (if n < 0x80 then [char_of n]
      else if n < 0x800 then [char_of (0xC0 + n div 64), char_of (0x80 + n mod 64)]
      else [char_of (0xE0 + n div 4096), char_of (0x80 + n div 64 mod 64), char_of (0x80 + n mod 64)])"

definition hexRune :: "char \<Rightarrow> char \<Rightarrow> char \<Rightarrow> char \<Rightarrow> string option" where
  "hexRune a b c d = (case (hexValue a, hexValue b, hexValue c, hexValue d) of
     (Some w, Some x, Some y, Some z) \<Rightarrow> Some (utf8Encode (4096 * w + 256 * x + 16 * y + z))
   | _ \<Rightarrow> None)"

definition simpleEscape :: "char \<Rightarrow> string option" where
  "simpleEscape c = map_of [(CHR 0x22, [CHR 0x22]), (CHR 0x5C, [CHR 0x5C]), (CHR 0x2F, [CHR 0x2F]),
     (CHR ''b'', [CHR 0x08]), (CHR ''f'', [CHR 0x0C]), (CHR ''n'', [CHR 0x0A]), (CHR ''r'', [CHR 0x0D]),
     (CHR ''t'', [CHR 0x09])] c"

definition prependTo :: "string option \<Rightarrow> string option \<Rightarrow> string option" where
  "prependTo u r = (case u of None \<Rightarrow> None | Some s \<Rightarrow> map_option ((@) s) r)"

fun jsonRead :: "string \<Rightarrow> string option" where
  "jsonRead [] = None"
| "jsonRead (c # s) =
     (if c = CHR 0x22 then (if s = [] then Some [] else None)
      else if c = CHR 0x5C then
        (case s of
           e # a # b # d # f # t \<Rightarrow>
             if e = CHR ''u'' then prependTo (hexRune a b d f) (jsonRead t)
             else prependTo (simpleEscape e) (jsonRead (a # b # d # f # t))
         | e # t \<Rightarrow> prependTo (simpleEscape e) (jsonRead t)
         | [] \<Rightarrow> None)
      else map_option ((#) c) (jsonRead s))"

definition jsonUnquote :: "string \<Rightarrow> string option" where
  "jsonUnquote s = (case s of c # t \<Rightarrow> if c = CHR 0x22 then jsonRead t else None | [] \<Rightarrow> None)"

text \<open>\<open>validUTF8 s\<close>: no byte of \<open>s\<close> is decoded as an error.\<close>

definition validUTF8 :: "string \<Rightarrow> bool" where
  "validUTF8 s \<longleftrightarrow> list_all (\<lambda>u. length u > 1 \<or> list_all (\<lambda>c. byte c < 128) u) (runes s)"

lemma jsonRead_plain: "c \<noteq> CHR 0x22 \<Longrightarrow> c \<noteq> CHR 0x5C \<Longrightarrow> jsonRead (c # t) = map_option ((#) c) (jsonRead t)"
  by simp

lemma jsonRead_escape:
  assumes "e \<noteq> CHR ''u''"
  shows "jsonRead (CHR 0x5C # e # t) = prependTo (simpleEscape e) (jsonRead t)"
  using assms by (cases t rule: jsonRead.cases) (auto split: list.splits)

lemma jsonRead_hex: "jsonRead (CHR 0x5C # CHR ''u'' # a # b # c # d # t) = prependTo (hexRune a b c d) (jsonRead t)"
  by simp

declare jsonRead.simps(2) [simp del]

lemma byte_eq: "byte c = byte d \<longleftrightarrow> c = d"
  by (simp add: byte_def)

lemma byte_lits:
  "byte c = 0x22 \<longleftrightarrow> c = CHR 0x22" "byte c = 0x5C \<longleftrightarrow> c = CHR 0x5C" "byte c = 0x08 \<longleftrightarrow> c = CHR 0x08"
  "byte c = 0x0C \<longleftrightarrow> c = CHR 0x0C" "byte c = 0x0A \<longleftrightarrow> c = CHR 0x0A" "byte c = 0x0D \<longleftrightarrow> c = CHR 0x0D"
  "byte c = 0x09 \<longleftrightarrow> c = CHR 0x09"
  by (simp_all add: byte_eq [of c, symmetric] byte_def)

lemma hexValue_hexDigit: "n < 16 \<Longrightarrow> hexValue (hexDigit n) = Some n"
  by (auto simp: hexDigit_def hexValue_def inRange_def byte_def)

lemma hexRune_ascii:
  assumes "byte c < 128"
  shows "hexRune (CHR ''0'') (CHR ''0'') (hexDigit (byte c div 16)) (hexDigit (byte c mod 16)) = Some [c]"
proof -
  have "hexValue (CHR ''0'') = Some 0" by (simp add: hexValue_def inRange_def byte_def)
  moreover have "16 * (byte c div 16) + byte c mod 16 = byte c" by simp
  moreover have "byte c div 16 < 16" "byte c mod 16 < 16" using assms by simp_all
  ultimately show ?thesis using assms
    by (simp add: hexRune_def hexValue_hexDigit utf8Encode_def byte_def)
qed

lemma jsonAscii_read:
  assumes "byte c < 128"
  shows "jsonRead (jsonAscii c @ t) = map_option ((@) [c]) (jsonRead t)"
proof -
  have "jsonRead ([CHR 0x5C, CHR ''u'', CHR ''0'', CHR ''0''] @ hexByte c @ t) = map_option ((@) [c]) (jsonRead t)"
    by (simp add: hexByte_def jsonRead_hex hexRune_ascii [OF assms] prependTo_def)
  moreover have "map_option ((#) c) r = map_option ((@) [c]) r" for r by (rule option.map_cong) auto
  ultimately show ?thesis unfolding jsonAscii_def Let_def byte_lits
    by (auto simp: jsonRead_escape jsonRead_plain simpleEscape_def prependTo_def)
qed

lemma jsonRead_raw:
  assumes "list_all (\<lambda>c. byte c \<ge> 128) u"
  shows "jsonRead (u @ t) = map_option ((@) u) (jsonRead t)"
  using assms
proof (induction u)
  case (Cons c u)
  then have "c \<noteq> CHR 0x22" "c \<noteq> CHR 0x5C" by (auto simp: byte_def)
  with Cons show ?case by (simp add: jsonRead_plain option.map_comp comp_def)
qed (cases "jsonRead t"; simp)

text \<open>A rune of more than one byte has no ASCII byte.\<close>

lemma inRange_above: "inRange lo hi c \<Longrightarrow> 128 \<le> lo \<Longrightarrow> 128 \<le> byte c"
  by (simp add: inRange_def)

lemma runeLen_high:
  assumes "length (take (runeLen s) s) > 1"
  shows "list_all (\<lambda>c. byte c \<ge> 128) (take (runeLen s) s)"
proof -
  have a3: "128 \<le> byte b" if "inRange (if P then 0xA0 else 0x80) h b" for P h b
    by (rule inRange_above [OF that]) simp
  have a4: "128 \<le> byte b" if "inRange (if P then 0x90 else 0x80) h b" for P h b
    by (rule inRange_above [OF that]) simp
  obtain a rest where s: "s = a # rest" using assms by (cases s) auto
  consider (two) "inRange 0xC2 0xDF a" | (three) "\<not> inRange 0xC2 0xDF a" "inRange 0xE0 0xEF a"
    | (four) "\<not> inRange 0xC2 0xDF a" "\<not> inRange 0xE0 0xEF a" "inRange 0xF0 0xF4 a"
    | (one) "\<not> inRange 0xC2 0xDF a" "\<not> inRange 0xE0 0xEF a" "\<not> inRange 0xF0 0xF4 a" by blast
  then show ?thesis
  proof cases
    case two
    with assms s inRange_above [OF two] show ?thesis
      by (cases rest) (auto simp: runeLen_def dest: inRange_above split: if_split_asm)
  next
    case three
    with assms s inRange_above [OF three(2)] show ?thesis
      by (cases rest; cases "tl rest") (auto simp del: if_split simp: runeLen_def dest: inRange_above a3 split: if_split_asm)
  next
    case four
    with assms s inRange_above [OF four(3)] show ?thesis
      by (cases rest; cases "tl rest"; cases "tl (tl rest)")
        (auto simp: runeLen_def dest: inRange_above a4 split: if_split_asm)
  next
    case one
    with assms s show ?thesis by (simp add: runeLen_def)
  qed
qed

lemma runes_high: "u \<in> set (runes s) \<Longrightarrow> length u > 1 \<Longrightarrow> list_all (\<lambda>c. byte c \<ge> 128) u"
proof (induction s rule: runes.induct)
  case (1 s)
  then show ?case using runeLen_high [of s] by (auto simp: runes.simps [of s] split: if_splits)
qed

lemma jsonRune_read:
  assumes "u \<in> set (runes s)" "length u > 1 \<or> list_all (\<lambda>c. byte c < 128) u"
  shows "jsonRead (jsonRune u @ t) = map_option ((@) u) (jsonRead t)"
proof (cases "length u > 1")
  case True
  have sep: "hexRune (CHR ''2'') (CHR ''0'') (CHR ''2'') (CHR ''8'') = Some [CHR 0xE2, CHR 0x80, CHR 0xA8]"
    "hexRune (CHR ''2'') (CHR ''0'') (CHR ''2'') (CHR ''9'') = Some [CHR 0xE2, CHR 0x80, CHR 0xA9]"
    by (simp_all add: hexRune_def hexValue_def inRange_def byte_def utf8Encode_def char_of_eq_iff take_bit_eq_mod)
  have "jsonRune u = (if u = [CHR 0xE2, CHR 0x80, CHR 0xA8] then CHR 0x5C # ''u2028''
      else if u = [CHR 0xE2, CHR 0x80, CHR 0xA9] then CHR 0x5C # ''u2029'' else u)"
  proof -
    obtain a b v where "u = a # b # v" using True by (cases u; cases "tl u") auto
    then show ?thesis by (simp add: jsonRune_def)
  qed
  then show ?thesis
    using jsonRead_raw [OF runes_high [OF assms(1) True]] by (auto simp: jsonRead_hex sep prependTo_def)
next
  case False
  with runes_nonempty [OF assms(1)] obtain c where "u = [c]" by (cases u) auto
  with assms(2) show ?thesis by (simp add: jsonRune_def jsonAscii_read)
qed

lemma jsonRead_runes:
  assumes "set us \<subseteq> set (runes s)" "list_all (\<lambda>u. length u > 1 \<or> list_all (\<lambda>c. byte c < 128) u) us"
  shows "jsonRead (concat (map jsonRune us) @ [dq]) = Some (concat us)"
  using assms
proof (induction us)
  case Nil
  then show ?case by (simp add: jsonRead.simps(2) dq_def)
next
  case (Cons u us)
  then show ?case using jsonRune_read [of u s "concat (map jsonRune us) @ [dq]"] by simp
qed

text \<open>
  C18: a string of the spec reaches the server as it was written: every JSON reader takes the
  quoted scalar in the configuration file apart again into the bytes that were quoted, whatever
  quotes, backslashes, line breaks or markup they contain.
\<close>
theorem scalar_roundtrip:
  assumes "validUTF8 s"
  shows "jsonUnquote (yq s) = Some s"
  using assms jsonRead_runes [of "runes s" s]
  by (simp add: yq_def jsonString_def jsonUnquote_def dq_def validUTF8_def concat_runes)

subsection \<open>The script substitutes simultaneously\<close>

abbreviation dollar :: char where "dollar \<equiv> CHR 0x24"

text \<open>The first key of a list whose placeholder starts a string.\<close>

definition keyAt :: "(string \<Rightarrow> string option) \<Rightarrow> string \<Rightarrow> string option" where
  "keyAt f s = find (\<lambda>k. f k \<noteq> None \<and> hasPrefix s (placeholder k)) scriptKeys"

function substituted :: "(string \<Rightarrow> string option) \<Rightarrow> string \<Rightarrow> string" where
  "substituted f s =
     (if s = [] then []
      else case keyAt f s of
        Some k \<Rightarrow> the (f k) @ substituted f (drop (length (placeholder k)) s)
      | None \<Rightarrow> hd s # substituted f (tl s))"
  by pat_completeness auto
termination
  by (relation "measure (\<lambda>(f, s). length s)") (auto simp: placeholder_def)

declare substituted.simps [simp del]

lemma scriptKeys_plain: "k \<in> set scriptKeys \<Longrightarrow> dollar \<notin> set k \<and> dq \<notin> set k \<and> CHR ''}'' \<notin> set k"
  unfolding scriptKeys_def dq_def by auto

lemma placeholder_prefix:
  assumes "k \<in> set scriptKeys" "l \<in> set scriptKeys" "hasPrefix s (placeholder k)" "hasPrefix s (placeholder l)"
  shows "k = l"
proof -
  obtain t u where "k @ CHR ''}'' # t = l @ CHR ''}'' # u"
    using assms(3,4) by (auto simp: hasPrefix_iff placeholder_def)
  moreover have "takeWhile (\<lambda>x. x \<noteq> CHR ''}'') (u @ CHR ''}'' # v) = u" if "CHR ''}'' \<notin> set u" for u v
    using that by (induction u) auto
  ultimately show ?thesis using scriptKeys_plain [OF assms(1)] scriptKeys_plain [OF assms(2)] by metis
qed

lemma keyAt_Some: "keyAt f s = Some k \<Longrightarrow> k \<in> set scriptKeys \<and> f k \<noteq> None \<and> hasPrefix s (placeholder k)"
  unfolding keyAt_def find_Some_iff by (auto intro: nth_mem)

lemma keyAt_None: "keyAt f s = None \<longleftrightarrow> (\<forall>k\<in>set scriptKeys. f k \<noteq> None \<longrightarrow> \<not> hasPrefix s (placeholder k))"
  unfolding keyAt_def by (auto simp: find_None_iff)

lemma keyAt_eq:
  assumes "k \<in> set scriptKeys" "hasPrefix s (placeholder k)"
  shows "keyAt f s = (if f k \<noteq> None then Some k else None)"
proof (cases "keyAt f s")
  case None
  with assms have "f k = None" unfolding keyAt_None by auto
  with None show ?thesis by simp
next
  case (Some l)
  from keyAt_Some [OF Some] have "l = k" using placeholder_prefix assms by blast
  with Some keyAt_Some [OF Some] show ?thesis by simp
qed

lemma substituted_Nil [simp]: "substituted f [] = []"
  by (simp add: substituted.simps)

lemma substituted_hit:
  "keyAt f s = Some k \<Longrightarrow> substituted f s = the (f k) @ substituted f (drop (length (placeholder k)) s)"
  using keyAt_Some [of f s k] by (auto simp: substituted.simps [of f s] hasPrefix_iff placeholder_def)

lemma substituted_miss: "keyAt f (c # s) = None \<Longrightarrow> substituted f (c # s) = c # substituted f s"
  by (simp add: substituted.simps [of f "c # s"])

lemma keyAt_dollar: "keyAt f (c # s) = Some k \<Longrightarrow> c = dollar"
  by (drule keyAt_Some) (auto simp: hasPrefix_iff placeholder_def)

lemma substituted_plain: "dollar \<notin> set u \<Longrightarrow> substituted f (u @ t) = u @ substituted f t"
proof (induction u)
  case (Cons c u)
  then have "keyAt f (c # u @ t) = None" using keyAt_dollar by (cases "keyAt f (c # u @ t)") auto
  with Cons show ?case by (simp add: substituted_miss)
qed simp

lemma substituted_key:
  assumes "k \<in> set scriptKeys"
  shows "substituted f (placeholder k @ t) = (case f k of Some w \<Rightarrow> w | None \<Rightarrow> placeholder k) @ substituted f t"
proof (cases "f k")
  case (Some w)
  then have "keyAt f (placeholder k @ t) = Some k" using keyAt_eq [OF assms, of "placeholder k @ t" f] by simp
  with Some show ?thesis by (simp add: substituted_hit)
next
  case None
  then have "keyAt f (placeholder k @ t) = None" using keyAt_eq [OF assms, of "placeholder k @ t" f] by simp
  moreover have "dollar \<notin> set (CHR ''{'' # k @ ''}'')" using scriptKeys_plain [OF assms] by simp
  from substituted_plain [OF this] have "substituted f ((CHR ''{'' # k @ ''}'') @ t) = (CHR ''{'' # k @ ''}'') @ substituted f t" .
  ultimately show ?thesis using None by (simp add: substituted_miss placeholder_def)
qed

lemma replaceAll_plain: "dollar \<notin> set u \<Longrightarrow> replaceAll (placeholder k) w (u @ t) = u @ replaceAll (placeholder k) w t"
proof (induction u)
  case (Cons c u)
  then have "\<not> hasPrefix (c # u @ t) (placeholder k)" by (auto simp: hasPrefix_iff placeholder_def)
  with Cons show ?case by (simp add: replaceAll.simps [of _ _ "c # u @ t"] placeholder_def)
qed simp

text \<open>\<open>quotedPlain\<close>: what \<^verbatim>\<open>JSON.stringify\<close> makes of a value without a dollar sign.\<close>

definition quotedPlain :: "string \<Rightarrow> bool" where
  "quotedPlain w \<longleftrightarrow> dollar \<notin> set w \<and> (\<exists>t. w = dq # t)"

lemma substituted_prefix:
  assumes "hasPrefix (substituted f s) u" "dollar \<notin> set u" "dq \<notin> set u" "\<forall>k w. f k = Some w \<longrightarrow> quotedPlain w"
  shows "hasPrefix s u"
  using assms(1-3)
proof (induction u arbitrary: s)
  case Nil
  then show ?case by (simp add: hasPrefix_def)
next
  case (Cons c u)
  then obtain x s' where s: "s = x # s'" by (cases s) (auto simp: substituted.simps hasPrefix_iff)
  show ?case
  proof (cases "keyAt f s")
    case (Some k)
    then obtain w where "f k = Some w" using keyAt_Some by blast
    with assms(4) have "quotedPlain w" by blast
    with substituted_hit [OF Some] Cons.prems \<open>f k = Some w\<close> show ?thesis
      by (auto simp: hasPrefix_iff quotedPlain_def)
  next
    case None
    with s Cons.prems Cons.IH [of s'] show ?thesis by (auto simp: substituted_miss hasPrefix_iff)
  qed
qed

lemma replaceAll_substituted:
  assumes k: "k \<in> set scriptKeys" "f k = None" and f: "\<forall>k w. f k = Some w \<longrightarrow> quotedPlain w"
  shows "replaceAll (placeholder k) w (substituted f s) = substituted (f(k \<mapsto> w)) s"
proof (induction "length s" arbitrary: s rule: less_induct)
  case less
  let ?f = "f(k \<mapsto> w)"
  consider (nil) "s = []" | (hit) l where "keyAt f s = Some l" | (key) t where "s = placeholder k @ t"
    | (skip) c t where "s = c # t" "keyAt f s = None" "\<not> hasPrefix s (placeholder k)"
    by (cases s; cases "keyAt f s") (auto simp: hasPrefix_iff)
  then show ?case
  proof cases
    case nil
    then show ?thesis by (simp add: replaceAll.simps)
  next
    case (hit l)
    note l = keyAt_Some [OF hit]
    then have "l \<noteq> k" using k(2) by auto
    moreover obtain v where "f l = Some v" using l by auto
    ultimately have v: "f l = Some v" "l \<noteq> k" by simp_all
    have "keyAt ?f s = Some l" using keyAt_eq [of l s ?f] l v by simp
    moreover have "length (drop (length (placeholder l)) s) < length s"
      using l by (auto simp: hasPrefix_iff placeholder_def)
    moreover have "dollar \<notin> set v" using f v by (auto simp: quotedPlain_def)
    ultimately show ?thesis using substituted_hit [OF hit] v less.hyps
      by (simp add: substituted_hit replaceAll_plain)
  next
    case (key t)
    then have "length t < length s" by (simp add: placeholder_def)
    moreover have "replaceAll (placeholder k) w (placeholder k @ u) = w @ replaceAll (placeholder k) w u" for u
      by (simp add: replaceAll.simps [of _ _ "placeholder k @ u"]) (simp add: placeholder_def)
    ultimately show ?thesis using less.hyps k by (simp add: key substituted_key)
  next
    case (skip c t)
    have "keyAt ?f s = None" using skip(2,3) unfolding keyAt_None by simp
    moreover have "\<not> hasPrefix (c # substituted f t) (placeholder k)"
    proof
      assume "hasPrefix (c # substituted f t) (placeholder k)"
      then have c: "c = dollar" "hasPrefix (substituted f t) (''{'' @ k @ ''}'')"
        by (auto simp: hasPrefix_iff placeholder_def)
      have "hasPrefix t (''{'' @ k @ ''}'')"
        by (rule substituted_prefix [OF c(2) _ _ f]) (use scriptKeys_plain [OF k(1)] in \<open>simp_all add: dq_def\<close>)
      with c(1) skip(1,3) show False by (simp add: hasPrefix_iff placeholder_def)
    qed
    ultimately show ?thesis using skip less.hyps [of t]
      by (simp add: substituted_miss replaceAll.simps [of _ _ "c # _"] placeholder_def)
  qed
qed

definition scriptEnv :: "(string \<Rightarrow> string) \<Rightarrow> (string \<Rightarrow> string option) \<Rightarrow> string list \<Rightarrow> string \<Rightarrow> string option" where
  "scriptEnv stringify env ks k = (if k \<in> set ks then map_option stringify (env k) else None)"

lemma substituted_none: "substituted (\<lambda>_. None) s = s"
  by (induction s) (simp_all add: substituted_miss keyAt_None)

lemma script_steps:
  assumes "distinct (ps @ ks)" "set (ps @ ks) \<subseteq> set scriptKeys"
    "\<forall>k\<in>set scriptKeys. \<forall>v. env k = Some v \<longrightarrow> quotedPlain (stringify v)"
  shows "foldl (\<lambda>s k. case env k of Some v \<Rightarrow> replaceAll (placeholder k) (stringify v) s | None \<Rightarrow> s)
      (substituted (scriptEnv stringify env ps) tpl) ks = substituted (scriptEnv stringify env (ps @ ks)) tpl"
  using assms(1,2)
proof (induction ks arbitrary: ps)
  case (Cons k ks)
  have quoted: "\<forall>l w. scriptEnv stringify env ps l = Some w \<longrightarrow> quotedPlain w"
    using assms(3) Cons.prems(2) by (auto simp: scriptEnv_def split: if_splits)
  have "(case env k of Some v \<Rightarrow> replaceAll (placeholder k) (stringify v) (substituted (scriptEnv stringify env ps) tpl)
      | None \<Rightarrow> substituted (scriptEnv stringify env ps) tpl) = substituted (scriptEnv stringify env (ps @ [k])) tpl"
  proof (cases "env k")
    case None
    then have "scriptEnv stringify env (ps @ [k]) = scriptEnv stringify env ps" by (auto simp: scriptEnv_def fun_eq_iff)
    with None show ?thesis by simp
  next
    case (Some v)
    then have "(scriptEnv stringify env ps)(k \<mapsto> stringify v) = scriptEnv stringify env (ps @ [k])"
      by (auto simp: scriptEnv_def fun_eq_iff)
    moreover have "scriptEnv stringify env ps k = None" "k \<in> set scriptKeys" using Cons.prems by (auto simp: scriptEnv_def)
    ultimately show ?thesis using replaceAll_substituted [OF _ _ quoted, of k "stringify v" tpl] Some by simp
  qed
  with Cons.IH [of "ps @ [k]"] Cons.prems show ?case by simp
qed simp

lemma script_substituted:
  assumes "\<forall>k\<in>set scriptKeys. \<forall>v. env k = Some v \<longrightarrow> quotedPlain (stringify v)"
  shows "renderConfigScript stringify env tpl = substituted (scriptEnv stringify env scriptKeys) tpl"
proof -
  have "scriptEnv stringify env [] = (\<lambda>_. None)" by (simp add: scriptEnv_def fun_eq_iff)
  moreover have "distinct scriptKeys" by (simp add: scriptKeys_def)
  ultimately show ?thesis
    using script_steps [of "[]" scriptKeys env stringify tpl] assms by (simp add: renderConfigScript_def substituted_none)
qed

text \<open>
  C17: replacing the placeholders one key after the other is one simultaneous substitution, if no
  secret has a dollar sign in it: no value is looked at again, and each placeholder of the
  template becomes exactly the quoted value of its variable.
\<close>
theorem script_substitutes_simultaneously:
  assumes "\<forall>k\<in>set scriptKeys. \<forall>v. env k = Some v \<longrightarrow> quotedPlain (stringify v)"
  shows "renderConfigScript stringify env tpl = substituted (scriptEnv stringify env scriptKeys) tpl"
  by (rule script_substituted [OF assms])


subsection \<open>Every placeholder is filled\<close>

definition filled :: "(string \<Rightarrow> string option) \<Rightarrow> string \<Rightarrow> bool" where
  "filled f s \<longleftrightarrow> dollar \<notin> set (substituted f s)"

lemma substituted_append:
  "filled f s \<Longrightarrow> substituted f (s @ t) = substituted f s @ substituted f t"
  unfolding filled_def
proof (induction "length s" arbitrary: s rule: less_induct)
  case less
  consider (nil) "s = []" | (hit) l r where "l \<in> set scriptKeys" "f l \<noteq> None" "s = placeholder l @ r"
    | (skip) c r where "s = c # r" "keyAt f s = None"
    using keyAt_Some [of f s] by (cases s; cases "keyAt f s") (auto simp: hasPrefix_iff)
  then show ?case
  proof cases
    case (hit l r)
    then have "dollar \<notin> set (substituted f r)" "length r < length s"
      using less.prems by (auto simp: substituted_key) (simp add: placeholder_def)
    with hit less.hyps [of r] show ?thesis by (simp add: substituted_key)
  next
    case (skip c r)
    then have c: "c \<noteq> dollar" "dollar \<notin> set (substituted f r)" using less.prems by (auto simp: substituted_miss)
    then have "keyAt f (c # r @ t) = None" using keyAt_dollar by (cases "keyAt f (c # r @ t)") auto
    with skip c less.hyps [of r] show ?thesis by (simp add: substituted_miss)
  qed simp
qed

lemma filled_intros:
  "filled f s \<Longrightarrow> filled f t \<Longrightarrow> filled f (s @ t)"
  "dollar \<notin> set s \<Longrightarrow> filled f s"
  using substituted_append [of f s t] substituted_plain [of s f "[]"] by (auto simp: filled_def)

lemma filled_concat: "(\<And>s. s \<in> set ss \<Longrightarrow> filled f s) \<Longrightarrow> filled f (concat ss)"
  by (induction ss) (auto intro: filled_intros)

lemma filled_if: "(b \<Longrightarrow> filled f s) \<Longrightarrow> (\<not> b \<Longrightarrow> filled f t) \<Longrightarrow> filled f (if b then s else t)"
  by simp

lemma filled_placeholder:
  "k \<in> set scriptKeys \<Longrightarrow> f k = Some w \<Longrightarrow> dollar \<notin> set w \<Longrightarrow> filled f (placeholder k)"
  using substituted_key [of k f "[]"] by (simp add: filled_def)

lemma hexDigit_dollar: "n < 16 \<Longrightarrow> hexDigit n \<noteq> dollar"
  by (auto simp: hexDigit_def char_of_eq_iff take_bit_eq_mod)

lemma jsonRune_plain_dollar: "dollar \<notin> set u \<Longrightarrow> dollar \<notin> set (jsonRune u)"
proof -
  assume u: "dollar \<notin> set u"
  have "dollar \<notin> set (hexByte c)" for c
  proof -
    have "byte c < 256" by (simp add: byte_def)
    then have "byte c div 16 < 16" "byte c mod 16 < 16" by simp_all
    from this [THEN hexDigit_dollar] show ?thesis by (simp add: hexByte_def)
  qed
  then have "dollar \<notin> set (jsonAscii c)" if "c \<noteq> dollar" for c
    using that unfolding jsonAscii_def Let_def by simp
  with u show ?thesis by (cases u; cases "tl u") (auto simp: jsonRune_def)
qed

lemma yq_plain_dollar: "dollar \<notin> set s \<Longrightarrow> dollar \<notin> set (yq s)"
proof -
  assume s: "dollar \<notin> set s"
  have "dollar \<notin> set u" if "u \<in> set (runes s)" for u
    using s that concat_runes [of s] by (metis UN_I set_concat)
  then show ?thesis using jsonRune_plain_dollar by (auto simp: yq_def jsonString_def dq_def)
qed

lemma digits10_plain_dollar: "dollar \<notin> set (digits10 n)"
  using digits10_digit [of dollar n] by auto

lemma itoa_plain_dollar: "dollar \<notin> set (itoa i)"
  using digits10_plain_dollar by (auto simp: itoa_def)

lemma joinWith_dollar: "dollar \<notin> set sep \<Longrightarrow> (\<forall>x\<in>set xs. dollar \<notin> set x) \<Longrightarrow> dollar \<notin> set (joinWith sep xs)"
  by (induction sep xs rule: joinWith.induct) auto

lemma lits_plain: "dollar \<notin> set nl" "dollar \<notin> set (formatBool b)"
  by (simp_all add: nl_def formatBool_def)

text \<open>The strings that come from the user, in the order they are rendered.\<close>

definition endpointStrings :: "redisEndpoint \<Rightarrow> string list" where
  "endpointStrings ep = re_host ep # re_masterName ep # map rhp_host (re_sentinels ep)"

definition slaveStrings :: "dbEndpoint \<Rightarrow> string list" where
  "slaveStrings s = [de_host s, de_db s, de_user s]"

definition configStrings :: "misskey \<Rightarrow> plan \<Rightarrow> string list" where
  "configStrings m p =
     [url (spec m), dbHost p, dbName p, dbUser p, provider p, meiliHost p, meiliIndex p, meiliScope p,
      idGenerationMethod (spec m), ob_http (outboundProxy (spec m)), ob_smtp (outboundProxy (spec m)),
      fi_mediaProxy (files (spec m)), extraConfig (spec m)] @ ob_bypassHosts (outboundProxy (spec m)) @
     concat (map slaveStrings (dbSlaves p)) @ concat (map endpointStrings (redisDefault p # map snd (redisRolesP p)))"

text \<open>\<open>provides f p\<close>: every variable of the init container has a value without a dollar sign.\<close>

definition provides :: "(string \<Rightarrow> string option) \<Rightarrow> plan \<Rightarrow> bool" where
  "provides f p \<longleftrightarrow> (\<forall>e\<in>set (renderInitEnv p). ev_name e \<in> set scriptKeys \<and>
     (\<exists>w. f (ev_name e) = Some w \<and> dollar \<notin> set w))"

lemma provided:
  assumes "provides f p" "secretEnv k sel \<in> set (renderInitEnv p)"
  shows "filled f (placeholder k)"
  using assms filled_placeholder unfolding provides_def by (force simp: secretEnv_def)

lemma redisBlock_filled:
  assumes "\<forall>s\<in>set (endpointStrings ep). dollar \<notin> set s" "dollar \<notin> set key"
    "re_passSel ep \<noteq> None \<Longrightarrow> filled f (placeholder (re_passEnv ep))"
  shows "filled f (renderRedisBlock key ep)"
  unfolding renderRedisBlock_def
  by (intro filled_intros(1) filled_if filled_concat assms(3))
    (use assms in \<open>auto simp: endpointStrings_def yq_plain_dollar itoa_plain_dollar lits_plain
      intro!: filled_intros\<close>)

lemma role_filled:
  assumes "provides f p" "map_of (redisRolesP p) (rdd_key rd) = Some ep" "rd \<in> set redisRoleDescs" "re_passSel ep \<noteq> None"
  shows "filled f (placeholder (re_passEnv ep))"
proof -
  obtain sel where "re_passSel ep = Some sel" using assms(4) by blast
  then have "secretEnv (re_passEnv ep) sel \<in> set (List.map_filter (\<lambda>rd. case map_of (redisRolesP p) (rdd_key rd) of
      Some ep \<Rightarrow> map_option (secretEnv (re_passEnv ep)) (re_passSel ep) | None \<Rightarrow> None) redisRoleDescs)"
    unfolding set_map_filter_iff by (intro bexI [OF _ assms(3)]) (simp add: assms(2))
  then have "secretEnv (re_passEnv ep) sel \<in> set (renderInitEnv p)" unfolding renderInitEnv_def by simp
  with assms(1) show ?thesis by (rule provided)
qed

lemmas scalar_plain = yq_plain_dollar itoa_plain_dollar lits_plain

lemma user_plain:
  assumes "\<forall>s\<in>set (configStrings m p). dollar \<notin> set s"
  shows "dollar \<notin> set (url (spec m))" "dollar \<notin> set (dbHost p)" "dollar \<notin> set (dbName p)" "dollar \<notin> set (dbUser p)"
    "dollar \<notin> set (provider p)" "dollar \<notin> set (meiliHost p)" "dollar \<notin> set (meiliIndex p)" "dollar \<notin> set (meiliScope p)"
    "dollar \<notin> set (idGenerationMethod (spec m))" "dollar \<notin> set (ob_http (outboundProxy (spec m)))"
    "dollar \<notin> set (ob_smtp (outboundProxy (spec m)))" "dollar \<notin> set (fi_mediaProxy (files (spec m)))"
    "dollar \<notin> set (extraConfig (spec m))" "\<forall>h\<in>set (ob_bypassHosts (outboundProxy (spec m))). dollar \<notin> set h"
    "\<forall>s\<in>set (dbSlaves p). \<forall>x\<in>set (slaveStrings s). dollar \<notin> set x"
    "\<forall>ep\<in>insert (redisDefault p) (snd ` set (redisRolesP p)). \<forall>x\<in>set (endpointStrings ep). dollar \<notin> set x"
  using assms by (auto simp: configStrings_def)

lemma passwords_filled:
  assumes "provides f p"
  shows "filled f (placeholder ''DB_PASSWORD'')" "meiliEnabled p \<Longrightarrow> filled f (placeholder ''MEILI_KEY'')"
    "setupEnabled p \<Longrightarrow> filled f (placeholder ''SETUP_PASSWORD'')"
    "re_passSel (redisDefault p) = Some sel \<Longrightarrow> filled f (placeholder (re_passEnv (redisDefault p)))"
proof -
  show "filled f (placeholder ''DB_PASSWORD'')" "meiliEnabled p \<Longrightarrow> filled f (placeholder ''MEILI_KEY'')"
    "setupEnabled p \<Longrightarrow> filled f (placeholder ''SETUP_PASSWORD'')"
    using provided [OF assms] by (auto simp: renderInitEnv_def)
  show "filled f (placeholder (re_passEnv (redisDefault p)))" if some: "re_passSel (redisDefault p) = Some sel"
    by (rule provided [OF assms, of _ sel]) (simp add: renderInitEnv_def some)
qed

lemma renderDB_filled:
  assumes env: "provides f p" and plain: "\<forall>s\<in>set (configStrings m p). dollar \<notin> set s"
  shows "filled f (renderDB p)"
proof -
  note user = user_plain [OF plain] and pw = passwords_filled [OF env]
  have "filled f (renderSlave s)" if "s \<in> set (dbSlaves p)" for s
    unfolding renderSlave_def using user(15) that
    by (intro filled_intros(1) pw(1)) (simp_all add: filled_intros(2) scalar_plain slaveStrings_def)
  then show ?thesis
    unfolding renderDB_def by (intro filled_intros(1) filled_if filled_concat pw(1)) (auto simp: filled_intros(2) scalar_plain user)
qed

lemma renderRedis_filled:
  assumes env: "provides f p" and plain: "\<forall>s\<in>set (configStrings m p). dollar \<notin> set s"
  shows "filled f (renderRedis p)"
proof -
  note user = user_plain [OF plain] and pw = passwords_filled [OF env]
  have "filled f (renderRedisBlock ''redis'' (redisDefault p))"
    by (rule redisBlock_filled) (use user(16) pw(4) in auto)
  moreover have "filled f (renderRedisBlock (rdd_configKey rd) ep)"
    if ep: "map_of (redisRolesP p) (rdd_key rd) = Some ep" and rd: "rd \<in> set redisRoleDescs" for rd ep
  proof (rule redisBlock_filled)
    show "\<forall>s\<in>set (endpointStrings ep). dollar \<notin> set s"
      using user(16) map_of_SomeD [OF ep] by force
    show "dollar \<notin> set (rdd_configKey rd)" using rd by (auto simp: redisRoleDescs_def)
    show "filled f (placeholder (re_passEnv ep))" if "re_passSel ep \<noteq> None"
      by (rule role_filled [OF env ep rd that])
  qed
  ultimately show ?thesis
    unfolding renderRedis_def
    by (intro filled_intros(1) filled_concat) (auto simp: scalar_plain filled_intros(2) split: option.splits)
qed

lemma writeInt_plain: "dollar \<notin> set k \<Longrightarrow> dollar \<notin> set (writeInt k v)"
  by (auto simp: writeInt_def scalar_plain split: option.split)

lemma renderDefaultYML_filled:
  assumes env: "provides f p" and plain: "\<forall>s\<in>set (configStrings m p). dollar \<notin> set s"
  shows "filled f (renderDefaultYML m p)"
proof -
  note user = user_plain [OF plain] and pw = passwords_filled [OF env] and q = scalar_plain
  note db = renderDB_filled [OF env plain] and redis = renderRedis_filled [OF env plain]
  have search: "filled f (renderSearch p)"
    unfolding renderSearch_def by (intro filled_intros(1) filled_if pw) (simp_all add: filled_intros(2) q user)
  have perf: "filled f (renderPerformance pf)" for pf
    unfolding renderPerformance_def by (intro filled_intros) (simp_all add: writeInt_plain)
  have "dollar \<notin> set (joinWith '', '' (map yq (ob_bypassHosts (outboundProxy (spec m)))))"
    by (rule joinWith_dollar) (use user(14) in \<open>auto simp: q\<close>)
  then have out: "filled f (renderOutboundProxy (outboundProxy (spec m)))"
    unfolding renderOutboundProxy_def by (intro filled_intros(1) filled_if) (simp_all add: filled_intros(2) q user)
  have files: "filled f (renderFiles (files (spec m)))"
    unfolding renderFiles_def by (intro filled_intros(1) filled_if) (auto simp: filled_intros(2) q user split: option.split)
  have "dollar \<notin> set (trimRightSet (extraConfig (spec m)) nl)"
    using user(13) set_dropWhileD by (fastforce simp: trimRightSet_def)
  then show ?thesis
    unfolding renderDefaultYML_def by (intro filled_intros(1) filled_if pw db redis search perf out files)
      (simp_all add: filled_intros(2) q user stringOr_def)
qed

lemma renderInitEnv_migrate: "renderInitEnv (migratePlan m p) = renderInitEnv p"
  by (simp add: renderInitEnv_def migratePlan_def Let_def split: option.split)

text \<open>
  C16: the configuration file app, worker and migration read has no placeholder left. The
  variables the operator gives to the init container are enough to fill every placeholder it
  put into the template; if neither the strings of the spec nor the secrets contain a dollar
  sign, the result has none either.
\<close>
theorem config_fully_substituted:
  assumes p: "p \<in> {resolve m, migratePlan m (resolve m)}" "\<forall>s\<in>set (configStrings m p). dollar \<notin> set s"
    and env: "\<forall>e\<in>set (renderInitEnv (resolve m)). env (ev_name e) \<noteq> None"
    and quoted: "\<forall>k\<in>set scriptKeys. \<forall>v. env k = Some v \<longrightarrow> quotedPlain (stringify v)"
  shows "dollar \<notin> set (renderConfigScript stringify env (renderDefaultYML m p))"
proof -
  have "renderInitEnv p = renderInitEnv (resolve m)" using p(1) renderInitEnv_migrate by auto
  then have "provides (scriptEnv stringify env scriptKeys) p"
    using env quoted renderInitEnv_names(2) [of m] unfolding provides_def scriptEnv_def quotedPlain_def by fastforce
  from renderDefaultYML_filled [OF this p(2)] show ?thesis
    unfolding filled_def script_substituted [OF quoted] .
qed

subsection \<open>The maintenance page\<close>

text \<open>
  The delay of the reload script is computed in 32 bits: from 2147484 seconds on it wraps, and
  the page reloads without any delay.
\<close>

lemma reload_delay_wraps: "reloadScript 2147484 =
  nl @ ''<script>setTimeout(function () { location.reload() }, '' @ itoa (- 2147483296) @ '')</script>''"
  by (simp add: reloadScript_def wrap32_def)

end
