(* ===== verification/Cluster.thy ===== *)
theory Cluster
  imports Tenancy Proxy Postgres Footprint "HOL-Library.Multiset"
begin

section \<open>Declared state: parts of the operator as functions on the cluster\<close>

text \<open>
  Many reconcilers only bring objects into a declared state. Here they are run against an API
  server that keeps objects (\<open>apiServer\<close>). The specification is a list of wishes, objects to be
  present with certain contents, to be applied, or to be absent; \<open>realise\<close> fulfils them in one function on the
  state. Each part refines its wishes, whatever the state was, and fulfilling wishes a second
  time changes nothing: the reconcilers converge in one step and are then silent.
\<close>

subsection \<open>An API server with a state\<close>

type_synonym objKey = "kind \<times> string \<times> string"

type_synonym cluster = "objKey \<Rightarrow> kobj option"

definition keyOfObj :: "kobj \<Rightarrow> objKey" where
  "keyOfObj x = (ko_kind x, knamespace x, kname x)"

definition put :: "kobj \<Rightarrow> cluster \<Rightarrow> cluster" where
  "put x w = w(keyOfObj x \<mapsto> x)"

text \<open>
  Reads, writes and deletions of single objects, with \<open>QFetch\<close> and \<open>QStore\<close> the two halves of
  \<^verbatim>\<open>CreateOrUpdate\<close>: what is not there starts as the given object. A server-side apply merges
  the applied object into the stored one; the merge is an argument (\<open>mrg\<close>). Whatever else is asked
  (lists, the clock) is answered by another server, an argument too.
\<close>

type_synonym merging = "kobj \<Rightarrow> kobj option \<Rightarrow> kobj"

fun apiServer :: "merging \<Rightarrow> (req, resp, cluster) server \<Rightarrow> (req, resp, cluster) server" where
  "apiServer mrg other (QGet k ns n) w = ((case w (k, ns, n) of Some x \<Rightarrow> RObj x | None \<Rightarrow> RErr (ErrNotFound n)), w)"
| "apiServer mrg other (QFetch x) w = (RObj (case w (keyOfObj x) of Some y \<Rightarrow> y | None \<Rightarrow> x), w)"
| "apiServer mrg other (QStore x) w = (ROk, put x w)"
| "apiServer mrg other (QUpdate x) w = (if w (keyOfObj x) = None then (RErr (ErrNotFound (kname x)), w) else (RObj x, put x w))"
| "apiServer mrg other (QApply x) w = (ROk, w(keyOfObj x \<mapsto> mrg x (w (keyOfObj x))))"
| "apiServer mrg other (QDelete k ns n pol) w =
     ((if w (k, ns, n) = None then RErr (ErrNotFound n) else ROk), w((k, ns, n) := None))"
| "apiServer mrg other q w = other q w"

text \<open>Objects are stored under their own key.\<close>

definition wellKeyed :: "cluster \<Rightarrow> bool" where
  "wellKeyed w \<longleftrightarrow> (\<forall>k x. w k = Some x \<longrightarrow> keyOfObj x = k)"

lemma wellKeyedD: "wellKeyed w \<Longrightarrow> w k = Some x \<Longrightarrow> keyOfObj x = k"
  unfolding wellKeyed_def by blast

subsection \<open>Wishes\<close>

text \<open>
  \<open>Derived\<close> is for contents that also depend on the Secrets in the cluster (their versions enter
  the checksum of the Pods).
\<close>

datatype wish = Present kobj "kobj \<Rightarrow> kobj" | Derived kobj "cluster \<Rightarrow> kobj \<Rightarrow> kobj" | Applied kobj | Absent objKey

fun wishKey :: "wish \<Rightarrow> objKey" where
  "wishKey (Present x f) = keyOfObj x"
| "wishKey (Derived x g) = keyOfObj x"
| "wishKey (Applied x) = keyOfObj x"
| "wishKey (Absent k) = k"

fun fulfil :: "(kobj \<Rightarrow> kobj) \<Rightarrow> merging \<Rightarrow> cluster \<Rightarrow> wish \<Rightarrow> kobj option \<Rightarrow> kobj option" where
  "fulfil own mrg w (Present x f) old = Some (own (f (case old of Some y \<Rightarrow> y | None \<Rightarrow> x)))"
| "fulfil own mrg w (Derived x g) old = Some (own (g w (case old of Some y \<Rightarrow> y | None \<Rightarrow> x)))"
| "fulfil own mrg w (Applied x) old = Some (mrg (own x) old)"
| "fulfil own mrg w (Absent k) old = None"

definition grant :: "(kobj \<Rightarrow> kobj) \<Rightarrow> merging \<Rightarrow> wish \<Rightarrow> cluster \<Rightarrow> cluster" where
  "grant own mrg d w = w(wishKey d := fulfil own mrg w d (w (wishKey d)))"

definition realise :: "(kobj \<Rightarrow> kobj) \<Rightarrow> merging \<Rightarrow> wish list \<Rightarrow> cluster \<Rightarrow> cluster" where
  "realise own mrg ws w = foldl (\<lambda>w d. grant own mrg d w) w ws"

lemma realise_simps [simp]:
  "realise own mrg [] w = w" "realise own mrg (d # ws) w = realise own mrg ws (grant own mrg d w)"
  "realise own mrg (ws @ vs) w = realise own mrg vs (realise own mrg ws w)"
  by (simp_all add: realise_def)

subsection \<open>Lawful changes and owners\<close>

definition setOwners :: "(ownerReference list \<Rightarrow> ownerReference list) \<Rightarrow> kobj \<Rightarrow> kobj" where
  "setOwners g x = x\<lparr>ko_meta := (ko_meta x)\<lparr>om_ownerReferences := g (om_ownerReferences (ko_meta x))\<rparr>\<rparr>"

text \<open>
  \<open>serverLaws L m own mrg\<close>: \<^verbatim>\<open>SetControllerReference\<close> succeeds (no other controller owns the objects), it only
  changes the owner references, and setting them again changes nothing; and applying an object
  stores it under its key and changes nothing when it is applied again, as the API documents.
\<close>

definition serverLaws :: "libs \<Rightarrow> misskey \<Rightarrow> (kobj \<Rightarrow> kobj) \<Rightarrow> merging \<Rightarrow> bool" where
  "serverLaws L m own mrg \<longleftrightarrow> (\<forall>x. l_setControllerReference L m x = Inr (own x)) \<and>
     (\<exists>g. own = setOwners g \<and> (\<forall>rs. g (g rs) = g rs)) \<and>
     (\<forall>x old. keyOfObj (mrg x old) = keyOfObj x \<and> mrg x (Some (mrg x old)) = mrg x old)"

definition lawfulChange :: "(kobj \<Rightarrow> kobj) \<Rightarrow> bool" where
  "lawfulChange f \<longleftrightarrow> (\<forall>y. keyOfObj (f y) = keyOfObj y \<and> f (f y) = f y) \<and> (\<forall>g y. f (setOwners g y) = setOwners g (f y))"

definition sameSecrets :: "cluster \<Rightarrow> cluster \<Rightarrow> bool" where
  "sameSecrets w v \<longleftrightarrow> (\<forall>ns n. w (KSecret, ns, n) = v (KSecret, ns, n))"

fun lawful :: "wish \<Rightarrow> bool" where
  "lawful (Present x f) \<longleftrightarrow> lawfulChange f"
| "lawful (Derived x g) \<longleftrightarrow> (\<forall>w. lawfulChange (g w)) \<and> (\<forall>w v. sameSecrets w v \<longrightarrow> g w = g v)"
| "lawful _ \<longleftrightarrow> True"

definition sparing :: "wish list \<Rightarrow> bool" where
  "sparing ws \<longleftrightarrow> (\<forall>d\<in>set ws. fst (wishKey d) \<noteq> KSecret)"

lemma keyOf_setOwners [simp]: "keyOfObj (setOwners g x) = keyOfObj x"
  by (simp add: setOwners_def keyOfObj_def)

lemma fulfil_idem:
  assumes "serverLaws L m own mrg" "lawful d"
  shows "fulfil own mrg w d (fulfil own mrg w d old) = fulfil own mrg w d old"
proof -
  obtain g where own: "own = setOwners g" and g: "\<And>rs. g (g rs) = g rs"
    using assms(1) unfolding serverLaws_def by blast
  have "setOwners g (setOwners g y) = setOwners g y" for y by (simp add: setOwners_def g)
  with assms show ?thesis by (cases d) (simp_all add: own lawfulChange_def serverLaws_def)
qed

lemma fulfil_secrets: "lawful d \<Longrightarrow> sameSecrets w v \<Longrightarrow> fulfil own mrg w d old = fulfil own mrg v d old"
  by (cases d) auto

lemma sameSecrets_simps [simp]: "sameSecrets w w"
  by (simp add: sameSecrets_def)

lemma grant_secrets: "fst (wishKey d) \<noteq> KSecret \<Longrightarrow> sameSecrets w (grant own mrg d w)"
  unfolding sameSecrets_def grant_def by (metis fst_conv fun_upd_other)

lemma realise_secrets: "sparing ws \<Longrightarrow> sameSecrets w (realise own mrg ws w)"
proof (induction ws arbitrary: w)
  case (Cons d ws)
  then have "sameSecrets w (grant own mrg d w)" "sparing ws" by (auto simp: sparing_def intro: grant_secrets)
  with Cons.IH [of "grant own mrg d w"] show ?case by (simp add: sameSecrets_def)
qed simp

text \<open>With distinct keys, the state at a key only depends on the wish for this key.\<close>

lemma realise_at:
  assumes "distinct (map wishKey ws)" "\<forall>d\<in>set ws. lawful d" "sparing ws"
  shows "realise own mrg ws w k = (case find (\<lambda>d. wishKey d = k) ws of None \<Rightarrow> w k | Some d \<Rightarrow> fulfil own mrg w d (w k))"
  using assms
proof (induction ws arbitrary: w)
  case (Cons d ws)
  have d: "find (\<lambda>d. wishKey d = k) ws = None" if "wishKey d = k"
    using Cons.prems(1) that unfolding find_None_iff by (metis distinct.simps(2) imageI list.simps(9) set_map)
  have sec: "sameSecrets w (grant own mrg d w)" using Cons.prems(3) by (auto simp: sparing_def intro: grant_secrets)
  have IH: "realise own mrg ws (grant own mrg d w) k =
      (case find (\<lambda>d. wishKey d = k) ws of None \<Rightarrow> grant own mrg d w k | Some d' \<Rightarrow> fulfil own mrg (grant own mrg d w) d' (grant own mrg d w k))"
    using Cons.IH Cons.prems by (simp add: sparing_def)
  have "fulfil own mrg (grant own mrg d w) d' old = fulfil own mrg w d' old" if "find (\<lambda>d. wishKey d = k) ws = Some d'" for d' old
    using fulfil_secrets [OF _ sec, of d'] Cons.prems(2) that by (auto simp: find_Some_iff)
  with IH d show ?case by (auto simp: grant_def split: option.split)
qed simp

lemma realise_frame: "k \<notin> wishKey ` set ws \<Longrightarrow> realise own mrg ws w k = w k"
  by (induction ws arbitrary: w) (auto simp: grant_def)

lemma realise_idem:
  assumes "serverLaws L m own mrg" "\<forall>d\<in>set ws. lawful d" "distinct (map wishKey ws)" "sparing ws"
  shows "realise own mrg ws (realise own mrg ws w) = realise own mrg ws w"
proof
  fix k
  note at = realise_at [OF assms(3,2,4)]
  show "realise own mrg ws (realise own mrg ws w) k = realise own mrg ws w k"
  proof (cases "find (\<lambda>d. wishKey d = k) ws")
    case None
    then show ?thesis by (simp add: at)
  next
    case (Some d)
    then have d: "lawful d" using assms(2) by (auto simp: find_Some_iff)
    have "realise own mrg ws (realise own mrg ws w) k = fulfil own mrg (realise own mrg ws w) d (fulfil own mrg w d (w k))"
      by (simp add: at Some)
    also have "\<dots> = fulfil own mrg w d (fulfil own mrg w d (w k))"
      using fulfil_secrets [OF d realise_secrets [OF assms(4)]] by simp
    also have "\<dots> = realise own mrg ws w k" using fulfil_idem [OF assms(1) d] by (simp add: at Some)
    finally show ?thesis .
  qed
qed

lemma fulfil_keyed:
  assumes "serverLaws L m own mrg" "lawful d" "wellKeyed w"
  shows "wellKeyed (grant own mrg d w)"
proof -
  obtain g where own: "own = setOwners g" using assms(1) unfolding serverLaws_def by blast
  have old: "keyOfObj (case w (keyOfObj x) of Some z \<Rightarrow> z | None \<Rightarrow> x) = keyOfObj x" for x
    using wellKeyedD [OF assms(3)] by (simp split: option.split)
  have "keyOfObj y = wishKey d" if "fulfil own mrg w d (w (wishKey d)) = Some y" for y
    using that assms(1,2) old by (cases d) (auto simp: own lawfulChange_def serverLaws_def)
  with assms(3) show ?thesis unfolding wellKeyed_def grant_def by (metis fun_upd_apply)
qed

lemma realise_keyed:
  "serverLaws L m own mrg \<Longrightarrow> \<forall>d\<in>set ws. lawful d \<Longrightarrow> wellKeyed w \<Longrightarrow> wellKeyed (realise own mrg ws w)"
proof (induction ws arbitrary: w)
  case (Cons d ws)
  then show ?case using fulfil_keyed [of L m own mrg d w] by simp
qed simp

subsection \<open>Programs that implement wishes\<close>

definition implements :: "(kobj \<Rightarrow> kobj) \<Rightarrow> merging \<Rightarrow> (error + unit) io \<Rightarrow> wish list \<Rightarrow> bool" where
  "implements own mrg p ws \<longleftrightarrow> (\<forall>other w. wellKeyed w \<longrightarrow> exec (apiServer mrg other) p w = (Inr (), realise own mrg ws w)) \<and> (\<forall>d\<in>set ws. lawful d)"

lemma implements_ret: "implements own mrg (Ret (Inr ())) []"
  by (simp add: implements_def)

lemma implements_chk:
  assumes own: "serverLaws L m own mrg" and p: "implements own mrg p ws" and q: "implements own mrg q vs"
  shows "implements own mrg (chk p (\<lambda>_. q)) (ws @ vs)"
  using p q realise_keyed [OF own] unfolding implements_def by auto

lemma implements_applyObj:
  assumes own: "serverLaws L m own mrg" and f: "lawful (Present x f)"
  shows "implements own mrg (applyObj L m x (\<lambda>y. ret (f y))) [Present x f]"
proof -
  have "exec (apiServer mrg other) (applyObj L m x (\<lambda>y. ret (f y))) w = (Inr (), realise own mrg [Present x f] w)" if w: "wellKeyed w" for other w
  proof -
    define y where "y = (case w (keyOfObj x) of Some y \<Rightarrow> y | None \<Rightarrow> x)"
    have key: "keyOfObj y = keyOfObj x" using w wellKeyedD by (auto simp: y_def split: option.split)
    then have "atKey (ko_kind x) (knamespace x) (kname x) y" by (simp add: atKey_def keyOfObj_def)
    moreover have "keyOfObj (own (f y)) = keyOfObj x"
      using own f key by (auto simp: serverLaws_def lawfulChange_def)
    moreover have "l_setControllerReference L m (f y) = Inr (own (f y))" using own by (simp add: serverLaws_def)
    ultimately show ?thesis
      by (simp add: applyObj_def kfetch_def kstore_def ret_def y_def [symmetric] put_def asUnit_def grant_def)
  qed
  with f show ?thesis by (simp add: implements_def)
qed

lemma implements_applySSA:
  assumes "serverLaws L m own mrg"
  shows "implements own mrg (applySSA L m x) [Applied x]"
proof -
  have "l_setControllerReference L m x = Inr (own x)" "keyOfObj (own x) = keyOfObj x"
    using assms by (auto simp: serverLaws_def)
  then show ?thesis by (simp add: implements_def grant_def applySSA_def kapply_def asUnit_def)
qed

lemma implements_delete: "implements own mrg (deleteIfExists k ns n) [Absent (k, ns, n)]"
  by (simp add: implements_def deleteIfExists_def kdelete_def asUnit_def grant_def)

lemma implements_if:
  "(b \<Longrightarrow> implements own mrg p ws) \<Longrightarrow> (\<not> b \<Longrightarrow> implements own mrg q vs) \<Longrightarrow>
     implements own mrg (if b then p else q) (if b then ws else vs)"
  by simp

lemma implements_whenE: "(b \<Longrightarrow> implements own mrg p ws) \<Longrightarrow> implements own mrg (whenE b p) (if b then ws else [])"
  by (cases b) (simp_all add: implements_ret)

lemma implements_option:
  "(x = None \<Longrightarrow> implements own mrg p ws) \<Longrightarrow> (\<And>a. x = Some a \<Longrightarrow> implements own mrg (q a) (vs a)) \<Longrightarrow>
     implements own mrg (case x of None \<Rightarrow> p | Some a \<Rightarrow> q a) (case x of None \<Rightarrow> ws | Some a \<Rightarrow> vs a)"
  by (cases x) simp_all

lemma implements_forE:
  assumes "serverLaws L m own mrg" "\<And>x. x \<in> set xs \<Longrightarrow> implements own mrg (f x) (g x)"
  shows "implements own mrg (forE xs f) (concat (map g xs))"
  using assms(2)
proof (induction xs)
  case (Cons x xs)
  then have "implements own mrg (chk (f x) (\<lambda>_. forE xs f)) (g x @ concat (map g xs))"
    by (intro implements_chk [OF assms(1)]) simp_all
  then show ?case by simp
qed (simp add: implements_ret)

subsection \<open>The contract of a declared part\<close>

locale declared =
  fixes part :: "libs \<Rightarrow> misskey \<Rightarrow> (error + unit) io" and wishes :: "libs \<Rightarrow> misskey \<Rightarrow> wish list"
  assumes fulfils: "serverLaws L m own mrg \<Longrightarrow> implements own mrg (part L m) (wishes L m)"
    and apart: "distinct (map wishKey (wishes L m))"
    and spares: "sparing (wishes L m)"
begin

lemma refines:
  "serverLaws L m own mrg \<Longrightarrow> wellKeyed w \<Longrightarrow> exec (apiServer mrg other) (part L m) w = (Inr (), realise own mrg (wishes L m) w)"
  using fulfils by (simp add: implements_def)

lemma converged:
  assumes "serverLaws L m own mrg" "wellKeyed w"
  shows "exec (apiServer mrg other) (part L m) (realise own mrg (wishes L m) w) = (Inr (), realise own mrg (wishes L m) w)"
proof -
  have ok: "\<forall>d\<in>set (wishes L m). lawful d" using fulfils [OF assms(1)] by (simp add: implements_def)
  from refines [OF assms(1) realise_keyed [OF assms(1) ok assms(2)]] realise_idem [OF assms(1) ok apart spares]
  show ?thesis by simp
qed


end

subsection \<open>Configuration\<close>

definition dataWish :: "misskey \<Rightarrow> string \<Rightarrow> string \<Rightarrow> strmap \<Rightarrow> wish" where
  "dataWish m name component d = Present (newObj KConfigMap (mnamespace m) name)
     (\<lambda>cm. setBody (BData d) (withLabels (labelsFor m component) cm))"

definition configWishes :: "libs \<Rightarrow> misskey \<Rightarrow> wish list" where
  "configWishes L m =
     (let p = resolve m; proxied = boolOr (px_enabled (proxy (spec m))) True in
      [dataWish m (nameConfig m) ''config'' ([(''default.yml'', renderDefaultYML m p)] @
         (if proxied then [(''Caddyfile'', renderCaddyfile m)] else []))] @
      [dataWish m (nameMigrateConfig m) ''config'' [(''default.yml'', renderDefaultYML m (migratePlan m p))]] @
      (if \<not> proxied \<or> \<not> boolOr (ma_enabled (px_maintenance (proxy (spec m)))) True then []
       else [dataWish m (nameMaintenanceHTML m) ''maintenance'' [(''maintenance.html'', maintenanceHTMLContent m)]]))"

lemma lawful_setBody:
  "lawful (Present x (\<lambda>y. setBody b (withLabels l y)))"
  "lawful (Present x (\<lambda>y. setBody b (withAnnotations a (withLabels l y))))"
  by (simp_all add: lawfulChange_def setBody_def withLabels_def withAnnotations_def setOwners_def keyOfObj_def)

lemma dataWish_simps [simp]: "wishKey (dataWish m n c d) = (KConfigMap, mnamespace m, n)"
  by (simp add: dataWish_def keyOfObj_def)

lemma implements_data:
  "serverLaws L m own mrg \<Longrightarrow> implements own mrg (applyObj L m (newObj KConfigMap (mnamespace m) n)
     (\<lambda>cm. ret (setBody (BData d) (withLabels (labelsFor m c) cm)))) [dataWish m n c d]"
  unfolding dataWish_def by (rule implements_applyObj [OF _ lawful_setBody(1)])

interpretation config: declared "\<lambda>L m. reconcileConfigMaps L m (resolve m)" configWishes
proof
  show "implements own mrg (reconcileConfigMaps L m (resolve m)) (configWishes L m)" if o: "serverLaws L m own mrg" for L m own mrg
    unfolding reconcileConfigMaps_def configWishes_def Let_def
    by (intro implements_chk [OF o] implements_if implements_ret implements_data [OF o])
  show "distinct (map wishKey (configWishes L m))" for L m
    by (simp add: configWishes_def Let_def nameConfig_def nameMigrateConfig_def nameMaintenanceHTML_def)
  show "sparing (configWishes L m)" for L m by (simp add: sparing_def configWishes_def Let_def)
qed

subsection \<open>Network policies and quotas\<close>

definition isolationWish :: "misskey \<Rightarrow> wish" where
  "isolationWish m =
     (if \<not> boolOr (ni_enabled (nw_isolation (network (spec m)))) True
      then Absent (KNetworkPolicy, mnamespace m, mname m @ ''-isolation'')
      else Present (newObj KNetworkPolicy (mnamespace m) (mname m @ ''-isolation'')) (\<lambda>np.
        setBody (BNetworkPolicy ((networkPolicyOf np)\<lparr>
            npo_podSelector := ofInstance m (SelNotIn componentLabel [publicEntry m, ''postgres'']),
            npo_policyTypes := [''Ingress''],
            npo_ingress := [\<lparr>nr_peers = isolationPeers m, nr_ports = []\<rparr>]\<rparr>))
          (withLabels (labelsFor m ''isolation'') np)))"

definition egressWish :: "misskey \<Rightarrow> string \<Rightarrow> labelSelector \<Rightarrow> networkRule list \<Rightarrow> wish" where
  "egressWish m name sel rules =
     (if \<not> boolOr (eg_enabled (nw_egressIsolation (network (spec m)))) False
      then Absent (KNetworkPolicy, mnamespace m, name)
      else Present (newObj KNetworkPolicy (mnamespace m) name) (setEgress m sel rules))"

definition quotaWish :: "misskey \<Rightarrow> wish" where
  "quotaWish m =
     (if \<not> tn_dedicated (tenancy (spec m)) \<or> length (tn_quota (tenancy (spec m))) = 0
      then Absent (KResourceQuota, mnamespace m, mname m @ ''-quota'')
      else Present (newObj KResourceQuota (mnamespace m) (mname m @ ''-quota'')) (\<lambda>rq.
        setBody (BQuota (tn_quota (tenancy (spec m)))) (withLabels (labelsFor m ''tenancy'') rq)))"

definition limitWish :: "misskey \<Rightarrow> wish" where
  "limitWish m =
     (case (if tn_dedicated (tenancy (spec m)) then tn_limitRange (tenancy (spec m)) else None) of
        None \<Rightarrow> Absent (KLimitRange, mnamespace m, mname m @ ''-limits'')
      | Some lr \<Rightarrow> Present (newObj KLimitRange (mnamespace m) (mname m @ ''-limits'')) (\<lambda>o1.
          setBody (BLimits [lr]) (withLabels (labelsFor m ''tenancy'') o1)))"

definition tenancyWishes :: "libs \<Rightarrow> misskey \<Rightarrow> wish list" where
  "tenancyWishes L m =
     [isolationWish m] @
     ([egressWish m (mname m @ ''-egress-frontend'') (frontendSelector m) (frontendEgress L m)] @
      [egressWish m (mname m @ ''-egress-backend'') (backendSelector m) (egressCommonRules m)]) @
     [quotaWish m] @ [limitWish m]"

lemma lawful_policy:
  "lawful (Present x (\<lambda>np. setBody (BNetworkPolicy ((networkPolicyOf np)\<lparr>npo_podSelector := s, npo_policyTypes := t, npo_ingress := i\<rparr>))
     (withLabels l np)))"
  "lawful (Present x (setEgress m sel rules))"
  by (simp_all add: lawfulChange_def setEgress_def setBody_def withLabels_def setOwners_def keyOfObj_def networkPolicyOf_def)

interpretation tenancy: declared reconcileTenancy tenancyWishes
proof
  show "implements own mrg (reconcileTenancy L m) (tenancyWishes L m)" if o: "serverLaws L m own mrg" for L m own mrg
  proof -
    have "implements own mrg (reconcileNetworkIsolation L m) [isolationWish m]"
      using implements_applyObj [OF o lawful_policy(1)] implements_delete
      by (auto simp: reconcileNetworkIsolation_def isolationWish_def)
    moreover have "implements own mrg (reconcileEgressIsolation L m)
       ([egressWish m (mname m @ ''-egress-frontend'') (frontendSelector m) (frontendEgress L m)] @
        [egressWish m (mname m @ ''-egress-backend'') (backendSelector m) (egressCommonRules m)])"
      using implements_chk [OF o implements_delete implements_delete]
        implements_chk [OF o implements_applyObj [OF o lawful_policy(2)] implements_applyObj [OF o lawful_policy(2)]]
      by (simp add: reconcileEgressIsolation_def egressWish_def)
    moreover have "implements own mrg (reconcileResourceQuota L m) [quotaWish m]"
      using implements_applyObj [OF o lawful_setBody(1)] implements_delete
      by (auto simp: reconcileResourceQuota_def quotaWish_def)
    moreover have "implements own mrg (reconcileLimitRange L m) [limitWish m]"
      using implements_applyObj [OF o lawful_setBody(1)] implements_delete
      by (auto simp: reconcileLimitRange_def limitWish_def split: option.split)
    ultimately show ?thesis
      unfolding reconcileTenancy_def tenancyWishes_def by (intro implements_chk [OF o])
  qed
  show "distinct (map wishKey (tenancyWishes L m))" for L m
    by (auto simp: tenancyWishes_def isolationWish_def egressWish_def quotaWish_def limitWish_def keyOfObj_def split: option.splits)
  show "sparing (tenancyWishes L m)" for L m
    by (auto simp: sparing_def tenancyWishes_def isolationWish_def egressWish_def quotaWish_def limitWish_def keyOfObj_def split: option.splits)
qed

subsection \<open>Services, proxy and Ingress\<close>

definition serviceWish :: "misskey \<Rightarrow> string \<Rightarrow> string \<Rightarrow> servicePort list \<Rightarrow> wish" where
  "serviceWish m name component ports = Present (newObj KService (mnamespace m) name) (setService m component ports)"

definition appServiceWishes :: "libs \<Rightarrow> misskey \<Rightarrow> wish list" where
  "appServiceWishes L m = [serviceWish m (nameApp m) roleApp [servicePortTo ''http'' misskeyPort misskeyPort]]"

lemma service_key [simp]: "wishKey (serviceWish m n c ports) = (KService, mnamespace m, n)"
  by (simp add: serviceWish_def keyOfObj_def)

lemma lawful_service: "lawful (serviceWish m n c ports)"
  by (simp add: lawfulChange_def serviceWish_def setService_def setBody_def withLabels_def setOwners_def keyOfObj_def serviceOf_def)

lemma implements_service:
  assumes "serverLaws L m own mrg"
  shows "implements own mrg (applyObj L m (newObj KService (mnamespace m) n) (\<lambda>svc. ret (setService m c ports svc))) [serviceWish m n c ports]"
  using implements_applyObj [OF assms lawful_service [unfolded serviceWish_def]] by (simp add: serviceWish_def)

interpretation appService: declared reconcileAppService appServiceWishes
  by unfold_locales (simp_all add: reconcileAppService_def appServiceWishes_def implements_service sparing_def)

definition absentAll :: "misskey \<Rightarrow> string \<Rightarrow> kind list \<Rightarrow> wish list" where
  "absentAll m name ks = map (\<lambda>k. Absent (k, mnamespace m, name)) ks"

definition pdbWish :: "misskey \<Rightarrow> string \<Rightarrow> wish" where
  "pdbWish m component = Present (newObj KPodDisruptionBudget (mnamespace m) (mname m @ ''-'' @ component)) (\<lambda>pdb.
     setBody (BPDB \<lparr>pdb_maxUnavailable = 1, pdb_selector = selectorFor m component\<rparr>) (withLabels (labelsFor m component) pdb))"

definition proxyWishes :: "libs \<Rightarrow> misskey \<Rightarrow> wish list" where
  "proxyWishes L m =
     (let maint = boolOr (ma_enabled (px_maintenance (proxy (spec m)))) True in
      absentAll m (nameMaintenance m) [KDeployment, KService] @
      (if \<not> boolOr (px_enabled (proxy (spec m))) True then
         absentAll m (nameProxy m) [KDeployment, KService, KPodDisruptionBudget] @
         absentAll m (nameMaintenanceHTML m) [KConfigMap]
       else
         [serviceWish m (nameProxy m) ''proxy'' (proxyServicePorts m)] @
         [Present (newObj KDeployment (mnamespace m) (nameProxy m))
            (setDeployment m ''proxy'' (replicasOr (px_replicas (proxy (spec m))) 2) (buildCaddyPodSpec L m maint)
               (checksumAnnotation (proxyChecksumParts m maint)))] @
         [pdbWish m ''proxy''] @
         (if \<not> maint then absentAll m (nameMaintenanceHTML m) [KConfigMap] else [])))"

lemma mset_again: "Kube.mset k v (Kube.mset k v xs) = Kube.mset k v xs"
  by (induction xs) auto

lemma lawful_deployment: "lawful (Present x (setDeployment m c replicas pod (checksumAnnotation parts)))"
  by (auto simp: lawfulChange_def setDeployment_def Let_def setBody_def withLabels_def setOwners_def keyOfObj_def deploymentOf_def
      mmerge_def checksumAnnotation_def mset_again split: option.split)

lemma implements_absent:
  assumes "serverLaws L m own mrg"
  shows "implements own mrg (forE ks (\<lambda>k. deleteIfExists k (mnamespace m) n)) (absentAll m n ks)"
  using implements_forE [OF assms implements_delete, of ks] by (simp add: absentAll_def)

lemma implements_pdb: "serverLaws L m own mrg \<Longrightarrow> implements own mrg (reconcilePDB L m c) [pdbWish m c]"
  unfolding reconcilePDB_def pdbWish_def by (rule implements_applyObj [OF _ lawful_setBody(1)])

interpretation proxyPart: declared reconcileProxy proxyWishes
proof
  show "implements own mrg (reconcileProxy L m) (proxyWishes L m)" if o: "serverLaws L m own mrg" for L m own mrg
  proof -
    have html: "implements own mrg (deleteMaintenanceHTMLConfigMap m) (absentAll m (nameMaintenanceHTML m) [KConfigMap])"
      using implements_delete by (simp add: deleteMaintenanceHTMLConfigMap_def absentAll_def)
    show ?thesis
      unfolding reconcileProxy_def proxyWishes_def Let_def deleteLegacyMaintenanceWorkload_def deleteProxyResources_def
      by (intro implements_chk [OF o] implements_if implements_whenE implements_absent [OF o] html implements_pdb [OF o] implements_service [OF o]
          implements_applyObj [OF o lawful_deployment])
  qed
  show "distinct (map wishKey (proxyWishes L m))" for L m
    by (auto simp: proxyWishes_def Let_def absentAll_def serviceWish_def pdbWish_def keyOfObj_def nameProxy_def
        nameMaintenance_def nameMaintenanceHTML_def)
  show "sparing (proxyWishes L m)" for L m
    by (auto simp: sparing_def proxyWishes_def Let_def absentAll_def serviceWish_def pdbWish_def keyOfObj_def)
qed

definition ingressWishes :: "libs \<Rightarrow> misskey \<Rightarrow> wish list" where
  "ingressWishes L m =
     (let c = stringOr (ig_className (ingress (spec m))) ''nginx'' in
      if \<not> boolOr (ig_enabled (ingress (spec m))) True then [Absent (KIngress, mnamespace m, mname m)]
      else [Present (newObj KIngress (mnamespace m) (mname m)) (\<lambda>ing.
        setBody (BIngress (buildIngressSpec m (resolve m) c))
          (withAnnotations (ingressAnnotations m c) (withLabels (labelsFor m ''ingress'') ing)))])"

interpretation ingressPart: declared "\<lambda>L m. reconcileIngress L m (resolve m)" ingressWishes
proof
  show "implements own mrg (reconcileIngress L m (resolve m)) (ingressWishes L m)" if o: "serverLaws L m own mrg" for L m own mrg
    unfolding reconcileIngress_def ingressWishes_def Let_def
    by (intro implements_if implements_delete implements_applyObj [OF o lawful_setBody(2)])
  show "distinct (map wishKey (ingressWishes L m))" for L m
    by (simp add: ingressWishes_def Let_def)
  show "sparing (ingressWishes L m)" for L m by (simp add: sparing_def ingressWishes_def Let_def keyOfObj_def)
qed

subsection \<open>Database\<close>

definition postgresWishes :: "libs \<Rightarrow> misskey \<Rightarrow> wish list" where
  "postgresWishes L m =
     [Applied (buildDBCluster L m)] @
     (case pg_backup (postgres (spec m)) of
        None \<Rightarrow> []
      | Some b \<Rightarrow> if bk_schedule b = [] then [] else [Applied (buildDBScheduledBackup m b)])"

definition poolerWishes :: "libs \<Rightarrow> misskey \<Rightarrow> wish list" where
  "poolerWishes L m =
     (let absent = (\<lambda>n. [Absent (KCnpgPooler, mnamespace m, n)]) in
      case pg_pooler (postgres (spec m)) of
        Some pc \<Rightarrow> [Applied (buildPooler L m pc (nameDBPoolerRW m) ''rw'')] @
          (if readOffloadActive m then [Applied (buildPooler L m pc (nameDBPoolerRO m) ''ro'')] else absent (nameDBPoolerRO m))
      | None \<Rightarrow> absent (nameDBPoolerRW m) @ absent (nameDBPoolerRO m))"

lemma cnpg_object_keys [simp]:
  "keyOfObj (buildDBCluster L m) = (KCnpgCluster, mnamespace m, nameDB m)"
  "keyOfObj (buildDBScheduledBackup m b) = (KCnpgScheduledBackup, mnamespace m, nameDB m)"
  "keyOfObj (buildPooler L m pc n t) = (KCnpgPooler, mnamespace m, n)"
  by (simp_all add: keyOfObj_def buildDBCluster_def buildDBScheduledBackup_def buildPooler_def cnpgObject_def Let_def)

interpretation database: declared reconcilePostgres postgresWishes
proof
  show "implements own mrg (reconcilePostgres L m) (postgresWishes L m)" if o: "serverLaws L m own mrg" for L m own mrg
    unfolding reconcilePostgres_def postgresWishes_def
    by (intro implements_chk [OF o] implements_option implements_if implements_ret implements_applySSA [OF o])
  show "distinct (map wishKey (postgresWishes L m))" for L m
    by (cases "pg_backup (postgres (spec m))") (auto simp: postgresWishes_def)
  show "sparing (postgresWishes L m)" for L m
    by (cases "pg_backup (postgres (spec m))") (auto simp: sparing_def postgresWishes_def)
qed

interpretation poolers: declared reconcilePoolers poolerWishes
proof
  show "implements own mrg (reconcilePoolers L m) (poolerWishes L m)" if o: "serverLaws L m own mrg" for L m own mrg
    unfolding reconcilePoolers_def poolerWishes_def deletePooler_def Let_def
    by (cases "pg_pooler (postgres (spec m))")
       (auto simp del: append.simps intro!: implements_chk [OF o] implements_if implements_applySSA [OF o] implements_delete)
  show "distinct (map wishKey (poolerWishes L m))" for L m
    by (simp add: poolerWishes_def nameDBPoolerRW_def nameDBPoolerRO_def Let_def split: option.split)
  show "sparing (poolerWishes L m)" for L m
    by (cases "pg_pooler (postgres (spec m))") (auto simp: sparing_def poolerWishes_def Let_def)
qed

text \<open>
  The schedule is never wished away: when it is removed from the spec, the ScheduledBackup stays
  as it is.
\<close>

lemma schedule_left_behind:
  "(case pg_backup (postgres (spec m)) of None \<Rightarrow> True | Some b \<Rightarrow> bk_schedule b = []) \<Longrightarrow>
     realise own mrg (postgresWishes L m) w (KCnpgScheduledBackup, mnamespace m, nameDB m) =
       w (KCnpgScheduledBackup, mnamespace m, nameDB m)"
  by (rule realise_frame, cases "pg_backup (postgres (spec m))") (auto simp: postgresWishes_def)

subsection \<open>Monitoring\<close>

definition monitorWish :: "misskey \<Rightarrow> bool \<Rightarrow> kobj \<Rightarrow> wish" where
  "monitorWish m on x = (if on then Applied x else Absent (ko_kind x, mnamespace m, kname x))"

definition redisMonitorWishes :: "libs \<Rightarrow> misskey \<Rightarrow> wish list" where
  "redisMonitorWishes L m =
     (let insts = (if monitoringEnabled m then managedRedisInstances L m else []);
          desired = map (\<lambda>i. nameRedisInstance m (ri_suffix i) @ ''-metrics'') insts in
      concat (map (\<lambda>i. [Applied (redisMonitor m i)]) insts) @
      concat (map (\<lambda>s. let name = nameRedisInstance m s @ ''-metrics'' in
        if name \<in> set desired then []
        else [Absent (KServiceMonitor, mnamespace m, name)] @ [Absent (KPodMonitor, mnamespace m, name)]) allRedisSuffixes))"

definition monitoringWishes :: "libs \<Rightarrow> misskey \<Rightarrow> wish list" where
  "monitoringWishes L m =
     (let p = resolve m; on = monitoringEnabled m in
      [monitorWish m (on \<and> dbManaged p)
        (buildPodMonitor m (nameDB m @ ''-metrics'') ''postgres'' [(''cnpg.io/cluster'', nameDB m)] ''metrics'' None)] @
      [monitorWish m (on \<and> meiliManaged p)
        (buildServiceMonitor m (nameMeili m @ ''-metrics'') ''meilisearch'' (selectorFor m ''meilisearch'') ''http'' ''/metrics''
          (Some (sel_name (meiliKeySel p), sel_key (meiliKeySel p))))] @
      [monitorWish m (on \<and> boolOr (px_enabled (proxy (spec m))) True)
        (buildServiceMonitor m (nameProxy m @ ''-metrics'') ''proxy'' (selectorFor m ''proxy'') ''metrics'' ''/metrics'' None)] @
      redisMonitorWishes L m @
      [case buildPrometheusRule m of
         Some rule \<Rightarrow> if on \<and> monitoringRulesEnabled m then Applied rule
                      else Absent (KPrometheusRule, mnamespace m, mname m @ ''-alerts'')
       | None \<Rightarrow> Absent (KPrometheusRule, mnamespace m, mname m @ ''-alerts'')])"

lemma implements_monitor:
  assumes "serverLaws L m own mrg"
  shows "implements own mrg (applyOrDelete L m on x) [monitorWish m on x]"
  using implements_applySSA [OF assms] implements_delete by (simp add: applyOrDelete_def monitorWish_def)

lemma implements_redisMonitors:
  assumes "serverLaws L m own mrg"
  shows "implements own mrg (redisMonitors L m) (redisMonitorWishes L m)"
  unfolding redisMonitors_def redisMonitorWishes_def Let_def
  by (intro implements_chk [OF assms] implements_forE [OF assms] implements_if implements_ret implements_delete implements_applySSA [OF assms])

lemma distinct_via:
  assumes "distinct (map g xs)" "\<And>x y. f x = f y \<Longrightarrow> g x = g y"
  shows "distinct (map f xs)"
proof -
  have "distinct xs" "inj_on g (set xs)" using assms(1) by (auto simp: distinct_map)
  with assms(2) show ?thesis unfolding distinct_map inj_on_def by blast
qed

lemma distinct_concat_map:
  assumes "distinct xs" "\<And>x. distinct (f x)" "\<And>x y. x \<noteq> y \<Longrightarrow> set (f x) \<inter> set (f y) = {}"
  shows "distinct (concat (map f xs))"
  using assms(1)
proof (induction xs)
  case (Cons a xs)
  have "set (f a) \<inter> set (f b) = {}" if "b \<in> set xs" for b using that Cons.prems assms(3) [of a b] by auto
  with Cons assms(2) show ?case by auto
qed simp

lemma metrics_name_inj [simp]: "nameRedisInstance m s = nameRedisInstance m s' \<longleftrightarrow> s = s'"
  by (simp add: nameRedisInstance_def)

lemma redis_name_apart [simp]:
  "nameDB m \<noteq> nameRedisInstance m s" "nameMeili m \<noteq> nameRedisInstance m s" "nameProxy m \<noteq> nameRedisInstance m s"
  by (simp_all add: nameRedisInstance_def nameRedis_def nameDB_def nameMeili_def nameProxy_def)

lemma redisMonitor_keys:
  "distinct (map wishKey (redisMonitorWishes L m))"
  "d \<in> set (redisMonitorWishes L m) \<Longrightarrow> \<exists>k s. k \<in> {KServiceMonitor, KPodMonitor} \<and> wishKey d = (k, mnamespace m, nameRedisInstance m s @ ''-metrics'')"
proof -
  let ?N = "\<lambda>s. nameRedisInstance m s @ ''-metrics''"
  define insts where "insts = (if monitoringEnabled m then managedRedisInstances L m else [])"
  have key: "keyOfObj (redisMonitor m i) = (if ri_ha i then KPodMonitor else KServiceMonitor, mnamespace m, ?N (ri_suffix i))" for i
    by (simp add: keyOfObj_def)
  have ws: "redisMonitorWishes L m = map (\<lambda>i. Applied (redisMonitor m i)) insts @
      concat (map (\<lambda>s. if s \<in> ri_suffix ` set insts then []
        else [Absent (KServiceMonitor, mnamespace m, ?N s), Absent (KPodMonitor, mnamespace m, ?N s)]) allRedisSuffixes)"
    unfolding redisMonitorWishes_def insts_def [symmetric] Let_def by (simp add: image_iff cong: if_cong)
  have "distinct (map (\<lambda>i. keyOfObj (redisMonitor m i)) insts)"
    by (rule distinct_via [of ri_suffix]) (auto simp: insts_def key managed_suffixes(2))
  moreover have "distinct allRedisSuffixes" by (simp add: allRedisSuffixes_def redisRoleDescs_def)
  then have "distinct (concat (map (\<lambda>s. if s \<in> ri_suffix ` set insts then []
        else [(KServiceMonitor, mnamespace m, ?N s), (KPodMonitor, mnamespace m, ?N s)]) allRedisSuffixes))"
    by (rule distinct_concat_map) auto
  ultimately show "distinct (map wishKey (redisMonitorWishes L m))"
    unfolding ws by (auto simp: map_concat comp_def if_distrib key cong: if_cong split: if_splits)
  show "\<exists>k s. k \<in> {KServiceMonitor, KPodMonitor} \<and> wishKey d = (k, mnamespace m, ?N s)"
    if "d \<in> set (redisMonitorWishes L m)"
    using that unfolding ws by (auto simp: key split: if_splits)
qed

lemma monitor_wish_keys [simp]:
  "wishKey (monitorWish m on (buildPodMonitor m n c sel pt au)) = (KPodMonitor, mnamespace m, n)"
  "wishKey (monitorWish m on (buildServiceMonitor m n c sel pt pa au)) = (KServiceMonitor, mnamespace m, n)"
  by (simp_all add: monitorWish_def keyOfObj_def buildPodMonitor_def buildServiceMonitor_def)

lemma rule_key:
  "wishKey (case buildPrometheusRule m of
      Some rule \<Rightarrow> if on then Applied rule else Absent (KPrometheusRule, mnamespace m, mname m @ ''-alerts'')
    | None \<Rightarrow> Absent (KPrometheusRule, mnamespace m, mname m @ ''-alerts'')) = (KPrometheusRule, mnamespace m, mname m @ ''-alerts'')"
  by (auto simp: buildPrometheusRule_def keyOfObj_def Let_def)

interpretation monitoringPart: declared "\<lambda>L m. reconcileMonitoring L m (resolve m)" monitoringWishes
proof
  show "implements own mrg (reconcileMonitoring L m (resolve m)) (monitoringWishes L m)" if o: "serverLaws L m own mrg" for L m own mrg
  proof -
    have rule: "implements own mrg (case buildPrometheusRule m of
        Some rule \<Rightarrow> if b then applySSA L m rule else deleteIfExists KPrometheusRule (mnamespace m) (mname m @ ''-alerts'')
      | None \<Rightarrow> deleteIfExists KPrometheusRule (mnamespace m) (mname m @ ''-alerts''))
      [case buildPrometheusRule m of
        Some rule \<Rightarrow> if b then Applied rule else Absent (KPrometheusRule, mnamespace m, mname m @ ''-alerts'')
      | None \<Rightarrow> Absent (KPrometheusRule, mnamespace m, mname m @ ''-alerts'')]" for b
      using implements_applySSA [OF o] implements_delete by (simp split: option.split)
    show ?thesis
      unfolding reconcileMonitoring_def monitoringWishes_def Let_def
      by (intro implements_chk [OF o] implements_monitor [OF o] implements_redisMonitors [OF o] rule)
  qed
  show "distinct (map wishKey (monitoringWishes L m))" for L m
    using redisMonitor_keys(1) [of L m]
    by (auto simp: monitoringWishes_def Let_def rule_key dest!: redisMonitor_keys(2)) (simp add: nameMeili_def nameProxy_def)
  show "sparing (monitoringWishes L m)" for L m
    by (auto simp: sparing_def monitoringWishes_def Let_def rule_key dest!: redisMonitor_keys(2))
qed

subsection \<open>App and worker\<close>

text \<open>What a program that only reads Secrets answers in a given state.\<close>

abbreviation secretRead :: "req \<Rightarrow> bool" where
  "secretRead q \<equiv> (\<exists>ns n. q = QGet KSecret ns n)"

definition peek :: "cluster \<Rightarrow> 'a io \<Rightarrow> 'a" where
  "peek w p = fst (exec (apiServer (\<lambda>x _. x) (\<lambda>q w. (ROk, w))) p w)"

lemma exec_peek: "calls secretRead p \<Longrightarrow> exec (apiServer mrg other) p w = (peek w p, w)"
  unfolding peek_def by (induction p) auto

lemma peek_secrets: "calls secretRead p \<Longrightarrow> sameSecrets w v \<Longrightarrow> peek w p = peek v p"
  unfolding peek_def by (induction p) (auto simp: sameSecrets_def)

lemma peek_chk [simp]:
  "calls secretRead p \<Longrightarrow> peek w (chk p f) = (case peek w p of Inl e \<Rightarrow> Inl e | Inr a \<Rightarrow> peek w (f a))"
  "calls secretRead q \<Longrightarrow> peek w (bnd q g) = peek w (g (peek w q))"
  "peek w (Ret a) = a"
proof -
  show "peek w (chk p f) = (case peek w p of Inl e \<Rightarrow> Inl e | Inr a \<Rightarrow> peek w (f a))" if "calls secretRead p"
    using exec_peek [OF that, of "\<lambda>x _. x" "\<lambda>q w. (ROk, w)" w] unfolding peek_def [of w "chk p f"] peek_def [of w "f a" for a]
    by (simp split: sum.split)
  show "peek w (bnd q g) = peek w (g (peek w q))" if "calls secretRead q"
    using exec_peek [OF that, of "\<lambda>x _. x" "\<lambda>q w. (ROk, w)" w] unfolding peek_def [of w "bnd q g"] peek_def [of w "g a" for a] by simp
qed (simp add: peek_def)

definition checksumIn :: "misskey \<Rightarrow> plan \<Rightarrow> cluster \<Rightarrow> strmap" where
  "checksumIn m p w = (case peek w (misskeyChecksum m p) of Inr cs \<Rightarrow> cs | Inl _ \<Rightarrow> [])"

definition podsWish :: "misskey \<Rightarrow> plan \<Rightarrow> string \<Rightarrow> string \<Rightarrow> componentSpec \<Rightarrow> scaleConfig option \<Rightarrow> podSpec \<Rightarrow> wish" where
  "podsWish m p role name co sc pod = Derived (newObj KDeployment (mnamespace m) name)
     (\<lambda>w dep. setDeployment m role (resumeReplicas co sc dep) pod (checksumIn m p w) dep)"

definition autoscalerWishes :: "misskey \<Rightarrow> string \<Rightarrow> string \<Rightarrow> scaleConfig option \<Rightarrow> plan \<Rightarrow> wish list" where
  "autoscalerWishes m component t a p =
     (let gone = (\<lambda>k n. [Absent (k, mnamespace m, n)]); hpa = gone KHorizontalPodAutoscaler t;
          auth = gone KTriggerAuthentication (nameTriggerAuth t); keda = gone KScaledObject t @ auth; ep = jobQueueEndpoint p in
      case a of
        None \<Rightarrow> hpa @ keda
      | Some a \<Rightarrow>
          if autoscalingUsesKEDA a then
            hpa @ (case re_passSel ep of
                Some sel \<Rightarrow> if length (sc_queues a) > 0 then [Applied (buildTriggerAuth m t ep sel)] else auth
              | None \<Rightarrow> auth) @ [Applied (buildScaledObject m component t a ep)]
          else keda @ [Present (newObj KHorizontalPodAutoscaler (mnamespace m) t)
            (\<lambda>hpa. setBody (BHPA (buildHPASpec t a)) (withLabels (labelsFor m component) hpa))])"

definition appWishes :: "libs \<Rightarrow> misskey \<Rightarrow> wish list" where
  "appWishes L m =
     (let p = resolve m; co = ap_component (app (spec m)); sc = appScaleConfig (ap_autoscaling (app (spec m))) in
      [podsWish m p roleApp (nameApp m) co sc (buildMisskeyPodSpec L m p roleApp co)] @ [pdbWish m roleApp] @
      autoscalerWishes m roleApp (nameApp m) sc p)"

definition workerWishes :: "libs \<Rightarrow> misskey \<Rightarrow> wish list" where
  "workerWishes L m =
     (let p = resolve m; co = wk_component (worker (spec m)); sc = workerScaleConfig (wk_autoscaling (worker (spec m))) in
      [podsWish m p roleWorker (nameWorker m) co sc (buildMisskeyPodSpec L m p roleWorker co)] @ [pdbWish m roleWorker] @
      autoscalerWishes m roleWorker (nameWorker m) sc p)"

text \<open>
  A missing Secret is a version of its own (\<^verbatim>\<open>:missing\<close>), so on a cluster that answers the checksum
  is always computed.
\<close>

lemma peek_version: "wellKeyed w \<Longrightarrow> \<exists>v. peek w (secretVersion ns n) = Inr v"
proof (cases "w (KSecret, ns, n)")
  case None
  then show ?thesis by (simp add: peek_def secretVersion_def kget_def asObjAt_def)
next
  case (Some x)
  moreover assume "wellKeyed w"
  ultimately have "atKey KSecret ns n x" using wellKeyedD [of w "(KSecret, ns, n)" x] by (simp add: atKey_def keyOfObj_def)
  with Some show ?thesis by (simp add: peek_def secretVersion_def kget_def asObjAt_def)
qed

lemma peek_versions: "wellKeyed w \<Longrightarrow> \<exists>vs. peek w (secretVersions ns names) = Inr vs"
proof (induction names)
  case (Cons n names)
  obtain v where "peek w (secretVersion ns n) = Inr v" using peek_version [OF Cons.prems] by blast
  moreover obtain vs where "peek w (secretVersions ns names) = Inr vs" using Cons by blast
  ultimately show ?case by (simp add: secretVersion_calls secretVersions_calls)
qed simp

lemma peek_checksum:
  assumes "wellKeyed w"
  shows "\<exists>ps. peek w (misskeyChecksum m p) = Inr (checksumAnnotation ps)"
proof -
  obtain vs where "peek w (referencedSecretVersions m p) = Inr vs"
    using peek_versions [OF assms, of "mnamespace m" "referencedSecretNames p"]
    by (auto simp: referencedSecretVersions_def secretVersions_calls)
  moreover obtain h where "peek w (sensitiveDetectorConfigHash m p (renderSensitiveDetectorConfigSQL m)) = Inr h"
    using peek_version [OF assms, of "mnamespace m" "sel_name (dbPassSel (migratePlan m p))"]
      peek_version [OF assms, of "mnamespace m" "sel_name (sensitiveDetectorAPIKeySel p)"]
    by (cases "sensitiveDetector (spec m)") (auto simp: sensitiveDetectorConfigHash_def Let_def secretVersion_calls)
  moreover have hash: "calls secretRead (chk (sensitiveDetectorConfigHash m p sql) (\<lambda>h. Ret (Inr [h])))" for sql
    by (intro calls_intros sensitiveDetectorConfigHash_calls) auto
  moreover have store: "calls secretRead (bnd (objectStorageHash m p sql as) (\<lambda>h. Ret [h]))" for sql as
    by (intro calls_intros objectStorageHash_calls) auto
  ultimately show ?thesis
    by (auto simp: misskeyChecksum_def referencedSecretVersions_calls sensitiveDetectorConfigHash_calls split: sum.split)
qed

lemma checksum_reads: "calls secretRead (misskeyChecksum m p)"
  by (rule misskeyChecksum_calls) blast

lemma checksum_runs: "runs (misskeyChecksum m p) tr (Inr cs) \<Longrightarrow> \<exists>ps. cs = checksumAnnotation ps"
  unfolding misskeyChecksum_def by (auto simp: runs_chk_Inr runs_bnd)

lemma checksum_again: "mmerge (mmerge xs (checksumIn m p w)) (checksumIn m p w) = mmerge xs (checksumIn m p w)"
proof (cases "peek w (misskeyChecksum m p)")
  case (Inr cs)
  then have "\<exists>ps. cs = checksumAnnotation ps" using checksum_runs exec_runs unfolding peek_def by metis
  with Inr show ?thesis by (auto simp: checksumIn_def mmerge_def checksumAnnotation_def mset_again)
qed (simp add: checksumIn_def mmerge_def)

lemma resume_again:
  "resumeReplicas co a (setDeployment m c (resumeReplicas co a y) pod anns y) \<in> {None, resumeReplicas co a y}"
  by (auto simp: resumeReplicas_def staticReplicas_def setDeployment_def Let_def setBody_def withLabels_def deploymentOf_def split: option.splits)

lemma lawful_pods: "lawful (podsWish m p role name co sc pod)"
proof -
  let ?f = "\<lambda>w dep. setDeployment m role (resumeReplicas co sc dep) pod (checksumIn m p w) dep"
  have "?f w (?f w y) = ?f w y" for w y
  proof -
    let ?cs = "checksumIn m p w" and ?r = "resumeReplicas co sc y"
    have again: "setDeployment m role r pod ?cs (setDeployment m role ?r pod ?cs y) = setDeployment m role ?r pod ?cs y"
      if "r = None \<or> r = ?r" for r
      using that by (auto simp: setDeployment_def Let_def setBody_def withLabels_def deploymentOf_def checksum_again split: option.split)
    show ?thesis using resume_again [of co sc m role y pod ?cs] by (intro again) auto
  qed
  moreover have "resumeReplicas co sc (setOwners g y) = resumeReplicas co sc y" for g y
    by (auto simp: resumeReplicas_def setOwners_def deploymentOf_def split: option.split)
  then have "?f w (setOwners g y) = setOwners g (?f w y)" for w g y
    by (simp add: setDeployment_def Let_def setBody_def withLabels_def setOwners_def deploymentOf_def)
  moreover have "keyOfObj (?f w y) = keyOfObj y" for w y
    by (simp add: keyOfObj_def setDeployment_def Let_def setBody_def withLabels_def)
  moreover have "checksumIn m p w = checksumIn m p v" if "sameSecrets w v" for w v
    unfolding checksumIn_def peek_secrets [OF checksum_reads that] ..
  ultimately show ?thesis unfolding podsWish_def lawful.simps lawfulChange_def by metis
qed

lemma implements_pods:
  assumes own: "serverLaws L m own mrg"
  shows "implements own mrg (applyObj L m (newObj KDeployment (mnamespace m) name) (\<lambda>dep. chk (misskeyChecksum m p) (\<lambda>cs.
      ret (setDeployment m role (resumeReplicas co sc dep) pod cs dep)))) [podsWish m p role name co sc pod]"
proof -
  let ?x = "newObj KDeployment (mnamespace m) name"
  let ?f = "\<lambda>cs dep. setDeployment m role (resumeReplicas co sc dep) pod cs dep"
  have "exec (apiServer mrg other) (applyObj L m ?x (\<lambda>dep. chk (misskeyChecksum m p) (\<lambda>cs. ret (?f cs dep)))) w =
      exec (apiServer mrg other) (applyObj L m ?x (\<lambda>dep. ret (?f (checksumIn m p w) dep))) w" if w: "wellKeyed w" for other w
  proof -
    have read: "exec (apiServer mrg other) (misskeyChecksum m p) w = (Inr (checksumIn m p w), w)"
      using exec_peek [OF checksum_reads, of mrg other m p w] peek_checksum [OF w, of m p] by (auto simp: checksumIn_def)
    then show ?thesis by (simp add: applyObj_def kfetch_def split: sum.split)
  qed
  moreover have "lawful (Present ?x (?f (checksumIn m p w)))" for w using lawful_pods unfolding podsWish_def by simp
  note implements_applyObj [OF own this]
  ultimately have "exec (apiServer mrg other) (applyObj L m ?x (\<lambda>dep. chk (misskeyChecksum m p) (\<lambda>cs. ret (?f cs dep)))) w =
      (Inr (), realise own mrg [Present ?x (?f (checksumIn m p w))] w)" if "wellKeyed w" for other w
    using that by (simp add: implements_def)
  with lawful_pods show ?thesis by (simp add: implements_def podsWish_def grant_def)
qed

lemma implements_autoscaler:
  assumes o: "serverLaws L m own mrg"
  shows "implements own mrg (reconcileAutoscaler L m c t a p) (autoscalerWishes m c t a p)"
  unfolding reconcileAutoscaler_def reconcileScaledObject_def autoscalerWishes_def deleteHPA_def deleteScaledObject_def deleteTriggerAuth_def Let_def
  by (intro implements_chk [OF o] implements_option implements_if implements_delete implements_applySSA [OF o]
      implements_applyObj [OF o lawful_setBody(1)])

lemma workload_wish_keys [simp]:
  "wishKey (podsWish m p role name co sc pod) = (KDeployment, mnamespace m, name)"
  "wishKey (pdbWish m c) = (KPodDisruptionBudget, mnamespace m, mname m @ ''-'' @ c)"
  by (simp_all add: podsWish_def pdbWish_def keyOfObj_def)

lemma autoscaler_keys:
  "distinct (map wishKey (autoscalerWishes m c t a p))"
  "d \<in> set (autoscalerWishes m c t a p) \<Longrightarrow>
     wishKey d \<in> {(KHorizontalPodAutoscaler, mnamespace m, t), (KScaledObject, mnamespace m, t), (KTriggerAuthentication, mnamespace m, nameTriggerAuth t)}"
proof -
  have auth: "kname (buildTriggerAuth m t ep sel) = nameTriggerAuth t" for ep sel by (simp add: buildTriggerAuth_def Let_def)
  show "distinct (map wishKey (autoscalerWishes m c t a p))"
    by (auto simp: autoscalerWishes_def Let_def keyOfObj_def auth split: option.split)
  show "wishKey d \<in> {(KHorizontalPodAutoscaler, mnamespace m, t), (KScaledObject, mnamespace m, t), (KTriggerAuthentication, mnamespace m, nameTriggerAuth t)}"
    if "d \<in> set (autoscalerWishes m c t a p)"
    using that by (auto simp: autoscalerWishes_def Let_def keyOfObj_def auth split: option.splits if_splits)
qed

interpretation appPart: declared "\<lambda>L m. reconcileApp L m (resolve m)" appWishes
proof
  show "implements own mrg (reconcileApp L m (resolve m)) (appWishes L m)" if o: "serverLaws L m own mrg" for L m own mrg
    unfolding reconcileApp_def appWishes_def Let_def
    by (intro implements_chk [OF o] implements_pods [OF o] implements_pdb [OF o] implements_autoscaler [OF o])
  show "distinct (map wishKey (appWishes L m))" for L m
    by (auto simp: appWishes_def Let_def autoscaler_keys(1) dest!: autoscaler_keys(2))
  show "sparing (appWishes L m)" for L m by (auto simp: sparing_def appWishes_def Let_def dest!: autoscaler_keys(2))
qed

interpretation workerPart: declared "\<lambda>L m. reconcileWorker L m (resolve m)" workerWishes
proof
  show "implements own mrg (reconcileWorker L m (resolve m)) (workerWishes L m)" if o: "serverLaws L m own mrg" for L m own mrg
    unfolding reconcileWorker_def workerWishes_def Let_def
    by (intro implements_chk [OF o] implements_pods [OF o] implements_pdb [OF o] implements_autoscaler [OF o])
  show "distinct (map wishKey (workerWishes L m))" for L m
    by (auto simp: workerWishes_def Let_def autoscaler_keys(1) dest!: autoscaler_keys(2))
  show "sparing (workerWishes L m)" for L m by (auto simp: sparing_def workerWishes_def Let_def dest!: autoscaler_keys(2))
qed

subsection \<open>The parts together\<close>

type_synonym partWithWishes = "(libs \<Rightarrow> misskey \<Rightarrow> (error + unit) io) \<times> (libs \<Rightarrow> misskey \<Rightarrow> wish list)"

definition declaredParts :: "partWithWishes list" where
  "declaredParts =
     [(\<lambda>L m. reconcileConfigMaps L m (resolve m), configWishes), (reconcileTenancy, tenancyWishes),
      (reconcileAppService, appServiceWishes), (reconcileProxy, proxyWishes),
      (\<lambda>L m. reconcileIngress L m (resolve m), ingressWishes), (reconcilePostgres, postgresWishes),
      (reconcilePoolers, poolerWishes), (\<lambda>L m. reconcileMonitoring L m (resolve m), monitoringWishes),
      (\<lambda>L m. reconcileApp L m (resolve m), appWishes), (\<lambda>L m. reconcileWorker L m (resolve m), workerWishes)]"

definition wishesOf :: "libs \<Rightarrow> misskey \<Rightarrow> partWithWishes list \<Rightarrow> wish list" where
  "wishesOf L m ps = concat (map (\<lambda>d. snd d L m) ps)"

lemma declared_each: "d \<in> set declaredParts \<Longrightarrow> declared (fst d) (snd d)"
  using config.declared_axioms tenancy.declared_axioms appService.declared_axioms proxyPart.declared_axioms
    ingressPart.declared_axioms database.declared_axioms poolers.declared_axioms monitoringPart.declared_axioms
    appPart.declared_axioms workerPart.declared_axioms
  unfolding declaredParts_def by auto

text \<open>Every key belongs to one part.\<close>

definition partOf :: "misskey \<Rightarrow> objKey \<Rightarrow> nat" where
  "partOf m = (\<lambda>(k, ns, n).
     let page = boolOr (px_enabled (proxy (spec m))) True \<and> boolOr (ma_enabled (px_maintenance (proxy (spec m)))) True in
     if k = KConfigMap then (if n = nameMaintenanceHTML m \<and> \<not> page then 3 else 0)
     else if k \<in> {KNetworkPolicy, KResourceQuota, KLimitRange} then 1
     else if k = KService then (if n = nameApp m then 2 else 3)
     else if k = KIngress then 4
     else if k \<in> {KCnpgCluster, KCnpgScheduledBackup} then 5
     else if k = KCnpgPooler then 6
     else if k \<in> {KPodMonitor, KServiceMonitor, KPrometheusRule} then 7
     else if n \<in> {nameApp m, nameTriggerAuth (nameApp m)} then 8
     else if n \<in> {nameWorker m, nameTriggerAuth (nameWorker m)} then 9 else 3)"

lemma distinct_classified:
  assumes "list_all2 (\<lambda>d i. \<forall>x\<in>set (f d). c x = i) ds js" "distinct js" "\<And>d. d \<in> set ds \<Longrightarrow> distinct (f d)"
  shows "distinct (concat (map f ds)) \<and> c ` set (concat (map f ds)) \<subseteq> set js"
  using assms
proof (induction rule: list_all2_induct)
  case (Cons d ds i js)
  then have IH: "distinct (concat (map f ds))" "c ` set (concat (map f ds)) \<subseteq> set js" by simp_all
  have "i \<notin> set js" using Cons.prems(1) by simp
  moreover have d: "c x = i" if "x \<in> set (f d)" for x using Cons.hyps(1) that by simp
  moreover have "c x \<in> set js" if "x \<in> set (concat (map f ds))" for x using IH(2) imageI [OF that, of c] by (rule subsetD)
  ultimately have "set (f d) \<inter> set (concat (map f ds)) = {}" by (metis disjoint_iff)
  with IH Cons.prems(2) [of d] have "distinct (concat (map f (d # ds)))" by simp
  moreover have "c ` set (concat (map f (d # ds))) \<subseteq> set (i # js)" using IH(2) d unfolding list.map concat.simps set_append by auto
  ultimately show ?case ..
qed simp

lemma part_of_keys:
  "list_all2 (\<lambda>d i. \<forall>k\<in>wishKey ` set (snd d L m). partOf m k = i) declaredParts [0, 1, 2, 3, 4, 5, 6, 7, 8, 9]"
proof -
  note names = nameApp_def nameWorker_def nameProxy_def nameMaintenance_def nameMaintenanceHTML_def nameConfig_def nameMigrateConfig_def
    nameTriggerAuth_def
  have "\<forall>d\<in>set (configWishes L m). partOf m (wishKey d) = 0"
    by (auto simp: configWishes_def partOf_def Let_def names)
  moreover have "\<forall>d\<in>set (tenancyWishes L m). partOf m (wishKey d) = 1"
    by (auto simp: tenancyWishes_def isolationWish_def egressWish_def quotaWish_def limitWish_def keyOfObj_def partOf_def split: option.splits)
  moreover have "\<forall>d\<in>set (proxyWishes L m). partOf m (wishKey d) = 3"
    by (auto simp: proxyWishes_def absentAll_def keyOfObj_def partOf_def Let_def names)
  moreover have "\<forall>d\<in>set (ingressWishes L m). partOf m (wishKey d) = 4"
    by (simp add: ingressWishes_def Let_def keyOfObj_def partOf_def)
  moreover have "\<forall>d\<in>set (postgresWishes L m). partOf m (wishKey d) = 5"
    by (cases "pg_backup (postgres (spec m))") (auto simp: postgresWishes_def partOf_def)
  moreover have "\<forall>d\<in>set (poolerWishes L m). partOf m (wishKey d) = 6"
    by (cases "pg_pooler (postgres (spec m))") (auto simp: poolerWishes_def Let_def partOf_def)
  moreover have "\<forall>d\<in>set (monitoringWishes L m). partOf m (wishKey d) = 7"
    by (auto simp: monitoringWishes_def Let_def rule_key partOf_def dest!: redisMonitor_keys(2))
  moreover have "\<forall>d\<in>set (appWishes L m). partOf m (wishKey d) = 8"
    by (auto simp: appWishes_def Let_def partOf_def names roleApp_def dest!: autoscaler_keys(2))
  moreover have "\<forall>d\<in>set (workerWishes L m). partOf m (wishKey d) = 9"
    by (auto simp: workerWishes_def Let_def partOf_def names roleWorker_def dest!: autoscaler_keys(2))
  ultimately show ?thesis by (simp add: declaredParts_def appServiceWishes_def partOf_def)
qed

lemma all_apart: "distinct (map wishKey (wishesOf L m declaredParts))"
proof -
  have "distinct (concat (map (\<lambda>d. map wishKey (snd d L m)) declaredParts))"
  proof (rule distinct_classified [THEN conjunct1])
    show "list_all2 (\<lambda>d i. \<forall>x\<in>set (map wishKey (snd d L m)). partOf m x = i) declaredParts [0, 1, 2, 3, 4, 5, 6, 7, 8, 9]"
      using part_of_keys [of L m] by simp
  qed (simp_all add: declared.apart [OF declared_each])
  then show ?thesis by (simp add: wishesOf_def map_concat comp_def)
qed

text \<open>A selection of the parts in any order.\<close>

lemma wishesOf_perm: "Multiset.mset ps = Multiset.mset qs \<Longrightarrow> Multiset.mset (wishesOf L m ps) = Multiset.mset (wishesOf L m qs)"
  unfolding wishesOf_def mset_concat map_map sum_mset_sum_list [symmetric] by simp

lemma selection_apart:
  assumes "Multiset.mset ps \<subseteq># Multiset.mset declaredParts"
  shows "distinct (map wishKey (wishesOf L m ps))"
proof -
  obtain rest where "Multiset.mset declaredParts = Multiset.mset ps + Multiset.mset rest"
    using assms by (metis ex_mset mset_subset_eq_exists_conv)
  then have "Multiset.mset declaredParts = Multiset.mset (ps @ rest)" by simp
  from wishesOf_perm [OF this, of L m]
  have "Multiset.mset (map wishKey (wishesOf L m declaredParts)) = Multiset.mset (map wishKey (wishesOf L m (ps @ rest)))" by simp
  then have "distinct (map wishKey (wishesOf L m (ps @ rest)))" using all_apart [of L m] mset_eq_imp_distinct_iff by blast
  then show ?thesis by (simp add: wishesOf_def)
qed

lemma realise_perm:
  assumes "distinct (map wishKey ws)" "\<forall>d\<in>set ws. lawful d" "sparing ws" "Multiset.mset vs = Multiset.mset ws"
  shows "realise own mrg vs = realise own mrg ws"
proof (intro ext)
  fix w k
  have d: "distinct (map wishKey vs)" using assms by (metis mset_eq_imp_distinct_iff mset_map)
  have s: "set vs = set ws" using assms(4) by (rule mset_eq_setD)
  have "find (\<lambda>d. wishKey d = k) vs = find (\<lambda>d. wishKey d = k) ws"
  proof (cases "find (\<lambda>d. wishKey d = k) ws")
    case None
    with s have "find (\<lambda>d. wishKey d = k) vs = None" unfolding find_None_iff by simp
    with None show ?thesis by simp
  next
    case (Some d)
    then have d': "d \<in> set vs" "wishKey d = k" using s by (auto simp: find_Some_iff)
    then obtain e where e: "find (\<lambda>d. wishKey d = k) vs = Some e" using find_None_iff [of "\<lambda>d. wishKey d = k" vs] by fastforce
    then have "e \<in> set vs" "wishKey e = k" by (auto simp: find_Some_iff)
    with d d' have "e = d" by (metis distinct_map inj_onD)
    with e Some show ?thesis by simp
  qed
  then show "realise own mrg vs w k = realise own mrg ws w k" using assms(2,3) s by (simp add: realise_at assms(1) d sparing_def)
qed


end
