(* ===== verification/Entry.thy ===== *)
theory Entry
  imports Controller Webhook
begin

section \<open>The process entry point (cmd/main.go)\<close>

text \<open>
  \<^verbatim>\<open>main\<close> turns the command line into the options of a controller-runtime manager, registers
  the two controllers and the two webhooks with it, and starts it; any failure ends the process
  with status 1. The manager is not part of the repository, so what \<^verbatim>\<open>main\<close> asks of it is an
  interaction of its own: a request carries everything the source hands over, and the answer is
  an error or nothing. \<^verbatim>\<open>NewDigestResolver\<close> returns a pointer; the allocation is a request
  too, so that sharing one cache between the controllers is visible. The flag values are those
  after \<^verbatim>\<open>flag.Parse\<close> (the logging library adds flags of its own to the same flag set, so
  the parse itself is not modelled).
\<close>

subsection \<open>White space and comma-separated lists\<close>

text \<open>
  \<^verbatim>\<open>strings.TrimSpace\<close>. A byte that starts a rune never continues another, so the runes
  found from the right are those found from the left.
\<close>

definition trimBoth :: "('a \<Rightarrow> bool) \<Rightarrow> 'a list \<Rightarrow> 'a list" where
  "trimBoth P xs = rev (dropWhile P (rev (dropWhile P xs)))"

definition trimSpace :: "string \<Rightarrow> string" where
  "trimSpace s = concat (trimBoth (\<lambda>r. r \<in> set spaceRunes) (runes s))"

definition csvFields :: "string \<Rightarrow> string list" where
  "csvFields s = filter (\<lambda>p. p \<noteq> []) (map trimSpace (splitOn (CHR '','') s))"

definition splitCSV :: "string \<Rightarrow> string list" where
  "splitCSV s = (if trimSpace s = [] then [] else csvFields s)"

subsection \<open>Flags\<close>

record flags =
  fl_watchNamespaces :: string
  fl_allowedImageRegistries :: string
  fl_allowedClusterIssuers :: string
  fl_metricsAddr :: string
  fl_probeAddr :: string
  fl_enableLeaderElection :: bool
  fl_secureMetrics :: bool
  fl_driftResyncInterval :: duration

definition flagDefaults :: flags where
  "flagDefaults = \<lparr>fl_watchNamespaces = [], fl_allowedImageRegistries = [], fl_allowedClusterIssuers = [],
     fl_metricsAddr = '':8443'', fl_probeAddr = '':8081'', fl_enableLeaderElection = False,
     fl_secureMetrics = True, fl_driftResyncInterval = 3 * minute\<rparr>"

subsection \<open>Manager options\<close>

record tlsConfig =
  nextProtos :: "string list"

definition disableHTTP2 :: "tlsConfig \<Rightarrow> tlsConfig" where
  "disableHTTP2 c = c\<lparr>nextProtos := [''http/1.1'']\<rparr>"

datatype filterProvider = WithAuthenticationAndAuthorization

record metricsOptions =
  bindAddress :: string
  secureServing :: bool
  metricsFilter :: "filterProvider option"
  metricsTLS :: "(tlsConfig \<Rightarrow> tlsConfig) list"

definition metricsOpts :: "flags \<Rightarrow> metricsOptions" where
  "metricsOpts fl =
     (let o1 = \<lparr>bindAddress = fl_metricsAddr fl, secureServing = fl_secureMetrics fl, metricsFilter = None,
                 metricsTLS = []\<rparr> in
      if fl_secureMetrics fl then o1\<lparr>metricsFilter := Some WithAuthenticationAndAuthorization\<rparr> else o1)"

text \<open>
  The source sets no \<^verbatim>\<open>TLSOpts\<close> for the metrics server, although the comment above
  \<^verbatim>\<open>disableHTTP2\<close> names it: whatever protocols the library offers there stay on.
\<close>

lemma metrics_keeps_protocols: "fold (\<lambda>f. f) (metricsTLS (metricsOpts fl)) c = c"
  by (simp add: metricsOpts_def Let_def)

text \<open>\<^verbatim>\<open>cache.Config{}\<close> is empty; \<^verbatim>\<open>None\<close> is the nil map of \<^verbatim>\<open>cache.Options{}\<close>.\<close>

definition defaultNamespaces :: "flags \<Rightarrow> (string \<times> unit) list option" where
  "defaultNamespaces fl =
     (if fl_watchNamespaces fl \<noteq> []
      then Some (foldl (\<lambda>defaults ns. let ns = trimSpace ns in if ns \<noteq> [] then Kube.mset ns () defaults else defaults)
                   [] (splitOn (CHR '','') (fl_watchNamespaces fl)))
      else None)"

record managerOptions =
  mgr_metrics :: metricsOptions
  mgr_defaultNamespaces :: "(string \<times> unit) list option"
  mgr_disableFor :: "kind list"
  mgr_webhookTLS :: "(tlsConfig \<Rightarrow> tlsConfig) list"
  mgr_healthProbeBindAddress :: string
  mgr_leaderElection :: bool
  mgr_leaderElectionID :: string

definition managerOpts :: "flags \<Rightarrow> managerOptions" where
  "managerOpts fl = \<lparr>mgr_metrics = metricsOpts fl, mgr_defaultNamespaces = defaultNamespaces fl,
     mgr_disableFor = [KSecret], mgr_webhookTLS = [disableHTTP2],
     mgr_healthProbeBindAddress = fl_probeAddr fl, mgr_leaderElection = fl_enableLeaderElection fl,
     mgr_leaderElectionID = ''cloudnative-misskey.dev''\<rparr>"

subsection \<open>Controllers and webhooks\<close>

type_synonym loc = nat

datatype reconciler =
    MisskeyReconciler (recorder: string) (driftResyncInterval: duration) (digests: loc)
  | MisskeyChannelReconciler (digests: loc)

datatype mapFunc = MisskeysForChannel | ChannelOfMisskey

record controllerSetup =
  cs_for :: kind
  cs_watches :: "(kind \<times> mapFunc) list"
  cs_owns :: "kind list"
  cs_reconciler :: reconciler

definition misskeyController :: "reconciler \<Rightarrow> controllerSetup" where
  "misskeyController r = \<lparr>cs_for = KMisskey, cs_watches = [(KMisskeyChannel, MisskeysForChannel)],
     cs_owns = [KDeployment, KStatefulSet, KJob, KService, KConfigMap, KResourceQuota, KLimitRange,
       KIngress, KNetworkPolicy, KPodDisruptionBudget, KHorizontalPodAutoscaler],
     cs_reconciler = r\<rparr>"

definition channelController :: "reconciler \<Rightarrow> controllerSetup" where
  "channelController r = \<lparr>cs_for = KMisskeyChannel, cs_watches = [(KMisskey, ChannelOfMisskey)],
     cs_owns = [], cs_reconciler = r\<rparr>"

datatype validator =
    MisskeyCustomValidator misskeyCustomValidator
  | MisskeyChannelCustomValidator "string list"

record webhookSetup =
  ws_for :: kind
  ws_defaulter :: "(misskey \<Rightarrow> misskey) option"
  ws_validator :: validator

datatype mgrReq =
    GetConfig
  | NewManager managerOptions
  | NewDigestResolver
  | SetupController controllerSetup
  | SetupWebhook webhookSetup
  | AddHealthzCheck string
  | AddReadyzCheck string
  | Start

datatype mgrResp = MOk | MErr error | MLoc loc

text \<open>Allocating the cache cannot fail; every other call returns an error or nil.\<close>

fun failed :: "mgrReq \<times> mgrResp \<Rightarrow> bool" where
  "failed (NewDigestResolver, r) = False"
| "failed (q, MErr e) = True"
| "failed _ = False"

fun locOf :: "mgrResp \<Rightarrow> loc" where
  "locOf (MLoc l) = l"
| "locOf _ = 0"

text \<open>
  \<^verbatim>\<open>if err := f(); err != nil { os.Exit(1) }\<close>: the process ends with status 1 and nothing
  after the call happens.
\<close>

definition orExit :: "mgrReq \<Rightarrow> (mgrReq, mgrResp, nat) prog \<Rightarrow> (mgrReq, mgrResp, nat) prog" where
  "orExit q rest = Call q (\<lambda>r. if failed (q, r) then Ret 1 else rest)"

definition setupMisskeyWebhookWithManager :: "string list \<Rightarrow> string list \<Rightarrow> webhookSetup" where
  "setupMisskeyWebhookWithManager images issuers = \<lparr>ws_for = KMisskey, ws_defaulter = Some Default,
     ws_validator = MisskeyCustomValidator \<lparr>allowedImageRegistries = images, allowedClusterIssuers = issuers\<rparr>\<rparr>"

definition setupMisskeyChannelWebhookWithManager :: "string list \<Rightarrow> webhookSetup" where
  "setupMisskeyChannelWebhookWithManager images = \<lparr>ws_for = KMisskeyChannel, ws_defaulter = None,
     ws_validator = MisskeyChannelCustomValidator images\<rparr>"

subsection \<open>main\<close>

definition serve :: "(mgrReq, mgrResp, nat) prog" where
  "serve =
     orExit (AddHealthzCheck ''healthz'')
     (orExit (AddReadyzCheck ''readyz'')
     (orExit Start (Ret 0)))"

definition registerWebhooks :: "string \<Rightarrow> flags \<Rightarrow> (mgrReq, mgrResp, nat) prog \<Rightarrow> (mgrReq, mgrResp, nat) prog" where
  "registerWebhooks enableWebhooks fl rest =
     (if enableWebhooks \<noteq> ''false''
      then
        (let imageAllow = splitCSV (fl_allowedImageRegistries fl);
             issuerAllow = splitCSV (fl_allowedClusterIssuers fl) in
         orExit (SetupWebhook (setupMisskeyWebhookWithManager imageAllow issuerAllow))
         (orExit (SetupWebhook (setupMisskeyChannelWebhookWithManager imageAllow)) rest))
      else rest)"

definition main :: "string \<Rightarrow> flags \<Rightarrow> (mgrReq, mgrResp, nat) prog" where
  "main enableWebhooks fl =
     orExit GetConfig
     (orExit (NewManager (managerOpts fl))
     (Call NewDigestResolver (\<lambda>r.
        let digests = locOf r in
        orExit (SetupController (misskeyController
          (MisskeyReconciler ''cloudnative-misskey'' (fl_driftResyncInterval fl) digests)))
        (orExit (SetupController (channelController (MisskeyChannelReconciler digests)))
        (registerWebhooks enableWebhooks fl serve)))))"

subsection \<open>Entries of a comma-separated flag\<close>

lemma set_trimBoth: "set (trimBoth P xs) \<subseteq> set xs"
  unfolding trimBoth_def by (auto dest!: set_dropWhileD)

lemma trimBoth_Nil: "trimBoth P xs = [] \<longleftrightarrow> list_all P xs"
  by (induction xs) (auto simp: trimBoth_def dropWhile_append dropWhile_eq_Nil_conv list_all_iff)

lemma trimSpace_subset: "set (trimSpace s) \<subseteq> set s"
proof -
  have "set (concat (trimBoth P (runes s))) \<subseteq> set (concat (runes s))" for P
    using set_trimBoth [of P "runes s"] by auto
  then show ?thesis by (simp add: trimSpace_def concat_runes)
qed

lemma trimSpace_empty: "trimSpace s = [] \<longleftrightarrow> allSpace s"
proof -
  have "concat (trimBoth P (runes s)) = [] \<longleftrightarrow> trimBoth P (runes s) = []" for P
    using set_trimBoth [of P "runes s"] runes_nonempty [of _ s] by (cases "trimBoth P (runes s)") auto
  then show ?thesis by (simp add: trimSpace_def allSpace_def trimBoth_Nil)
qed

lemma allSpace_no_comma: "allSpace s \<Longrightarrow> CHR '','' \<notin> set s"
proof -
  assume "allSpace s"
  then have "set (concat (runes s)) \<subseteq> \<Union> (set ` set spaceRunes)"
    unfolding allSpace_def list_all_iff by auto
  moreover have "CHR '','' \<notin> \<Union> (set ` set spaceRunes)" by code_simp
  ultimately show ?thesis by (auto simp: concat_runes)
qed

text \<open>The test for a blank flag changes nothing: a blank flag has no entries anyway.\<close>

lemma splitCSV_fields: "splitCSV s = csvFields s"
proof (cases "trimSpace s = []")
  case True
  then have "CHR '','' \<notin> set s" by (simp add: trimSpace_empty allSpace_no_comma)
  then show ?thesis using True by (simp add: splitCSV_def csvFields_def splitOn_plain)
qed (simp add: splitCSV_def)

lemma csvFields_iff: "p \<in> set (csvFields s) \<longleftrightarrow> p \<noteq> [] \<and> (\<exists>x\<in>set (splitOn (CHR '','') s). p = trimSpace x)"
  by (auto simp: csvFields_def)

lemma csvFields_join:
  assumes "xs \<noteq> []" "\<forall>x\<in>set xs. x \<noteq> [] \<and> CHR '','' \<notin> set x \<and> trimSpace x = x"
  shows "csvFields (joinWith '','' xs) = xs"
proof -
  have "splitOn (CHR '','') (joinWith '','' xs) = xs" using assms by (intro splitOn_join) auto
  moreover have "map trimSpace xs = xs" using assms(2) by (simp add: map_idI)
  moreover have "filter (\<lambda>p. p \<noteq> []) xs = xs" using assms(2) by (simp add: filter_id_conv)
  ultimately show ?thesis by (simp only: csvFields_def)
qed

lemma watched_namespaces:
  "fl_watchNamespaces fl \<noteq> [] \<Longrightarrow>
     \<exists>ns. defaultNamespaces fl = Some ns \<and> fst ` set ns = set (csvFields (fl_watchNamespaces fl))"
proof -
  have keys: "fst ` set (Kube.mset k v m) = insert k (fst ` set m)" for k and v :: unit and m
    by (simp flip: dom_map_of_conv_image_fst)
  have "fst ` set (foldl (\<lambda>defaults ns. let ns = trimSpace ns in if ns \<noteq> [] then Kube.mset ns () defaults else defaults) acc xs)
      = fst ` set acc \<union> set (filter (\<lambda>p. p \<noteq> []) (map trimSpace xs))" for acc xs
    by (induction xs arbitrary: acc) (auto simp: Let_def keys)
  then show "fl_watchNamespaces fl \<noteq> [] \<Longrightarrow> ?thesis" by (simp add: defaultNamespaces_def csvFields_def)
qed

subsection \<open>The order of start-up\<close>

text \<open>
  The reference: the requests in the order in which a start without failures makes them, for the
  cache at location \<open>l\<close>. \<open>obeys\<close> says that a run either makes all of them, none failing, and
  ends with status 0, or stops with status 1 at the first one that fails.
\<close>

definition webhookRequests :: "string \<Rightarrow> flags \<Rightarrow> mgrReq list" where
  "webhookRequests enableWebhooks fl =
     (if enableWebhooks = ''false'' then []
      else [SetupWebhook (setupMisskeyWebhookWithManager (csvFields (fl_allowedImageRegistries fl))
              (csvFields (fl_allowedClusterIssuers fl))),
            SetupWebhook (setupMisskeyChannelWebhookWithManager (csvFields (fl_allowedImageRegistries fl)))])"

definition startup :: "string \<Rightarrow> flags \<Rightarrow> loc \<Rightarrow> mgrReq list" where
  "startup enableWebhooks fl l =
     [GetConfig, NewManager (managerOpts fl), NewDigestResolver,
      SetupController (misskeyController (MisskeyReconciler ''cloudnative-misskey'' (fl_driftResyncInterval fl) l)),
      SetupController (channelController (MisskeyChannelReconciler l))] @
     webhookRequests enableWebhooks fl @
     [AddHealthzCheck ''healthz'', AddReadyzCheck ''readyz'', Start]"

fun obeys :: "mgrReq list \<Rightarrow> (mgrReq \<times> mgrResp) list \<Rightarrow> nat \<Rightarrow> bool" where
  "obeys [] tr code \<longleftrightarrow> tr = [] \<and> code = 0"
| "obeys (q # qs) [] code \<longleftrightarrow> False"
| "obeys (q # qs) ((q', r) # tr) code \<longleftrightarrow> q' = q \<and> (if failed (q, r) then tr = [] \<and> code = 1 else obeys qs tr code)"

lemma obeys_orExit:
  "(\<And>t. runs p t code \<Longrightarrow> obeys qs t code) \<Longrightarrow> runs (orExit q p) tr code \<Longrightarrow> obeys (q # qs) tr code"
  by (auto simp: orExit_def runs_Call_iff)

lemma obeys_Ret: "runs (Ret 0) tr code \<Longrightarrow> obeys [] tr code"
  by simp

lemma serve_obeys: "runs serve tr code \<Longrightarrow> obeys [AddHealthzCheck ''healthz'', AddReadyzCheck ''readyz'', Start] tr code"
  unfolding serve_def by (elim obeys_orExit [rotated] obeys_Ret)

lemma webhooks_obey:
  "(\<And>t. runs p t code \<Longrightarrow> obeys qs t code) \<Longrightarrow> runs (registerWebhooks wh fl p) tr code \<Longrightarrow>
     obeys (webhookRequests wh fl @ qs) tr code"
  unfolding registerWebhooks_def webhookRequests_def splitCSV_fields Let_def
  by (cases "wh = ''false''") (auto elim!: obeys_orExit [rotated])

lemma main_obeys:
  assumes "runs (main wh fl) tr code"
  shows "\<exists>l. obeys (startup wh fl l) tr code"
proof -
  have rest: "obeys (drop 3 (startup wh fl (locOf r))) t code"
    if "runs (orExit (SetupController (misskeyController
          (MisskeyReconciler ''cloudnative-misskey'' (fl_driftResyncInterval fl) (locOf r))))
        (orExit (SetupController (channelController (MisskeyChannelReconciler (locOf r)))) (registerWebhooks wh fl serve))) t code" for r t
    using that unfolding startup_def
    by simp (elim obeys_orExit [rotated], erule webhooks_obey [rotated], erule serve_obeys)
  from assms show ?thesis
    by (auto simp: main_def orExit_def [of GetConfig] orExit_def [of "NewManager _"] runs_Call_iff Let_def startup_def
        split: if_splits dest!: rest)
qed

lemma obeys_last:
  assumes "obeys (qs @ [x]) tr code" "(x, r) \<in> set tr" "x \<notin> set qs"
  shows "\<exists>pre. tr = pre @ [(x, r)] \<and> map fst pre = qs \<and> (\<forall>e\<in>set pre. \<not> failed e) \<and> code = (if failed (x, r) then 1 else 0)"
  using assms
proof (induction qs arbitrary: tr)
  case Nil
  then show ?case by (cases tr) (auto split: if_splits)
next
  case (Cons q qs)
  from Cons.prems obtain r' t where tr: "tr = (q, r') # t" by (cases tr) auto
  with Cons.prems have nf: "\<not> failed (q, r')" "obeys (qs @ [x]) t code" "(x, r) \<in> set t" by (auto split: if_splits)
  with Cons.IH [OF nf(2,3)] Cons.prems(3) obtain pre where "t = pre @ [(x, r)]" "map fst pre = qs"
    "\<forall>e\<in>set pre. \<not> failed e" "code = (if failed (x, r) then 1 else 0)" by auto
  with tr nf(1) show ?case by (intro exI [of _ "(q, r') # pre"]) auto
qed

lemma obeys_status: "obeys qs tr code \<Longrightarrow>
    code = 0 \<and> (\<forall>e\<in>set tr. \<not> failed e) \<or> code = 1 \<and> tr \<noteq> [] \<and> failed (last tr) \<and> (\<forall>e\<in>set (butlast tr). \<not> failed e)"
  by (induction qs tr code rule: obeys.induct) (auto split: if_splits)

text \<open>
  C9: the operator starts only behind its guards. If a run of \<^verbatim>\<open>main\<close> starts the manager,
  everything before succeeded: the manager was built from the flags, with Secrets out of the
  cache and HTTP/2 off; both controllers were registered and share one digest cache; and unless
  \<^verbatim>\<open>ENABLE_WEBHOOKS\<close> is \<^verbatim>\<open>false\<close> both webhooks were registered, with allow lists that hold
  exactly the entries of the flags, trimmed and not blank, and the same images for both kinds.
  Starting is the last thing the process does, and its outcome is the exit status.
\<close>
theorem starts_behind_guards:
  assumes run: "runs (main wh fl) tr code" and st: "(Start, r) \<in> set tr"
  shows "\<exists>pre l. tr = pre @ [(Start, r)] \<and> (\<forall>e\<in>set pre. \<not> failed e) \<and> code = (if failed (Start, r) then 1 else 0)
    \<and> (\<exists>o1. NewManager o1 \<in> fst ` set pre \<and> KSecret \<in> set (mgr_disableFor o1) \<and>
         (\<forall>c. nextProtos (fold (\<lambda>f. f) (mgr_webhookTLS o1) c) = [''http/1.1'']) \<and>
         (secureServing (mgr_metrics o1) \<longrightarrow> metricsFilter (mgr_metrics o1) \<noteq> None))
    \<and> SetupController (misskeyController (MisskeyReconciler ''cloudnative-misskey'' (fl_driftResyncInterval fl) l)) \<in> fst ` set pre
    \<and> SetupController (channelController (MisskeyChannelReconciler l)) \<in> fst ` set pre
    \<and> (wh \<noteq> ''false'' \<longrightarrow>
        (\<exists>v. SetupWebhook \<lparr>ws_for = KMisskey, ws_defaulter = Some Default, ws_validator = MisskeyCustomValidator v\<rparr> \<in> fst ` set pre \<and>
           SetupWebhook \<lparr>ws_for = KMisskeyChannel, ws_defaulter = None,
             ws_validator = MisskeyChannelCustomValidator (allowedImageRegistries v)\<rparr> \<in> fst ` set pre \<and>
           (\<forall>p. p \<in> set (allowedImageRegistries v) \<longleftrightarrow>
              p \<noteq> [] \<and> (\<exists>x\<in>set (splitOn (CHR '','') (fl_allowedImageRegistries fl)). p = trimSpace x)) \<and>
           (\<forall>p. p \<in> set (allowedClusterIssuers v) \<longleftrightarrow>
              p \<noteq> [] \<and> (\<exists>x\<in>set (splitOn (CHR '','') (fl_allowedClusterIssuers fl)). p = trimSpace x))))"
proof -
  obtain l where l: "obeys (startup wh fl l) tr code" using main_obeys [OF run] by blast
  let ?qs = "butlast (startup wh fl l)"
  have s: "startup wh fl l = ?qs @ [Start]" "Start \<notin> set ?qs"
    by (auto simp: startup_def webhookRequests_def butlast_append)
  from obeys_last [OF _ st s(2)] l s(1) obtain pre where pre: "tr = pre @ [(Start, r)]" "map fst pre = ?qs"
    "\<forall>e\<in>set pre. \<not> failed e" "code = (if failed (Start, r) then 1 else 0)" by auto
  have q: "q \<in> fst ` set pre" if "q \<in> set ?qs" for q using that pre(2) by (metis list.set_map)
  have mgr: "NewManager (managerOpts fl) \<in> fst ` set pre" by (rule q) (simp add: startup_def)
  have ctl: "SetupController (misskeyController (MisskeyReconciler ''cloudnative-misskey'' (fl_driftResyncInterval fl) l)) \<in> fst ` set pre"
    "SetupController (channelController (MisskeyChannelReconciler l)) \<in> fst ` set pre" by (rule q, simp add: startup_def)+
  let ?v = "\<lparr>allowedImageRegistries = csvFields (fl_allowedImageRegistries fl),
     allowedClusterIssuers = csvFields (fl_allowedClusterIssuers fl)\<rparr>"
  have web: "SetupWebhook \<lparr>ws_for = KMisskey, ws_defaulter = Some Default, ws_validator = MisskeyCustomValidator ?v\<rparr> \<in> fst ` set pre"
    "SetupWebhook \<lparr>ws_for = KMisskeyChannel, ws_defaulter = None,
       ws_validator = MisskeyChannelCustomValidator (csvFields (fl_allowedImageRegistries fl))\<rparr> \<in> fst ` set pre" if "wh \<noteq> ''false''"
    using that by (auto intro!: q simp: startup_def webhookRequests_def setupMisskeyWebhookWithManager_def
        setupMisskeyChannelWebhookWithManager_def)
  have opts: "KSecret \<in> set (mgr_disableFor (managerOpts fl))"
    "nextProtos (fold (\<lambda>f. f) (mgr_webhookTLS (managerOpts fl)) c) = [''http/1.1'']"
    "secureServing (mgr_metrics (managerOpts fl)) \<longrightarrow> metricsFilter (mgr_metrics (managerOpts fl)) \<noteq> None" for c
    by (simp_all add: managerOpts_def disableHTTP2_def metricsOpts_def Let_def)
  show ?thesis
    by (intro exI [of _ pre] exI [of _ l] exI [of _ "managerOpts fl"] exI [of _ ?v] conjI impI allI)
       (simp_all add: pre(1,3,4) mgr ctl opts web csvFields_iff)
qed

end
