(* ===== verification/Access.thy ===== *)
theory Access
  imports Entry Lifecycle
begin

section \<open>Access rights (the rbac markers of the two controllers)\<close>

text \<open>
  The role of the operator is generated from the \<^verbatim>\<open>+kubebuilder:rbac\<close> markers above the two
  \<^verbatim>\<open>Reconcile\<close> methods. Here the markers are data, \<open>needs\<close> lists the rights that a request
  takes at the API server, and the theorem says that the role suffices: no request of either
  controller can be answered with \<^verbatim>\<open>forbidden\<close>. What a request takes depends on the manager of
  \<^verbatim>\<open>main\<close>: its client reads every kind that is not listed in \<^verbatim>\<open>DisableFor\<close> through a cache,
  which lists and watches the kind, so the rights on Secrets only suffice because Secrets are
  listed there.
\<close>

subsection \<open>Rules\<close>

record rule =
  ru_group :: string
  ru_resources :: "string list"
  ru_verbs :: "string list"

definition readVerbs :: "string list" where
  "readVerbs = [''get'', ''list'', ''watch'']"

definition allVerbs :: "string list" where
  "allVerbs = readVerbs @ [''create'', ''update'', ''patch'', ''delete'']"

definition misskeyGroup :: string where "misskeyGroup = ''cloudnative-misskey.dev''"

definition misskeyMarkers :: "rule list" where
  "misskeyMarkers =
     [\<lparr>ru_group = misskeyGroup, ru_resources = [''misskeys''], ru_verbs = allVerbs\<rparr>,
      \<lparr>ru_group = misskeyGroup, ru_resources = [''misskeys/status''], ru_verbs = [''get'', ''update'', ''patch'']\<rparr>,
      \<lparr>ru_group = misskeyGroup, ru_resources = [''misskeys/finalizers''], ru_verbs = [''update'']\<rparr>,
      \<lparr>ru_group = [], ru_resources = [''events''], ru_verbs = [''create'', ''patch'']\<rparr>,
      \<lparr>ru_group = ''apps'', ru_resources = [''deployments'', ''statefulsets''], ru_verbs = allVerbs\<rparr>,
      \<lparr>ru_group = ''batch'', ru_resources = [''jobs''], ru_verbs = allVerbs\<rparr>,
      \<lparr>ru_group = [], ru_resources = [''services'', ''configmaps'', ''persistentvolumeclaims'', ''resourcequotas'', ''limitranges''],
        ru_verbs = allVerbs\<rparr>,
      \<lparr>ru_group = [], ru_resources = [''secrets''], ru_verbs = [''get'', ''create'', ''update'', ''patch'', ''delete'']\<rparr>,
      \<lparr>ru_group = [], ru_resources = [''pods''], ru_verbs = readVerbs\<rparr>,
      \<lparr>ru_group = ''networking.k8s.io'', ru_resources = [''ingresses'', ''networkpolicies''], ru_verbs = allVerbs\<rparr>,
      \<lparr>ru_group = ''policy'', ru_resources = [''poddisruptionbudgets''], ru_verbs = allVerbs\<rparr>,
      \<lparr>ru_group = misskeyGroup, ru_resources = [''misskeychannels''], ru_verbs = readVerbs\<rparr>,
      \<lparr>ru_group = ''postgresql.cnpg.io'', ru_resources = [''clusters'', ''scheduledbackups'', ''backups'', ''poolers''],
        ru_verbs = allVerbs\<rparr>,
      \<lparr>ru_group = ''redis.redis.opstreelabs.in'', ru_resources = [''redisreplications'', ''redissentinels''], ru_verbs = allVerbs\<rparr>,
      \<lparr>ru_group = ''autoscaling'', ru_resources = [''horizontalpodautoscalers''], ru_verbs = allVerbs\<rparr>,
      \<lparr>ru_group = ''keda.sh'', ru_resources = [''scaledobjects'', ''triggerauthentications''], ru_verbs = allVerbs\<rparr>,
      \<lparr>ru_group = ''monitoring.coreos.com'', ru_resources = [''servicemonitors'', ''podmonitors'', ''prometheusrules''],
        ru_verbs = allVerbs\<rparr>]"

definition channelMarkers :: "rule list" where
  "channelMarkers =
     [\<lparr>ru_group = misskeyGroup, ru_resources = [''misskeychannels''], ru_verbs = readVerbs\<rparr>,
      \<lparr>ru_group = misskeyGroup, ru_resources = [''misskeychannels/status''], ru_verbs = [''get'', ''update'', ''patch'']\<rparr>]"

type_synonym right = "string \<times> string \<times> string"

definition grants :: "rule list \<Rightarrow> right \<Rightarrow> bool" where
  "grants rules rt \<longleftrightarrow> (case rt of (g, res, v) \<Rightarrow>
     list_ex (\<lambda>ru. ru_group ru = g \<and> res \<in> set (ru_resources ru) \<and> v \<in> set (ru_verbs ru)) rules)"

subsection \<open>What a request takes\<close>

fun resourceOf :: "kind \<Rightarrow> string \<times> string" where
  "resourceOf KSecret = ([], ''secrets'')"
| "resourceOf KConfigMap = ([], ''configmaps'')"
| "resourceOf KService = ([], ''services'')"
| "resourceOf KPod = ([], ''pods'')"
| "resourceOf KPersistentVolumeClaim = ([], ''persistentvolumeclaims'')"
| "resourceOf KResourceQuota = ([], ''resourcequotas'')"
| "resourceOf KLimitRange = ([], ''limitranges'')"
| "resourceOf KDeployment = (''apps'', ''deployments'')"
| "resourceOf KStatefulSet = (''apps'', ''statefulsets'')"
| "resourceOf KJob = (''batch'', ''jobs'')"
| "resourceOf KIngress = (''networking.k8s.io'', ''ingresses'')"
| "resourceOf KNetworkPolicy = (''networking.k8s.io'', ''networkpolicies'')"
| "resourceOf KPodDisruptionBudget = (''policy'', ''poddisruptionbudgets'')"
| "resourceOf KHorizontalPodAutoscaler = (''autoscaling'', ''horizontalpodautoscalers'')"
| "resourceOf KMisskey = (misskeyGroup, ''misskeys'')"
| "resourceOf KMisskeyChannel = (misskeyGroup, ''misskeychannels'')"
| "resourceOf KCnpgCluster = (''postgresql.cnpg.io'', ''clusters'')"
| "resourceOf KCnpgScheduledBackup = (''postgresql.cnpg.io'', ''scheduledbackups'')"
| "resourceOf KCnpgBackup = (''postgresql.cnpg.io'', ''backups'')"
| "resourceOf KCnpgPooler = (''postgresql.cnpg.io'', ''poolers'')"
| "resourceOf KRedisReplication = (''redis.redis.opstreelabs.in'', ''redisreplications'')"
| "resourceOf KRedisSentinel = (''redis.redis.opstreelabs.in'', ''redissentinels'')"
| "resourceOf KScaledObject = (''keda.sh'', ''scaledobjects'')"
| "resourceOf KTriggerAuthentication = (''keda.sh'', ''triggerauthentications'')"
| "resourceOf KServiceMonitor = (''monitoring.coreos.com'', ''servicemonitors'')"
| "resourceOf KPodMonitor = (''monitoring.coreos.com'', ''podmonitors'')"
| "resourceOf KPrometheusRule = (''monitoring.coreos.com'', ''prometheusrules'')"

definition on :: "kind \<Rightarrow> string \<Rightarrow> string \<Rightarrow> right" where
  "on k sub v = (fst (resourceOf k), snd (resourceOf k) @ sub, v)"

text \<open>
  A read through the cache also lists and watches. An apply patches and creates what is
  missing; \<^verbatim>\<open>CreateOrUpdate\<close> reads and then creates or updates. Writing an object with an owner
  reference that blocks deletion takes the right to update the owner's finalizers. Events are
  recorded in the API group \<open>g\<close> of the recorder.
\<close>

definition readRights :: "kind list \<Rightarrow> kind \<Rightarrow> string \<Rightarrow> right list" where
  "readRights uncached k v = (if k \<in> set uncached then [on k [] v] else [on k [] ''get'', on k [] ''list'', on k [] ''watch''])"

definition ownRight :: right where
  "ownRight = on KMisskey ''/finalizers'' ''update''"

fun needs :: "string \<Rightarrow> kind list \<Rightarrow> req \<Rightarrow> right list" where
  "needs g uncached (QGet k ns n) = readRights uncached k ''get''"
| "needs g uncached (QList k ns sel) = readRights uncached k ''list''"
| "needs g uncached (QCreate x) = [on (ko_kind x) [] ''create'', ownRight]"
| "needs g uncached (QUpdate x) = [on (ko_kind x) [] ''update'']"
| "needs g uncached (QDelete k ns n p) = [on k [] ''delete'']"
| "needs g uncached (QApply x) = [on (ko_kind x) [] ''patch'', on (ko_kind x) [] ''create'', ownRight]"
| "needs g uncached (QStatusUpdate x) = [on (ko_kind x) ''/status'' ''update'']"
| "needs g uncached (QFetch x) = readRights uncached (ko_kind x) ''get''"
| "needs g uncached (QStore x) = [on (ko_kind x) [] ''create'', on (ko_kind x) [] ''update'', ownRight]"
| "needs g uncached (QEvent t a b c) = [(g, ''events'', ''create''), (g, ''events'', ''patch'')]"
| "needs g uncached _ = []"

definition permitted :: "rule list \<Rightarrow> string \<Rightarrow> kind list \<Rightarrow> req \<Rightarrow> bool" where
  "permitted rules g uncached q \<longleftrightarrow> list_all (grants rules) (needs g uncached q)"

definition managerRole :: "rule list" where
  "managerRole = misskeyMarkers @ channelMarkers"

subsection \<open>The rights of the role\<close>

definition allKinds :: "kind list" where
  "allKinds = [KSecret, KConfigMap, KService, KPod, KPersistentVolumeClaim, KResourceQuota, KLimitRange,
     KDeployment, KStatefulSet, KJob, KIngress, KNetworkPolicy, KPodDisruptionBudget,
     KHorizontalPodAutoscaler, KMisskey, KMisskeyChannel, KCnpgCluster, KCnpgScheduledBackup, KCnpgBackup, KCnpgPooler,
     KRedisReplication, KRedisSentinel, KScaledObject, KTriggerAuthentication, KServiceMonitor, KPodMonitor, KPrometheusRule]"

lemma allKinds_complete: "k \<in> set allKinds"
  by (cases k) (simp_all add: allKinds_def)

definition kindVerbs :: "kind \<Rightarrow> string list" where
  "kindVerbs k = (if k = KSecret then [''get'', ''create'', ''update'', ''patch'', ''delete'']
     else if k = KPod \<or> k = KMisskeyChannel then readVerbs else allVerbs)"

lemma role_table: "list_all (\<lambda>k. list_all (\<lambda>v. grants managerRole (on k [] v)) (kindVerbs k)) allKinds"
  by code_simp

lemma role_grants: "v \<in> set (kindVerbs k) \<Longrightarrow> grants managerRole (on k [] v)"
  using role_table allKinds_complete [of k] by (auto simp: list_all_iff)

lemma role_special:
  "grants managerRole ownRight" "grants managerRole ([], ''events'', ''create'')" "grants managerRole ([], ''events'', ''patch'')"
  "grants managerRole (on KMisskey ''/status'' ''update'')" "grants managerRole (on KMisskeyChannel ''/status'' ''update'')"
  by code_simp+

lemma role_reads:
  "k \<noteq> KSecret \<or> v = ''get'' \<Longrightarrow> v \<in> {''get'', ''list''} \<Longrightarrow> list_all (grants managerRole) (readRights [KSecret] k v)"
  by (auto simp: readRights_def kindVerbs_def readVerbs_def allVerbs_def intro!: role_grants)

lemma role_writes:
  assumes "k \<noteq> KPod" "k \<noteq> KMisskeyChannel" "v \<in> {''create'', ''update'', ''patch'', ''delete''}"
  shows "grants managerRole (on k [] v)"
  using assms by (auto simp: kindVerbs_def allVerbs_def intro!: role_grants)

lemma confined_permitted: "confined ns n q \<Longrightarrow> permitted managerRole [] [KSecret] q"
  by (cases q) (auto simp: confined_def ownObject_def permitted_def role_special intro!: role_reads role_writes)

lemma readOnly_permitted: "readOnly q \<Longrightarrow> permitted managerRole [] [KSecret] q"
  by (rule confined_permitted [of "[]" "[]"]) simp

lemma channel_permitted: "calls (permitted managerRole [] [KSecret]) (channelReconcile L n)"
proof -
  have get: "calls (permitted managerRole [] [KSecret]) (getChannel c)" for c
    by (rule calls_mono [OF _ readOnly_permitted]) (auto simp: getChannel_def intro!: calls_chk kube_calls)
  have upd: "permitted managerRole [] [KSecret] (QStatusUpdate (channelObj c))" for c
    by (simp add: permitted_def channelObj_def role_special)
  have "calls (permitted managerRole [] [KSecret]) (channelStatusAttempt n t i u)" for t i u
    unfolding channelStatusAttempt_def
    by (intro calls_chk get calls_bnd calls_if calls_Ret kube_calls upd) (auto simp: timeNow_def readOnly_permitted)
  then have "calls (permitted managerRole [] [KSecret]) (channelSync L n ch tf)" for ch tf
    unfolding channelSync_def Let_def
    by (intro calls_chk calls_retryOnConflict calls_Ret kube_calls) (auto simp: readOnly_permitted)
  moreover have "calls (permitted managerRole [] [KSecret]) (channelTarget L ch)" for ch
    by (rule calls_mono [OF channelTarget_calls readOnly_permitted])
  ultimately show ?thesis unfolding channelReconcile_def
    by (intro calls_bnd get calls_sum calls_if calls_Ret calls_chk)
qed

definition watchedKinds :: "controllerSetup \<Rightarrow> kind list" where
  "watchedKinds c = cs_for c # map fst (cs_watches c) @ cs_owns c"

lemma watched_permitted:
  "k \<in> set (watchedKinds (misskeyController r)) \<union> set (watchedKinds (channelController r')) \<Longrightarrow>
     v \<in> {''list'', ''watch''} \<Longrightarrow> grants managerRole (on k [] v)"
  by (rule role_grants) (auto simp: watchedKinds_def misskeyController_def channelController_def kindVerbs_def readVerbs_def allVerbs_def)

text \<open>The role is tight where it matters: with Secrets in the cache, reading one would be refused.\<close>

lemma cached_secrets_refused: "\<not> permitted managerRole [] [] (QGet KSecret ns n)"
  unfolding permitted_def needs.simps by code_simp

lemma events_other_group_refused: "g \<noteq> [] \<Longrightarrow> \<not> permitted managerRole g uncached (QEvent t a b c)"
  by (auto simp: permitted_def grants_def managerRole_def misskeyMarkers_def channelMarkers_def misskeyGroup_def)


end
