(* ===== verification/Scenarios.thy ===== *)
theory Scenarios
  imports Possible Rendering Cluster Access
begin

section \<open>The reconcile loop at concrete instances\<close>

text \<open>
  The properties of the controller, of admission, of the status and of the parts that keep data,
  applied to runs against concrete API servers.
\<close>

fun deletes :: "kind \<Rightarrow> string \<Rightarrow> string \<Rightarrow> req \<times> resp \<Rightarrow> bool" where
  "deletes k ns n (QDelete k' ns' n' pol, r) \<longleftrightarrow> k' = k \<and> ns' = ns \<and> n' = n"
| "deletes k ns n _ \<longleftrightarrow> False"

lemma deletes_iff: "deletes k ns n e \<longleftrightarrow> (\<exists>pol. fst e = QDelete k ns n pol)"
  by (cases "(k, ns, n, e)" rule: deletes.cases) auto

subsection \<open>A restore test that has just finished\<close>

definition sampleBackup :: postgresBackup where
  "sampleBackup = \<lparr>bk_destinationPath = ''s3://b'', bk_endpointURL = [], bk_s3Credentials = None, bk_retentionPolicy = [],
     bk_schedule = [], bk_serverName = [], bk_verify = Some \<lparr>bv_interval = 7 * 24 * hour, bv_timeout = hour\<rparr>\<rparr>"

definition sampleVerified :: misskey where
  "sampleVerified = sampleOf (noMisskeySpec\<lparr>postgres := noPostgresSpec\<lparr>pg_backup := Some sampleBackup\<rparr>\<rparr>)"

definition readyVerifyCluster :: kobj where
  "readyVerifyCluster = setBody (BUnstructured (JObj [(''status'', JObj [(''readyInstances'', JInt 1)])]))
     (newObj KCnpgCluster ''ns'' ''mi-db-verify'')"

definition restoredCluster :: "(req, resp, unit) server" where
  "restoredCluster = answering (\<lambda>q. case q of
     QGet k ns n \<Rightarrow> if k = KCnpgCluster then Some (RObj readyVerifyCluster)
                    else if k = KMisskey then Some (RObj (misskeyObj sampleVerified)) else None
   | _ \<Rightarrow> None)"

lemma restored_removes:
  "list_ex (deletes KCnpgCluster ''ns'' ''mi-db-verify'')
     (trace_of restoredCluster (reconcileBackupVerify refLibs sampleVerified) ())"
  by code_simp

lemma removes_verify_cluster:
  assumes "list_ex (deletes KCnpgCluster ''ns'' ''mi-db-verify'') tr"
  shows "\<exists>e\<in>set tr. verifyRemoved sampleVerified e"
proof -
  obtain e where "e \<in> set tr" "deletes KCnpgCluster ''ns'' ''mi-db-verify'' e" using assms by (auto simp: list_ex_iff)
  moreover from this(2) have "verifyRemoved sampleVerified e"
    by (auto simp: deletes_iff verifyRemoved_def sampleVerified_def nameDBVerify_def nameDB_def)
  ultimately show ?thesis by blast
qed

text \<open>The Cluster is deleted in this run, so both gates of the property have been passed.\<close>

theorem restore_test_leaves_result_witness:
  "\<exists>tr res. runs (reconcileBackupVerify refLibs sampleVerified) tr res \<and>
     (\<exists>e\<in>set tr. verifyRemoved sampleVerified e) \<and> (\<exists>e\<in>set tr. \<exists>o1. verifyRecorded o1 e)"
proof (intro exI conjI)
  let ?p = "reconcileBackupVerify refLibs sampleVerified"
  let ?tr = "trace_of restoredCluster ?p ()"
  show run: "runs ?p ?tr (fst (exec restoredCluster ?p ()))" by (rule exec_runs)
  show del: "\<exists>e\<in>set ?tr. verifyRemoved sampleVerified e"
    by (rule removes_verify_cluster [OF restored_removes])
  have "pg_backup (postgres (spec sampleVerified)) = Some sampleBackup" "bk_verify sampleBackup = Some \<lparr>bv_interval = 7 * 24 * hour, bv_timeout = hour\<rparr>"
    by (simp_all add: sampleVerified_def sampleBackup_def)
  note restore_test_leaves_result [OF run stable_refLibs this]
  then have "gated (verifyRemoved sampleVerified) (\<lambda>e. snd e = ROk \<and> (\<exists>o1. verifyRecorded o1 e)) ?tr" by simp
  with del show "\<exists>e\<in>set ?tr. \<exists>o1. verifyRecorded o1 e"
    unfolding gated_iff by (metis in_set_conv_decomp Un_iff set_append)
qed

subsection \<open>A detector that was never configured\<close>

theorem detector_kept_until_converged_witness:
  "\<exists>tr res. runs (finalizeSensitiveDetectorCleanup refLibs sample zeroPlan True freshDetectorState) tr res \<and>
     gated (secretDelete ''ns'' ''mi-sensitive-detector'') (ownedSecretSeen refLibs sample ''ns'' ''mi-sensitive-detector'') tr"
proof -
  let ?p = "finalizeSensitiveDetectorCleanup refLibs sample zeroPlan True freshDetectorState"
  have run: "runs ?p (trace_of emptyCluster ?p ()) (fst (exec emptyCluster ?p ()))" by (rule exec_runs)
  from detector_kept_until_converged [OF run] run show ?thesis by blast
qed

subsection \<open>A first reconcile\<close>

theorem rollout_waits_for_dependencies_witness:
  "\<exists>tr res. runs (reconcileAll refLibs sample freshDetectorState) tr res \<and>
     gated (workloadStore sample) (jobSeen sample (\<lambda>m n. n = nameMigrate m)) tr"
proof -
  let ?p = "reconcileAll refLibs sample freshDetectorState"
  have run: "runs ?p (trace_of emptyCluster ?p ()) (fst (exec emptyCluster ?p ()))" by (rule exec_runs)
  have "mnamespace sample \<noteq> []" by (simp add: sample_def)
  from rollout_waits_for_dependencies [OF run stable_refLibs this] run show ?thesis by blast
qed

subsection \<open>Admission and what runs\<close>

definition sampleValidator :: misskeyCustomValidator where
  "sampleValidator = \<lparr>allowedImageRegistries = [''ghcr.io/''], allowedClusterIssuers = [''le'']\<rparr>"

definition sampleAdmitted :: misskey where
  "sampleAdmitted = sampleOf (noMisskeySpec\<lparr>image := ''ghcr.io/m'', proxy := noProxySpec\<lparr>px_image := ''ghcr.io/p''\<rparr>\<rparr>)"

definition sampleFollowed :: misskeyChannel where
  "sampleFollowed = \<lparr>mc_meta = newMeta [] ''stable'', ch_spec = noMisskeyChannelSpec\<lparr>ch_image := ''ghcr.io/n''\<rparr>,
     ch_status = noMisskeyChannelStatus\<rparr>"

lemma sampleAdmitted_images: "specImages sampleAdmitted = [(''spec.image'', ''ghcr.io/m''), (''spec.proxy.image'', ''ghcr.io/p'')]"
  by (simp add: specImages_def sampleAdmitted_def sample_defs addImage_def haImages_def)

lemma sampleAdmitted_ok: "validate rev sampleValidator sampleAdmitted = None"
  by (simp add: validate_def sampleAdmitted_images sampleValidator_def imageAllowed_def hasPrefix_def invalidOr_def
      issuerErrors_def) (simp add: sampleAdmitted_def sample_defs)

theorem admission_order_independent_witness:
  "validate rev sampleValidator sampleAdmitted = None \<and> issuerErrors sampleValidator sampleAdmitted = []"
  using admission_order_independent [of rev sampleAdmitted sampleValidator] sampleAdmitted_ok by simp


abbreviation followed :: misskey where
  "followed \<equiv> sampleAdmitted\<lparr>spec := (spec sampleAdmitted)\<lparr>image := ''ghcr.io/n''\<rparr>\<rparr>"

lemma followed_stores_redis:
  "encounters (storesAt KStatefulSet ''mi-redis'') (reconcileAll refLibs followed freshDetectorState)"
  unfolding reconcileAll_def Let_def
proof (rule encounters_afterS)
  show "able (reconcileBase refLibs followed (resolve followed))"
    by (rule able_base) (simp_all add: sampleAdmitted_def sample_defs)
next
  fix t m'
  assume "runs (reconcileBase refLibs followed (resolve followed)) t (Inr m')"
  then obtain s where m': "m' = followed\<lparr>status := s\<rparr>" using base_frame by blast
  have "managedRedisInstances refLibs m' = [buildManagedInstance refLibs m' [] None None]"
  proof -
    have "rd_external (redis (spec m')) = None" "rd_ha (redis (spec m')) = None" "rd_roles (redis (spec m')) = None"
      by (simp_all add: m' sampleAdmitted_def sample_defs)
    then show ?thesis by (simp add: managedRedisInstances_def)
  qed
  moreover have "nameRedisInstance m' [] = ''mi-redis''"
    by (simp add: nameRedisInstance_def nameRedis_def m' sampleAdmitted_def)
  ultimately have one: "encounters (storesAt KStatefulSet ''mi-redis'') (forE (managedRedisInstances refLibs m') (reconcileRedisInstance refLibs m'))"
    using encounters_redis_store [of m' "buildManagedInstance refLibs m' [] None None"]
    unfolding reconcileRedisInstance_def
    by (simp add: encounters_chk) (intro encounters_chk encounters_after able_parts)
  have "encounters (storesAt KStatefulSet ''mi-redis'') (reconcileRedis refLibs m')"
    unfolding reconcileRedis_def Let_def by (intro encounters_after encounters_chk one able_whenE able_secrets)
  then show "encounters (storesAt KStatefulSet ''mi-redis'')
     (chkS freshDetectorState (reconcileServices refLibs m' (resolve followed)) (\<lambda>_. bnd (readSensitiveDetectorConfigState m' freshDetectorState) (\<lambda>st.
        case ds_err st of Some e \<Rightarrow> Ret (st, Inl e) | None \<Rightarrow>
            bnd (reconcileRollout refLibs m' (resolve followed) st (\<not> sensitiveDetectorEnabled (resolve followed) \<and> \<not> ds_exists st)) (\<lambda>(st', r).
              case r of Inl e \<Rightarrow> Ret (st', Inl e)
              | Inr configDone \<Rightarrow> chkS st' (reconcileEdge refLibs m' (resolve followed)) (\<lambda>_.
                    finalizeSensitiveDetectorCleanup refLibs m' (resolve followed) configDone st')))))"
    unfolding reconcileServices_def by (intro encounters_chkS encounters_chk)
qed

text \<open>The instance follows the channel; its Redis is stored in this run, and runs a vetted image only.\<close>

theorem only_vetted_images_run_witness:
  "\<exists>tr res x r s. runs (reconcileAll refLibs followed freshDetectorState) tr res \<and> (QStore x, r) \<in> set tr \<and>
     ko_body x = BStatefulSet s \<and> runsOnly (vetted sampleValidator) (map vc_name (sts_volumeClaims s)) (sts_pod s)"
proof -
  obtain tr res x r where run: "runs (reconcileAll refLibs followed freshDetectorState) tr res"
    and x: "(QStore x, r) \<in> set tr" "ko_kind x = KStatefulSet"
    using followed_stores_redis unfolding encounters_def storesAt_def by force
  have chan: "channelValidate (allowedImageRegistries sampleValidator) sampleFollowed = None"
    "''ghcr.io/n'' \<in> {image (spec sampleAdmitted), ch_image (ch_spec sampleFollowed)}"
    by (simp_all add: channelValidate_def sampleFollowed_def sampleValidator_def imageAllowed_def hasPrefix_def noMisskeyChannelSpec_def)
  have ns: "mnamespace sampleAdmitted \<noteq> []" "Multiset.mset (rev (specImages sampleAdmitted)) = Multiset.mset (specImages sampleAdmitted)"
    by (simp_all add: sampleAdmitted_def)
  from only_vetted_images_run [OF sampleAdmitted_ok ns(2) chan stable_refLibs ns(1) run x(1), of x] x run show ?thesis by blast
qed

subsection \<open>One whole reconcile\<close>

lemma keeps_refLibs: "keeps_identity refLibs"
  by (simp add: keeps_identity_def refLibs_def refFinalizers_def)

definition oneInstance :: "(req, resp, unit) server" where
  "oneInstance = answering (\<lambda>q. case q of QGet k ns n \<Rightarrow> if k = KMisskey then Some (RObj (misskeyObj sample)) else None | _ \<Rightarrow> None)"

lemma sample_meta: "mnamespace sample = ''ns''" "mname sample = ''mi''" "om_deletionTimestamp (mk_meta sample) = None"
  "om_finalizers (mk_meta sample) = []"
  by (simp_all add: sample_def newMeta_def)

text \<open>The first request that writes is the one that adds the finalizer to the Misskey itself.\<close>

lemma oneInstance_finalizer:
  defines "p \<equiv> reconcileMisskey refLibs 0 ''ns'' ''mi''"
  shows "runs p (trace_of oneInstance p ()) (fst (exec oneInstance p ()))"
    and "\<exists>x r. (QUpdate x, r) \<in> set (trace_of oneInstance p ()) \<and> writes (QUpdate x) = Some (KMisskey, ''ns'', ''mi'')"
proof -
  let ?m = "refFinalizers (\<lambda>fs. fs @ [misskeyFinalizer]) sample"
  show "runs p (trace_of oneInstance p ()) (fst (exec oneInstance p ()))" by (rule exec_runs)
  have at: "atKey KMisskey ''ns'' ''mi'' (misskeyObj sample)"
    by (simp add: atKey_def misskeyObj_def sample_meta)
  have "(QUpdate (misskeyObj ?m), RObj (misskeyObj ?m)) \<in> set (trace_of oneInstance p ())"
    by (simp add: at p_def reconcileMisskey_def getMisskey_def kget_def chk_def oneInstance_def answering_def ensureFinalizer_def
        kupdate_def sample_meta refLibs_def)
  moreover have "writes (QUpdate (misskeyObj ?m)) = Some (KMisskey, ''ns'', ''mi'')"
    by (simp add: misskeyObj_def refFinalizers_def sample_def)
  ultimately show "\<exists>x r. (QUpdate x, r) \<in> set (trace_of oneInstance p ()) \<and> writes (QUpdate x) = Some (KMisskey, ''ns'', ''mi'')"
    by blast
qed

theorem reconcile_confined_witness:
  "\<exists>tr res q r ns' x. runs (reconcileMisskey refLibs 0 ''ns'' ''mi'') tr res \<and> (q, r) \<in> set tr \<and>
     writes q = Some (KMisskey, ns', x) \<and> ns' = ''ns'' \<and> x = ''mi''"
proof -
  note run = oneInstance_finalizer(1)
  obtain x r where w: "(QUpdate x, r) \<in> set (trace_of oneInstance (reconcileMisskey refLibs 0 ''ns'' ''mi'') ())"
    "writes (QUpdate x) = Some (KMisskey, ''ns'', ''mi'')" using oneInstance_finalizer(2) by blast
  from reconcile_confined [OF run stable_refLibs keeps_refLibs _ w] run w show ?thesis by blast
qed


definition sampleSuspended :: misskey where
  "sampleSuspended = sampleOf (noMisskeySpec\<lparr>suspend := True\<rparr>)"

theorem suspended_instance_stops_witness:
  "\<exists>tr st. runs (reconcileAll refLibs sampleSuspended freshDetectorState) tr (st, Inr ()) \<and>
     (\<forall>e\<in>set tr. \<not> workloadStore sampleSuspended e) \<and> stopped sampleSuspended (nameApp sampleSuspended) tr"
proof -
  have m: "mnamespace sampleSuspended \<noteq> []" "suspend (spec sampleSuspended)" by (simp_all add: sampleSuspended_def)
  obtain tr st where run: "runs (reconcileAll refLibs sampleSuspended freshDetectorState) tr (st, Inr ())"
    by (rule suspended_succeeds [of sampleSuspended]) (simp_all add: sampleSuspended_def zero_defs)
  from suspended_instance_stops [OF run stable_refLibs m] run show ?thesis by blast
qed

text \<open>A suspended instance is reconciled without an error and visited again after the interval of the drift detection.\<close>

lemma suspended_live:
  assumes "suspend (spec m)" "sensitiveDetector (spec m) = None" "pg_backup (postgres (spec m)) = None"
    "imageFrom (spec m) = None" "\<not> trackImageDigest (spec m)"
  shows "\<exists>t. runs (reconcileLive refLibs resync m) t (Inr (driftInterval resync))"
proof -
  obtain t1 st1 where all: "runs (reconcileAll refLibs m freshDetectorState) t1 (st1, Inr ())" using suspended_succeeds [OF assms(1-3)] .
  have img: "runs (resolveImageInMemory refLibs m) [] (m, Inr ())"
    by (simp add: resolveImageInMemory_def resolveChannel_def trackDigest_def assms(4,5))
  obtain t2 st where read: "runs (readSensitiveDetectorConfigState m st1) t2 st"
    using runs_total [of "readSensitiveDetectorConfigState m st1"] by blast
  obtain t3 ready e where upd: "runs (updateStatus refLibs m None st) t3 (ready, e)"
    using runs_total [of "updateStatus refLibs m None st"] by auto
  let ?done = "\<lambda>(ready, _). Ret (Inr (if ready then driftInterval resync else if suspend (spec m) then driftInterval resync else 15 * second))"
  have "runs (bnd (updateStatus refLibs m None st) ?done) (t3 @ []) (Inr (driftInterval resync))"
    by (rule runs_bndI [OF upd]) (simp add: assms(1))
  then have fin: "runs (bnd (readSensitiveDetectorConfigState m st1) (\<lambda>st. bnd (updateStatus refLibs m None st) ?done))
      (t2 @ t3 @ []) (Inr (driftInterval resync))" by (rule runs_bndI [OF read])
  have "runs (reconcileLive refLibs resync m) ([] @ t1 @ t2 @ t3 @ []) (Inr (driftInterval resync))"
    unfolding reconcileLive_def
    by (rule runs_bndI [OF img], unfold prod.case sum.case, rule runs_bndI [OF all]) (use fin in \<open>simp add: errorEvent_def split del: if_split\<close>)
  then show ?thesis by blast
qed

theorem live_instance_revisited_witness:
  "\<exists>tr m st t. runs (reconcileMisskey refLibs 0 ''ns'' ''mi'') tr (Inr (driftInterval 0)) \<and> 0 < driftInterval 0 \<and>
     mnamespace m = ''ns'' \<and> mname m = ''mi'' \<and> set t \<subseteq> set tr \<and> runs (reconcileAll refLibs m freshDetectorState) t (st, Inr ())"
proof -
  let ?m = "refFinalizers (\<lambda>fs. fs @ [misskeyFinalizer]) sampleSuspended"
  obtain t where live: "runs (reconcileLive refLibs 0 ?m) t (Inr (driftInterval 0))"
    using suspended_live [of ?m 0] by (auto simp: refFinalizers_def sampleSuspended_def zero_defs)
  have at: "atKey KMisskey ''ns'' ''mi'' (misskeyObj sampleSuspended)" "atKey KMisskey ''ns'' ''mi'' (misskeyObj ?m)"
    by (simp_all add: atKey_def misskeyObj_def sampleSuspended_def refFinalizers_def newMeta_def)
  have new: "om_deletionTimestamp (mk_meta sampleSuspended) = None" "mnamespace sampleSuspended = ''ns''" "mname sampleSuspended = ''mi''"
    "l_addFinalizer refLibs sampleSuspended misskeyFinalizer = (?m, True)"
    by (simp_all add: sampleSuspended_def newMeta_def refLibs_def)
  let ?tr = "[(QGet KMisskey ''ns'' ''mi'', RObj (misskeyObj sampleSuspended)), (QUpdate (misskeyObj ?m), RObj (misskeyObj ?m))] @ t"
  have "runs (reconcileMisskey refLibs 0 ''ns'' ''mi'') ?tr (Inr (driftInterval 0))"
    using live by (simp add: at new reconcileMisskey_def getMisskey_def ensureFinalizer_def kget_def kupdate_def chk_def runs_Call_iff)
  moreover have "0 < driftInterval 0" by (simp add: driftInterval_def defaultDriftResyncInterval_def minute_def second_def)
  ultimately show ?thesis using live_instance_revisited [OF _ keeps_refLibs] by (metis less_irrefl)
qed

definition sampleBackedUp :: misskey where
  "sampleBackedUp = sampleOf (noMisskeySpec\<lparr>postgres := noPostgresSpec\<lparr>pg_backup := Some sampleBackup\<rparr>,
     migration := noMigrationSpec\<lparr>mg_preBackup := Some True\<rparr>\<rparr>)"


subsection \<open>Autoscalers\<close>

definition sampleScale :: scaleConfig where
  "sampleScale = \<lparr>sc_autoscaling = \<lparr>as_minReplicas = Some 1, as_maxReplicas = 3, as_targetCPUUtilizationPercentage = None,
     as_targetMemoryUtilizationPercentage = None\<rparr>, sc_queues = [], sc_rps = None\<rparr>"

theorem autoscalers_exclusive_witness:
  "\<exists>tr res. runs (reconcileAutoscaler refLibs sample ''app'' ''mi-app'' (Some sampleScale) (resolve sample)) tr res \<and>
     gated (autoscalerStore KHorizontalPodAutoscaler) (deletedAt KScaledObject (mnamespace sample) ''mi-app'') tr"
proof -
  let ?p = "reconcileAutoscaler refLibs sample ''app'' ''mi-app'' (Some sampleScale) (resolve sample)"
  have run: "runs ?p (trace_of emptyCluster ?p ()) (fst (exec emptyCluster ?p ()))" by (rule exec_runs)
  from autoscalers_exclusive [OF run stable_refLibs] run show ?thesis by blast
qed

subsection \<open>Status\<close>

lemma refSetCondition_status:
  "condStatus (refSetCondition cs c) t = (if t = cond_type c then Some (cond_status c) else condStatus cs t)"
  by (induction cs) (auto simp: condStatus_def)

lemma lawful_refLibs: "lawful_conditions refLibs"
  unfolding lawful_conditions_def
proof (intro conjI allI)
  show "condStatus (l_removeStatusCondition refLibs cs u) t = (if t = u then None else condStatus cs t)" for cs u t
    by (induction cs) (auto simp: refLibs_def condStatus_def)
qed (simp add: refSetCondition_status)


theorem messages_bounded_witness:
  "\<exists>n. truncateMsg (replicate 1030 CHR ''a'') = take n (replicate 1030 CHR ''a'') @ truncateSuffix"
  using messages_bounded [of "replicate 1030 CHR ''a''"] by auto

subsection \<open>Credentials, volumes, the database\<close>

theorem credentials_kept_or_drawn_witness:
  "\<exists>tr res x r. runs (reconcileRedisAuthSecret refLibs sample) tr res \<and> (QStore x, r) \<in> set tr \<and> kname x = ''mi-redis-auth''"
proof -
  let ?p = "reconcileRedisAuthSecret refLibs sample"
  have c: "(?p, ''mi-redis-auth'', ''password'', 24) \<in> generatedCredentials refLibs sample"
    by (simp add: generatedCredentials_def nameRedisAuthSecret_def nameRedis_def sample_meta)
  obtain tr res x r where run: "runs ?p tr res" and x: "(QStore x, r) \<in> set tr"
    using encounters_redisAuth [of sample] unfolding encounters_def storesAt_def by force
  from credentials_kept_or_drawn [OF c stable_refLibs run x] run x show ?thesis by blast
qed


theorem database_endpoints_provided_witness:
  "\<exists>tr x. runs (chk (reconcilePostgres refLibs sample) (\<lambda>_. reconcilePoolers refLibs sample)) tr (Inr ()) \<and>
     (QApply x, ROk) \<in> set tr \<and> ko_kind x = KCnpgCluster \<and> bootstrapField x ''database'' = dbName (resolve sample)"
proof -
  obtain tr where run: "runs (chk (reconcilePostgres refLibs sample) (\<lambda>_. reconcilePoolers refLibs sample)) tr (Inr ())"
    using able_chk [of "reconcilePostgres refLibs sample" "\<lambda>_. reconcilePoolers refLibs sample", OF able_parts(3,4)]
    unfolding able_def by auto
  have "pg_external (postgres (spec sample)) = None" by (simp add: sample_defs)
  from database_endpoints_provided [OF run stable_refLibs this] run show ?thesis by blast
qed

subsection \<open>The rendered configuration\<close>

theorem scalar_roundtrip_witness:
  "jsonUnquote (yq (''a<'' @ [dq, CHR 0x0A] @ ''b'')) = Some (''a<'' @ [dq, CHR 0x0A] @ ''b'')"
proof -
  have "validUTF8 (''a<'' @ [dq, CHR 0x0A] @ ''b'')" by code_simp
  then show ?thesis by (rule scalar_roundtrip)
qed

lemma quoted_pw: "quotedPlain (jsonString ''pw'')"
proof -
  have "jsonString ''pw'' = [dq] @ ''pw'' @ [dq]" by code_simp
  then show ?thesis by (simp add: quotedPlain_def dq_def)
qed

theorem script_substitutes_simultaneously_witness:
  "renderConfigScript jsonString (\<lambda>_. Some ''pw'') (''pass: '' @ placeholder ''DB_PASSWORD'') =
     substituted (scriptEnv jsonString (\<lambda>_. Some ''pw'') scriptKeys) (''pass: '' @ placeholder ''DB_PASSWORD'')"
  by (rule script_substitutes_simultaneously) (simp add: quoted_pw)

theorem config_fully_substituted_witness:
  "dollar \<notin> set (renderConfigScript jsonString (\<lambda>_. Some ''pw'') (renderDefaultYML sample (resolve sample)))"
proof (rule config_fully_substituted)
  have "list_all (\<lambda>s. dollar \<notin> set s) (configStrings sample (resolve sample))" by code_simp
  then show "\<forall>s\<in>set (configStrings sample (resolve sample)). dollar \<notin> set s" by (simp add: list_all_iff)
qed (simp_all add: quoted_pw)

subsection \<open>Declared state\<close>

definition refOwn :: "misskey \<Rightarrow> kobj \<Rightarrow> kobj" where
  "refOwn m = setOwners (\<lambda>_. [refOwner m])"

text \<open>The simplest lawful merge: the applied object replaces the stored one.\<close>

lemma laws_refLibs: "serverLaws refLibs m (refOwn m) (\<lambda>x old. x)"
  unfolding serverLaws_def refOwn_def by (auto simp: refSetOwner_def setOwners_def intro!: exI [of _ "\<lambda>_. [refOwner m]"])


subsection \<open>Start-up\<close>

definition restrictedFlags :: flags where
  "restrictedFlags = flagDefaults\<lparr>fl_allowedImageRegistries := ''ghcr.io/, ,docker.io/m ''\<rparr>"

lemma restricted_entries:
  "set (map trimSpace (splitOn (CHR '','') (fl_allowedImageRegistries restrictedFlags))) = {''ghcr.io/'', [], ''docker.io/m''}"
  by code_simp

theorem starts_behind_guards_witness:
  "\<exists>tr pre v. runs (main [] restrictedFlags) tr 0 \<and> tr = pre @ [(Start, MOk)] \<and>
     SetupWebhook \<lparr>ws_for = KMisskey, ws_defaulter = Some Default, ws_validator = MisskeyCustomValidator v\<rparr> \<in> fst ` set pre \<and>
     set (allowedImageRegistries v) = {''ghcr.io/'', ''docker.io/m''}"
proof -
  define srv :: "(mgrReq, mgrResp, unit) server" where "srv = (\<lambda>q w. (MOk, w))"
  let ?p = "main [] restrictedFlags"
  have "runs ?p (trace_of srv ?p ()) (fst (exec srv ?p ()))" by (rule exec_runs)
  moreover have "fst (exec srv ?p ()) = 0" "(Start, MOk) \<in> set (trace_of srv ?p ())"
    by (simp_all add: srv_def main_def serve_def registerWebhooks_def orExit_def Let_def)
  ultimately have run: "runs ?p (trace_of srv ?p ()) 0" "(Start, MOk) \<in> set (trace_of srv ?p ())" by simp_all
  from starts_behind_guards [OF run] obtain pre v where pre: "trace_of srv ?p () = pre @ [(Start, MOk)]"
    and v: "SetupWebhook \<lparr>ws_for = KMisskey, ws_defaulter = Some Default, ws_validator = MisskeyCustomValidator v\<rparr> \<in> fst ` set pre"
    and allow: "\<forall>p. p \<in> set (allowedImageRegistries v) \<longleftrightarrow>
       p \<noteq> [] \<and> (\<exists>x\<in>set (splitOn (CHR '','') (fl_allowedImageRegistries restrictedFlags)). p = trimSpace x)" by auto
  have "set (allowedImageRegistries v) = {''ghcr.io/'', ''docker.io/m''}"
  proof -
    have "set (allowedImageRegistries v) = set (map trimSpace (splitOn (CHR '','') (fl_allowedImageRegistries restrictedFlags))) - {[]}"
      using allow by (intro set_eqI) (simp add: image_iff conj_commute)
    then show ?thesis unfolding restricted_entries by auto
  qed
  with run(1) pre v show ?thesis by blast
qed

end
