(* ===== verification/Spec2Isabelle.thy ===== *)
theory Spec2Isabelle
  imports Scenarios
begin

section \<open>A Kubernetes operator for Misskey: model and properties\<close>

text \<open>
  The program is a Kubernetes operator written in Go. A user describes an instance of the Misskey
  server in a custom resource; the operator creates and keeps up to date everything the instance
  needs: a PostgreSQL cluster, Redis, MeiliSearch, the configuration files, the migration Job, the
  Deployments of app and worker, a proxy, an Ingress, network policies, monitoring. A second
  resource, the channel, serves one image to many instances in batches. An admission webhook
  vets both resources. The sources are under \<^verbatim>\<open>src/api/v1beta1\<close>, \<^verbatim>\<open>src/internal/controller\<close>,
  \<^verbatim>\<open>src/internal/webhook\<close> and \<^verbatim>\<open>src/cmd\<close>.

  \<^bold>\<open>How a handler is modelled.\<close> Handlers talk to the API server, the clock, the random source, the
  container registry and the digest cache. A handler is a tree of requests (\<^verbatim>\<open>prog\<close> of \<open>Prelude\<close>,
  with the requests and answers of \<open>Kube\<close>): each request is followed by a continuation for every
  answer. \<open>runs p tr r\<close> says that \<open>p\<close> can exchange the requests and answers \<open>tr\<close> and return \<open>r\<close>; a
  property of all runs holds whatever the servers answer, including errors, objects changed by
  others and conflicts. \<open>exec\<close> runs a handler against one server, which makes the whole model
  executable. Errors are values (\<open>error\<close> in \<open>Kube\<close>, with not-found and conflict kept apart), Go's
  early returns are \<open>chk\<close>, loops over lists are \<open>forE\<close>. An answer that does not have the requested
  kind and key is turned into an error at the reading place (\<open>atKey\<close>), as a typed client would.

  \<^bold>\<open>Parameters.\<close> What is not under \<^verbatim>\<open>src/\<close> is a field of the record \<open>libs\<close>: owner references,
  finalizers and conditions of controller-runtime and apimachinery, quantities, the retry and
  polling budgets (\<open>l_retrySteps\<close>, \<open>l_pollSteps\<close>: any number; the properties hold for all of them),
  whether an event recorder and a digest resolver are wired. The named hypotheses on them are
  \<open>stable_owner\<close> (setting an owner keeps kind, name and content), \<open>keeps_identity\<close> (so do the
  finalizer functions), \<open>lawful_conditions\<close> (a condition that was set is found) and \<open>serverLaws\<close> (an
  apply stores under the object's key and is idempotent). \<open>Samples\<close>
  gives a concrete \<open>refLibs\<close> that satisfies them. The order in which Go walks a map and the YAML
  parser are arguments of the definitions in \<open>Webhook\<close> that depend on them.

  \<^bold>\<open>Theories, from the bottom.\<close>
  \<^item> \<open>Prelude\<close>: requests trees, runs, footprints (\<open>calls\<close>), ordering (\<open>gated\<close>, \<open>guarded\<close>), shared rules.
  \<^item> \<open>GoLib\<close>, \<open>NetUrl\<close>, \<open>GoTime\<close>: what the sources use of Go's library: strings and runes, decimal
    and hexadecimal text, 32- and 64-bit wrap-around, FNV and SHA-256 on words, JSON strings,
    URL hosts, RFC 3339 times and durations.
  \<^item> \<open>ApiTypes\<close>: the structs of \<^verbatim>\<open>misskey_types.go\<close> and \<^verbatim>\<open>misskeychannel_types.go\<close> as records.
  \<^item> \<open>Kube\<close>: API objects, requests, \<^verbatim>\<open>apply\<close>, \<^verbatim>\<open>applySSA\<close>, \<^verbatim>\<open>deleteIfExists\<close>, \<^verbatim>\<open>event\<close>.
  \<^item> \<open>Common\<close> (\<^verbatim>\<open>common.go\<close>, \<^verbatim>\<open>runtime.go\<close>): names, labels, checksums, defaults.
  \<^item> \<open>Plan\<close> (\<^verbatim>\<open>plan.go\<close>): \<open>resolve\<close>, the endpoints and Secrets everything else is built from.
  \<^item> \<open>Config\<close> (\<^verbatim>\<open>config.go\<close>): \<^verbatim>\<open>default.yml\<close>, Caddyfile, maintenance page, their ConfigMaps.
  \<^item> \<open>Secrets\<close>: the generated credentials, with the locale \<open>secretSchema\<close> for their common contract.
  \<^item> \<open>Digest\<close> (\<^verbatim>\<open>imagedigest.go\<close>): the cache shared by concurrent reconciles, as a step relation over
    interleaved callers; \<open>Channel\<close> (\<^verbatim>\<open>channel.go\<close>, \<^verbatim>\<open>misskeychannel_controller.go\<close>): batched rollout.
  \<^item> \<open>Deletion\<close>, \<open>Pod\<close>, \<open>Migration\<close>, \<open>ObjectStorage\<close>, \<open>Detector\<close> and \<open>DetectorLife\<close>, \<open>Autoscaling\<close>,
    \<open>Workloads\<close>, \<open>Stateful\<close>, \<open>Redis\<close>, \<open>Proxy\<close>, \<open>Tenancy\<close>, \<open>Monitoring\<close>, \<open>Postgres\<close>: the reconcilers
    of the files of the same purpose (\<^verbatim>\<open>deletion.go\<close>, \<^verbatim>\<open>misskey_pod.go\<close>, \<^verbatim>\<open>migration.go\<close>,
    \<^verbatim>\<open>objectstorage.go\<close>, \<^verbatim>\<open>sensitive_detector.go\<close>, \<^verbatim>\<open>autoscaling.go\<close>, \<^verbatim>\<open>workloads.go\<close>,
    \<^verbatim>\<open>statefulset.go\<close> and \<^verbatim>\<open>meilisearch.go\<close>, \<^verbatim>\<open>redis.go\<close> and \<^verbatim>\<open>redisha.go\<close>, \<^verbatim>\<open>proxy.go\<close> and
    \<^verbatim>\<open>ingress.go\<close>, \<^verbatim>\<open>tenancy.go\<close>, \<^verbatim>\<open>monitoring.go\<close>, \<^verbatim>\<open>postgres.go\<close> and \<^verbatim>\<open>backupverify.go\<close>).
  \<^item> \<open>Controller\<close> (\<^verbatim>\<open>misskey_controller.go\<close>): \<open>reconcileMisskey\<close> is one reconcile, \<open>reconcileAll\<close> the parts
    in dependency order, \<open>updateStatus\<close> the conditions and the phase.
  \<^item> \<open>Webhook\<close> (\<^verbatim>\<open>misskey_webhook.go\<close>, \<^verbatim>\<open>misskeychannel_webhook.go\<close>): default, validation, warnings.
  \<^item> \<open>Entry\<close> (\<^verbatim>\<open>cmd/main.go\<close> and the functions that register with the manager): flags, manager options,
    both controllers and webhooks, the order of start-up and the exit status.
  \<^item> \<open>Access\<close>: the rbac markers of the two controllers and the rights each request takes.
  \<^item> \<open>Footprint\<close>: which objects each reconciler may write; the base of the properties below.

  \<^bold>\<open>What is shown.\<close>
  \<^item> \<open>Lifecycle\<close>: a reconcile stays inside its instance and a live instance is always visited
    again; suspending stops it; no migration without its backup; one autoscaler per workload. \<open>Gates\<close>: app and worker wait for what they need.
  \<^item> \<open>Hardening\<close>: only restricted Pods with images the webhook let through are run.
  \<^item> \<open>Entry\<close>: the manager starts only behind its guards, with the allow lists of the flags. \<open>Access\<close>:
    the declared role covers every request of both controllers. \<open>Plan\<close>: resolved plans are well formed.
  \<^item> \<open>Safekeeping\<close>: credentials, volumes and the database endpoints. \<open>Deletion\<close>: retained data.
  \<^item> \<open>Status\<close>: the status agrees with what happened, and writing it is tried a bounded number of
    times. \<open>Webhook\<close>: verdicts do not depend on map order,
    configuration keys are unique.
  \<^item> \<open>Digest\<close>, \<open>Channel\<close>: bounds and tenant isolation of the cache under every interleaving, monotone
    and complete rollouts. \<open>ObjectStorage\<close>: no injection into the generated SQL.
  \<^item> \<open>Rendering\<close>: quoted strings of the configuration can be read back; the init container's script is
    one simultaneous substitution that fills every placeholder, as long as no secret has a dollar
    sign, and what a secret that has one can do.
  \<^item> \<open>Cluster\<close>: a refinement. Against a server with a state, the reconcilers of configuration, network
    policies and quotas, Services, proxy, Ingress, database, poolers, monitors, app and worker are
    functions on the state given by a list of wishes (locale \<open>declared\<close>, interpreted for each of
    them); they converge in one step and can run in any order.
  \<^item> \<open>Possible\<close>, \<open>Witnesses\<close>, \<open>Scenarios\<close>: that runs with the interesting events exist, that a
    whole reconcile can succeed, and every property
    with hypotheses applied to a concrete instance.

  \<^bold>\<open>Not modelled.\<close> \<^verbatim>\<open>zz_generated.deepcopy.go\<close> is generated (values are copied implicitly in HOL) and
  \<^verbatim>\<open>groupversion_info.go\<close> registers types; of \<^verbatim>\<open>cmd/main.go\<close> the flag parser, to which the logging
  library adds flags of its own, and the scheme registration; the registry client behind the digest
  cache is a parameter; logging is left out.
\<close>

end
